(* ===== verification/Prelude.thy ===== *)
theory Prelude
  imports Main "HOL-Library.Char_ord" "HOL-Library.List_Lexorder"
    "HOL-Library.Product_Lexorder" "HOL-Library.Option_ord" "HOL-Library.Multiset"
begin

text \<open>
  Shared vocabulary of the development.
  \<^item> Rust's fixed-width integers: \<open>i64\<close> values are \<open>int\<close>, \<open>u64\<close>/\<open>usize\<close> values are
    \<open>nat\<close>, with the saturating and wrapping operations of the standard library written out.
    Plain \<open>+\<close>/\<open>-\<close> on \<open>i64\<close> is the release-mode (wrapping) operation; the lemmas
    \<open>i64_add_exact\<close> and \<open>i64_sub_exact\<close> say when it is exact.
  \<^item> Rust's \<open>Result<A, E>\<close> is \<open>'e + 'a\<close>; loops with an early \<open>return Err(..)\<close> are
    \<open>try_each\<close> and \<open>try_fold\<close>.
  \<^item> \<open>BTreeMap\<close> and \<open>HashMap\<close> are strictly sorted association lists, \<open>BTreeSet\<close> is a
    strictly sorted list. The order is the iteration order of the B-tree types; a
    \<open>HashMap\<close> is only used through operations that do not depend on the order.
  \<^item> Rust strings are their UTF-8 bytes (\<open>string\<close>); \<open>trim\<close>, \<open>is_whitespace\<close> and
    \<open>is_control\<close> work on the encodings of the Unicode characters they name.
\<close>

named_theorems map_simps "lookup, insertion, removal and filtering of ordered maps"
named_theorems arith_simps "bounds and exactness of machine arithmetic"

section \<open>Machine integers\<close>

definition i64_min :: int where "i64_min = - (2 ^ 63)"
definition i64_max :: int where "i64_max = 2 ^ 63 - 1"
definition u64_max :: nat where "u64_max = 2 ^ 64 - 1"
definition u32_max :: nat where "u32_max = 2 ^ 32 - 1"
definition u8_max :: nat where "u8_max = 255"

definition in_i64 :: "int \<Rightarrow> bool" where
  "in_i64 x \<longleftrightarrow> i64_min \<le> x \<and> x \<le> i64_max"

definition i64_wrap :: "int \<Rightarrow> int" where
  "i64_wrap x = (x + 2 ^ 63) mod 2 ^ 64 - 2 ^ 63"

definition i64_add :: "int \<Rightarrow> int \<Rightarrow> int" where "i64_add a b = i64_wrap (a + b)"
definition i64_sub :: "int \<Rightarrow> int \<Rightarrow> int" where "i64_sub a b = i64_wrap (a - b)"
definition i64_mul :: "int \<Rightarrow> int \<Rightarrow> int" where "i64_mul a b = i64_wrap (a * b)"

definition i64_saturate :: "int \<Rightarrow> int" where
  "i64_saturate x = max i64_min (min i64_max x)"

definition i64_saturating_add :: "int \<Rightarrow> int \<Rightarrow> int" where
  "i64_saturating_add a b = i64_saturate (a + b)"

definition i64_saturating_sub :: "int \<Rightarrow> int \<Rightarrow> int" where
  "i64_saturating_sub a b = i64_saturate (a - b)"

definition u64_wrapping_add :: "nat \<Rightarrow> nat \<Rightarrow> nat" where
  "u64_wrapping_add a b = (a + b) mod 2 ^ 64"

definition u64_saturating_add :: "nat \<Rightarrow> nat \<Rightarrow> nat" where
  "u64_saturating_add a b = min u64_max (a + b)"

definition u64_saturating_sub :: "nat \<Rightarrow> nat \<Rightarrow> nat" where
  "u64_saturating_sub a b = a - b"

lemma in_i64_wrap [simp]: "in_i64 (i64_wrap x)"
proof -
  have "0 \<le> (x + 2 ^ 63) mod 2 ^ 64" "(x + 2 ^ 63) mod 2 ^ 64 < (2 ^ 64 :: int)" by simp_all
  then show ?thesis by (simp add: in_i64_def i64_wrap_def i64_min_def i64_max_def)
qed

lemma i64_wrap_exact [arith_simps]: "in_i64 x \<Longrightarrow> i64_wrap x = x"
proof -
  assume "in_i64 x"
  then have "0 \<le> x + 2 ^ 63" "x + 2 ^ 63 < (2 ^ 64 :: int)"
    by (simp_all add: in_i64_def i64_min_def i64_max_def)
  then have "(x + 2 ^ 63) mod 2 ^ 64 = x + 2 ^ 63" by (rule mod_pos_pos_trivial)
  then show ?thesis by (simp add: i64_wrap_def)
qed

lemma i64_add_exact [arith_simps]: "in_i64 (a + b) \<Longrightarrow> i64_add a b = a + b"
  by (simp add: i64_add_def i64_wrap_exact)

lemma i64_sub_exact [arith_simps]: "in_i64 (a - b) \<Longrightarrow> i64_sub a b = a - b"
  by (simp add: i64_sub_def i64_wrap_exact)

lemma i64_mul_exact [arith_simps]: "in_i64 (a * b) \<Longrightarrow> i64_mul a b = a * b"
  by (simp add: i64_mul_def i64_wrap_exact)

lemma in_i64_saturate [simp]: "in_i64 (i64_saturate x)"
  by (simp add: in_i64_def i64_saturate_def i64_min_def i64_max_def)

lemma in_i64_saturating_add [simp]: "in_i64 (i64_saturating_add a b)"
  by (simp add: i64_saturating_add_def)

lemma i64_saturate_exact [arith_simps]: "in_i64 x \<Longrightarrow> i64_saturate x = x"
  by (simp add: in_i64_def i64_saturate_def)

lemma i64_saturate_mono: "x \<le> y \<Longrightarrow> i64_saturate x \<le> i64_saturate y"
  by (simp add: i64_saturate_def)

lemma i64_saturating_add_nonneg:
  "in_i64 a \<Longrightarrow> 0 \<le> b \<Longrightarrow> a \<le> i64_saturating_add a b"
  by (auto simp: i64_saturating_add_def i64_saturate_def in_i64_def)

lemma u64_wrapping_add_exact [arith_simps]:
  "a + b \<le> u64_max \<Longrightarrow> u64_wrapping_add a b = a + b"
  by (simp add: u64_wrapping_add_def u64_max_def)

lemma u64_wrapping_add_le [simp]: "u64_wrapping_add a b \<le> u64_max"
proof -
  have "(a + b) mod 2 ^ 64 < (2 ^ 64 :: nat)" by simp
  then show ?thesis unfolding u64_wrapping_add_def u64_max_def by linarith
qed

lemma u64_saturating_add_le [simp]: "u64_saturating_add a b \<le> u64_max"
  by (simp add: u64_saturating_add_def)

section \<open>Results and loops that return early\<close>

fun rbind :: "'e + 'a \<Rightarrow> ('a \<Rightarrow> 'e + 'b) \<Rightarrow> 'e + 'b" where
  "rbind (Inl e) f = Inl e"
| "rbind (Inr a) f = f a"

text \<open>\<open>for x in xs { check(x)?; }\<close>\<close>

fun try_each :: "('a \<Rightarrow> 'e + unit) \<Rightarrow> 'a list \<Rightarrow> 'e + unit" where
  "try_each f [] = Inr ()"
| "try_each f (x # xs) = (case f x of Inl e \<Rightarrow> Inl e | Inr _ \<Rightarrow> try_each f xs)"

text \<open>\<open>for x in xs { s = step(s, x)?; }\<close>\<close>

fun try_fold :: "('s \<Rightarrow> 'a \<Rightarrow> 'e + 's) \<Rightarrow> 's \<Rightarrow> 'a list \<Rightarrow> 'e + 's" where
  "try_fold f s [] = Inr s"
| "try_fold f s (x # xs) = (case f s x of Inl e \<Rightarrow> Inl e | Inr s' \<Rightarrow> try_fold f s' xs)"

lemma rbind_eq_Inr [simp]: "rbind m f = Inr b \<longleftrightarrow> (\<exists>a. m = Inr a \<and> f a = Inr b)"
  by (cases m) auto

lemma rbind_eq_Inl: "rbind m f = Inl e \<longleftrightarrow> m = Inl e \<or> (\<exists>a. m = Inr a \<and> f a = Inl e)"
  by (cases m) auto

lemma map_sum_eq_Inr [simp]: "map_sum f g x = Inr y \<longleftrightarrow> (\<exists>z. x = Inr z \<and> y = g z)"
  by (cases x) auto

lemma try_each_Inr: "try_each f xs = Inr () \<longleftrightarrow> (\<forall>x \<in> set xs. f x = Inr ())"
  by (induction xs) (auto split: sum.splits)

lemma try_each_Inl: "try_each f xs = Inl e \<Longrightarrow> \<exists>x \<in> set xs. f x = Inl e"
  by (induction xs) (auto split: sum.splits)

text \<open>The rule for a loop invariant: it holds of the result if every step keeps it.\<close>

lemma try_fold_invariant:
  assumes "try_fold f s xs = Inr t" and "P s"
    and "\<And>s x s'. x \<in> set xs \<Longrightarrow> P s \<Longrightarrow> f s x = Inr s' \<Longrightarrow> P s'"
  shows "P t"
  using assms
proof (induction xs arbitrary: s)
  case Nil
  then show ?case by simp
next
  case (Cons x xs)
  from Cons.prems(1) obtain s' where s': "f s x = Inr s'" "try_fold f s' xs = Inr t"
    by (auto split: sum.splits)
  have "P s'" using Cons.prems(2) s'(1) by (rule Cons.prems(3)[rotated]) simp
  with s'(2) show ?case by (rule Cons.IH) (use Cons.prems(3) in auto)
qed

lemma try_fold_append:
  "try_fold f s (xs @ ys) = rbind (try_fold f s xs) (\<lambda>s'. try_fold f s' ys)"
  by (induction xs arbitrary: s) (auto split: sum.splits)

section \<open>Ordered maps\<close>

type_synonym ('k, 'v) omap = "('k \<times> 'v) list"

definition omap_ok :: "('k::linorder, 'v) omap \<Rightarrow> bool" where
  "omap_ok m \<longleftrightarrow> sorted_wrt (<) (map fst m)"

abbreviation omap_get :: "('k, 'v) omap \<Rightarrow> 'k \<Rightarrow> 'v option" where
  "omap_get m k \<equiv> map_of m k"

abbreviation omap_keys :: "('k, 'v) omap \<Rightarrow> 'k list" where
  "omap_keys m \<equiv> map fst m"

abbreviation omap_values :: "('k, 'v) omap \<Rightarrow> 'v list" where
  "omap_values m \<equiv> map snd m"

definition omap_contains :: "('k, 'v) omap \<Rightarrow> 'k \<Rightarrow> bool" where
  "omap_contains m k \<longleftrightarrow> omap_get m k \<noteq> None"

fun omap_insert :: "'k::linorder \<Rightarrow> 'v \<Rightarrow> ('k, 'v) omap \<Rightarrow> ('k, 'v) omap" where
  "omap_insert k v [] = [(k, v)]"
| "omap_insert k v ((k', v') # m) =
     (if k < k' then (k, v) # (k', v') # m
      else if k = k' then (k, v) # m
      else (k', v') # omap_insert k v m)"

definition omap_remove :: "'k \<Rightarrow> ('k, 'v) omap \<Rightarrow> ('k, 'v) omap" where
  "omap_remove k m = filter (\<lambda>e. fst e \<noteq> k) m"

definition omap_retain :: "('k \<Rightarrow> 'v \<Rightarrow> bool) \<Rightarrow> ('k, 'v) omap \<Rightarrow> ('k, 'v) omap" where
  "omap_retain P m = filter (\<lambda>(k, v). P k v) m"

definition omap_extend :: "('k::linorder, 'v) omap \<Rightarrow> ('k, 'v) omap \<Rightarrow> ('k, 'v) omap" where
  "omap_extend m n = fold (\<lambda>(k, v). omap_insert k v) n m"

lemma map_of_omap_insert [simp, map_simps]:
  "map_of (omap_insert k v m) = (map_of m)(k \<mapsto> v)"
  by (induction k v m rule: omap_insert.induct) (auto simp: fun_eq_iff)

lemma set_omap_insert_fst [simp, map_simps]:
  "fst ` set (omap_insert k v m) = insert k (fst ` set m)"
  by (induction k v m rule: omap_insert.induct) auto

lemma set_omap_insert_subset: "set (omap_insert k v m) \<subseteq> insert (k, v) (set m)"
  by (induction k v m rule: omap_insert.induct) auto

lemma omap_ok_Nil [simp]: "omap_ok []"
  by (simp add: omap_ok_def)

lemma omap_ok_insert [simp, intro]: "omap_ok m \<Longrightarrow> omap_ok (omap_insert k v m)"
proof (induction k v m rule: omap_insert.induct)
  case (1 k v)
  then show ?case by (simp add: omap_ok_def)
next
  case (2 k v k' v' m)
  have keys: "set (map fst (omap_insert k v m)) = insert k (fst ` set m)"
    by (metis set_omap_insert_fst set_map)
  from 2 keys show ?case
    by (auto simp: omap_ok_def not_less_iff_gr_or_eq)
qed

lemma omap_ok_distinct: "omap_ok m \<Longrightarrow> distinct (map fst m)"
  by (simp add: omap_ok_def strict_sorted_iff)

lemma omap_ok_filter [simp, intro]: "omap_ok m \<Longrightarrow> omap_ok (filter P m)"
  by (auto simp: omap_ok_def sorted_wrt_map intro: sorted_wrt_filter)

lemma omap_ok_retain [simp, intro]: "omap_ok m \<Longrightarrow> omap_ok (omap_retain P m)"
  by (simp add: omap_retain_def)

lemma omap_ok_remove [simp, intro]: "omap_ok m \<Longrightarrow> omap_ok (omap_remove k m)"
  by (simp add: omap_remove_def)

lemma omap_get_remove [simp, map_simps]:
  "omap_get (omap_remove k m) = (omap_get m)(k := None)"
  by (induction m) (auto simp: omap_remove_def fun_eq_iff)

lemma omap_get_retain [map_simps]:
  "distinct (map fst m) \<Longrightarrow>
   omap_get (omap_retain P m) k =
     (case omap_get m k of None \<Rightarrow> None | Some v \<Rightarrow> if P k v then Some v else None)"
proof (induction m)
  case Nil
  then show ?case by (simp add: omap_retain_def)
next
  case (Cons e m)
  obtain k' v' where e: "e = (k', v')" by fastforce
  have none: "map_of m k' = None" using Cons.prems e by (simp add: map_of_eq_None_iff)
  have IH: "omap_get (omap_retain P m) k =
      (case omap_get m k of None \<Rightarrow> None | Some v \<Rightarrow> if P k v then Some v else None)"
    using Cons by simp
  show ?case
  proof (cases "k = k'")
    case True
    then show ?thesis using e none IH by (simp add: omap_retain_def)
  next
    case False
    then show ?thesis using e IH by (simp add: omap_retain_def)
  qed
qed

lemma omap_get_retain_id:
  assumes "distinct (map fst m)" "omap_get m k = Some v" "P k v"
  shows "omap_get (omap_retain P m) k = Some v"
  using assms by (simp add: omap_get_retain)

lemma omap_get_retain_key [simp, map_simps]:
  "omap_get (omap_retain (\<lambda>k _. P k) m) k = (if P k then omap_get m k else None)"
  by (induction m) (auto simp: omap_retain_def)

lemma set_omap_retain: "set (omap_retain P m) = {(k, v) \<in> set m. P k v}"
  by (auto simp: omap_retain_def)

lemma omap_retain_id: "(\<And>k v. (k, v) \<in> set m \<Longrightarrow> P k v) \<Longrightarrow> omap_retain P m = m"
  by (auto simp: omap_retain_def filter_id_conv)

text \<open>An ordered map is determined by its lookups.\<close>

lemma omap_ext:
  assumes "omap_ok m" "omap_ok n" "omap_get m = omap_get n"
  shows "m = n"
proof -
  have d: "distinct (map fst m)" "distinct (map fst n)" using assms by (simp_all add: omap_ok_distinct)
  then have "set m = set n" using assms(3) by (metis map_of_inject_set)
  then show ?thesis
    using assms(1,2) d
    by (intro map_sorted_distinct_set_unique[of fst])
       (auto simp: omap_ok_def strict_sorted_iff distinct_map)
qed

lemma omap_contains_iff: "omap_contains m k \<longleftrightarrow> k \<in> fst ` set m"
  by (simp add: omap_contains_def map_of_eq_None_iff)

lemma omap_contains_insert [simp]:
  "omap_contains (omap_insert k v m) k' \<longleftrightarrow> k' = k \<or> omap_contains m k'"
  by (auto simp: omap_contains_def)

lemma omap_get_in_set: "omap_get m k = Some v \<Longrightarrow> (k, v) \<in> set m"
  by (rule map_of_SomeD)

lemma omap_get_key: "omap_get m k = Some v \<Longrightarrow> k \<in> fst ` set m"
  by (force dest: map_of_SomeD)

lemma omap_get_of_set:
  "omap_ok m \<Longrightarrow> (k, v) \<in> set m \<Longrightarrow> omap_get m k = Some v"
  by (simp add: omap_ok_distinct)

lemma length_omap_insert:
  "omap_ok m \<Longrightarrow>
   length (omap_insert k v m) = (if omap_contains m k then length m else Suc (length m))"
proof -
  assume ok: "omap_ok m"
  have "length (omap_insert k v m) = card (fst ` set (omap_insert k v m))"
    using omap_ok_distinct[OF omap_ok_insert[OF ok, of k v]]
    by (metis distinct_card length_map list.set_map)
  also have "\<dots> = card (insert k (fst ` set m))" by simp
  also have "\<dots> = (if k \<in> fst ` set m then card (fst ` set m) else Suc (card (fst ` set m)))"
    by (simp add: card_insert_if)
  also have "card (fst ` set m) = length m"
    using omap_ok_distinct[OF ok] by (metis distinct_card length_map list.set_map)
  finally show ?thesis by (simp add: omap_contains_iff)
qed

lemma omap_get_extend:
  "omap_get (omap_extend m n) k =
     (case map_of (rev n) k of None \<Rightarrow> omap_get m k | Some v \<Rightarrow> Some v)"
  by (induction n arbitrary: m)
     (auto simp: omap_extend_def map_add_def split: option.splits)

text \<open>Collecting pairs with distinct keys into a map.\<close>

lemma omap_get_collect:
  assumes "distinct (map fst es)"
  shows "omap_get (omap_extend [] es) = map_of es"
proof -
  have "map_of (rev es) = map_of es"
    using assms by (intro map_of_inject_set[THEN iffD2]) (simp_all add: rev_map[symmetric])
  then show ?thesis by (auto simp: omap_get_extend fun_eq_iff split: option.splits)
qed

lemma omap_ok_extend [simp, intro]: "omap_ok m \<Longrightarrow> omap_ok (omap_extend m n)"
  by (induction n arbitrary: m) (auto simp: omap_extend_def)

section \<open>Ordered sets\<close>

type_synonym 'a oset = "'a list"

definition oset_ok :: "'a::linorder oset \<Rightarrow> bool" where
  "oset_ok s \<longleftrightarrow> sorted_wrt (<) s"

fun oset_insert :: "'a::linorder \<Rightarrow> 'a oset \<Rightarrow> 'a oset" where
  "oset_insert x [] = [x]"
| "oset_insert x (y # ys) =
     (if x < y then x # y # ys else if x = y then y # ys else y # oset_insert x ys)"

definition oset_of :: "'a::linorder list \<Rightarrow> 'a oset" where
  "oset_of xs = fold oset_insert xs []"

definition oset_extend :: "'a::linorder oset \<Rightarrow> 'a list \<Rightarrow> 'a oset" where
  "oset_extend s xs = fold oset_insert xs s"

lemma set_oset_insert [simp]: "set (oset_insert x s) = insert x (set s)"
  by (induction x s rule: oset_insert.induct) auto

lemma oset_ok_insert [simp, intro]: "oset_ok s \<Longrightarrow> oset_ok (oset_insert x s)"
  by (induction x s rule: oset_insert.induct) (auto simp: oset_ok_def not_less_iff_gr_or_eq)

lemma set_oset_extend [simp]: "set (oset_extend s xs) = set s \<union> set xs"
  by (induction xs arbitrary: s) (auto simp: oset_extend_def)

lemma oset_ok_extend [simp, intro]: "oset_ok s \<Longrightarrow> oset_ok (oset_extend s xs)"
  by (induction xs arbitrary: s) (auto simp: oset_extend_def)

lemma set_oset_of [simp]: "set (oset_of xs) = set xs"
  using set_oset_extend[of "[]" xs] by (simp add: oset_extend_def oset_of_def)

lemma oset_ok_of [simp]: "oset_ok (oset_of xs)"
  using oset_ok_extend[of "[]" xs] by (simp add: oset_extend_def oset_of_def oset_ok_def)

section \<open>Iterator helpers\<close>

text \<open>\<open>iter().position(p)\<close>\<close>

fun position :: "('a \<Rightarrow> bool) \<Rightarrow> 'a list \<Rightarrow> nat option" where
  "position P [] = None"
| "position P (x # xs) = (if P x then Some 0 else map_option Suc (position P xs))"

lemma position_Some:
  "position P xs = Some i \<longleftrightarrow> i < length xs \<and> P (xs ! i) \<and> (\<forall>j < i. \<not> P (xs ! j))"
proof (induction xs arbitrary: i)
  case Nil
  then show ?case by simp
next
  case (Cons x xs)
  show ?case
  proof (cases i)
    case 0
    then show ?thesis by (cases "P x") auto
  next
    case (Suc n)
    then show ?thesis using Cons.IH[of n] by (auto simp: less_Suc_eq_0_disj)
  qed
qed

lemma position_None: "position P xs = None \<longleftrightarrow> (\<forall>x \<in> set xs. \<not> P x)"
  by (induction xs) auto

text \<open>\<open>iter().enumerate()\<close>\<close>

definition enumerated :: "'a list \<Rightarrow> (nat \<times> 'a) list" where
  "enumerated xs = zip [0..<length xs] xs"

lemma enumerated_mem: "(i, x) \<in> set (enumerated xs) \<longleftrightarrow> i < length xs \<and> xs ! i = x"
  by (force simp: enumerated_def in_set_zip)

text \<open>\<open>min_by_key\<close> returns the first minimal element, \<open>max_by_key\<close> the last maximal one.\<close>

fun min_by_key :: "('a \<Rightarrow> 'b::linorder) \<Rightarrow> 'a list \<Rightarrow> 'a option" where
  "min_by_key f [] = None"
| "min_by_key f (x # xs) =
     (case min_by_key f xs of None \<Rightarrow> Some x
      | Some y \<Rightarrow> if f y < f x then Some y else Some x)"

fun max_by_key :: "('a \<Rightarrow> 'b::linorder) \<Rightarrow> 'a list \<Rightarrow> 'a option" where
  "max_by_key f [] = None"
| "max_by_key f (x # xs) =
     (case max_by_key f xs of None \<Rightarrow> Some x
      | Some y \<Rightarrow> if f y < f x then Some x else Some y)"

lemma min_by_key_None [simp]: "min_by_key f xs = None \<longleftrightarrow> xs = []"
  by (cases xs) (auto split: option.splits)

lemma max_by_key_None [simp]: "max_by_key f xs = None \<longleftrightarrow> xs = []"
  by (cases xs) (auto split: option.splits)

lemma min_by_key_Some:
  "min_by_key f xs = Some x \<Longrightarrow> x \<in> set xs \<and> (\<forall>y \<in> set xs. f x \<le> f y)"
  by (induction xs arbitrary: x) (fastforce split: option.splits if_splits)+

lemma max_by_key_Some:
  "max_by_key f xs = Some x \<Longrightarrow> x \<in> set xs \<and> (\<forall>y \<in> set xs. f y \<le> f x)"
  by (induction xs arbitrary: x) (fastforce split: option.splits if_splits)+

lemma find_SomeD: "find P xs = Some x \<Longrightarrow> x \<in> set xs \<and> P x"
  by (induction xs) (auto split: if_splits)

lemma count_list_distinct:
  "distinct xs \<Longrightarrow> count_list xs x = (if x \<in> set xs then 1 else 0)"
  by (induction xs) auto

definition remove_nth :: "nat \<Rightarrow> 'a list \<Rightarrow> 'a list" where
  "remove_nth i xs = take i xs @ drop (Suc i) xs"

lemma length_remove_nth [simp]: "i < length xs \<Longrightarrow> length (remove_nth i xs) = length xs - 1"
  by (simp add: remove_nth_def)

lemma set_remove_nth_subset: "set (remove_nth i xs) \<subseteq> set xs"
  using set_take_subset[of i xs] set_drop_subset[of "Suc i" xs] by (auto simp: remove_nth_def)

section \<open>Machines with an invariant\<close>

text \<open>
  A component is a state and a step per operation. Its invariant holds in every state that
  a sequence of operations reaches from the initial one.
\<close>

locale invariant_machine =
  fixes init :: "'s" and step :: "'s \<Rightarrow> 'op \<Rightarrow> 's" and inv :: "'s \<Rightarrow> bool"
  assumes inv_init: "inv init"
    and inv_step: "inv s \<Longrightarrow> inv (step s c)"
begin

lemma inv_run: "inv s \<Longrightarrow> inv (foldl step s cs)"
  by (induction cs arbitrary: s) (auto intro: inv_step)

lemma inv_reachable: "inv (foldl step init cs)"
  by (rule inv_run[OF inv_init])

end

end
