(* ===== verification/Types.thy ===== *)
theory Types
  imports Prelude
begin

text \<open>
  The shared domain model, \<^verbatim>\<open>crates/types/src/lib.rs\<close>: health of a pool member, outcome of
  a served request, the session hint and the routing strategy. A \<open>PoolMember\<close> trait object is
  the record of what its accessors return; times are unix milliseconds.
\<close>

record session_hint =
  affinity_key :: "string option"

datatype health =
    Available
  | Cooldown (until_unix_ms: int)
  | AuthFailed
  | Disabled

fun is_available :: "health \<Rightarrow> int \<Rightarrow> bool" where
  "is_available Available now = True"
| "is_available (Cooldown until) now = (until \<le> now)"
| "is_available AuthFailed now = False"
| "is_available Disabled now = False"

datatype outcome =
    Success
  | RateLimited (retry_after_secs: "int option")
  | OutcomeAuthFailed
  | ServerError
  | NetworkError

record pool_member =
  pm_id :: string
  pm_health :: health
  pm_reset_at_unix :: "int option"
  pm_weight :: nat

datatype strategy = StrictRoundRobin | FillFirst

definition member_available :: "int \<Rightarrow> pool_member \<Rightarrow> bool" where
  "member_available now m = is_available (pm_health m) now"

text \<open>A cooldown ends at its timestamp and stays over: availability is monotone in time.\<close>

lemma is_available_mono: "is_available h t \<Longrightarrow> t \<le> t' \<Longrightarrow> is_available h t'"
  by (cases h) auto

lemma is_available_iff:
  "is_available h now \<longleftrightarrow> h = Available \<or> (\<exists>u. h = Cooldown u \<and> u \<le> now)"
  by (cases h) auto

end
