(* ===== verification/Router.thy ===== *)
theory Router
  imports Types
begin

text \<open>
  Account selection, \<^verbatim>\<open>crates/router/src/lib.rs\<close>. The router's mutex-protected
  \<open>RouterState\<close> is a record and every public method is one definition on it; a method holds
  the lock for its whole body, so concurrent callers are an arbitrary sequence of these
  steps (\<open>router_op\<close>, \<open>router_step\<close>). The clock reading of \<open>select\<close> is an argument.
\<close>

section \<open>State and operations\<close>

definition STRATEGY_STRICT_ROUND_ROBIN :: nat where "STRATEGY_STRICT_ROUND_ROBIN = 0"
definition STRATEGY_FILL_FIRST :: nat where "STRATEGY_FILL_FIRST = 1"

fun strategy_to_u8 :: "strategy \<Rightarrow> nat" where
  "strategy_to_u8 StrictRoundRobin = STRATEGY_STRICT_ROUND_ROBIN"
| "strategy_to_u8 FillFirst = STRATEGY_FILL_FIRST"

definition u8_to_strategy :: "nat \<Rightarrow> strategy" where
  "u8_to_strategy v = (if v = STRATEGY_FILL_FIRST then FillFirst else StrictRoundRobin)"

record router_state =
  active :: "string oset option"
  last_served :: "(string, nat) omap"
  seq :: nat
  affinity :: "(string, string \<times> nat) omap"

record router =
  strategy_u8 :: nat
  rstate :: router_state

definition admits :: "router_state \<Rightarrow> string \<Rightarrow> bool" where
  "admits st mid = (case active st of None \<Rightarrow> True | Some a \<Rightarrow> mid \<in> set a)"

definition AFFINITY_MAX_IDLE :: nat where "AFFINITY_MAX_IDLE = 10000"
definition AFFINITY_MAX_ENTRIES :: nat where "AFFINITY_MAX_ENTRIES = 1024"

definition router_state_default :: router_state where
  "router_state_default = \<lparr>active = None, last_served = [], seq = 0, affinity = []\<rparr>"

definition router_new :: "strategy \<Rightarrow> router" where
  "router_new s = \<lparr>strategy_u8 = strategy_to_u8 s, rstate = router_state_default\<rparr>"

definition set_strategy :: "strategy \<Rightarrow> router \<Rightarrow> router" where
  "set_strategy s r = r\<lparr>strategy_u8 := strategy_to_u8 s\<rparr>"

definition router_strategy :: "router \<Rightarrow> strategy" where
  "router_strategy r = u8_to_strategy (strategy_u8 r)"

definition select_forced :: "string \<Rightarrow> string option \<Rightarrow> router \<Rightarrow> router" where
  "select_forced member_id key r =
     (let st = rstate r in
      if \<not> admits st member_id then r
      else
        let s = u64_wrapping_add (seq st) 1;
            st' = st\<lparr>seq := s, last_served := omap_insert member_id s (last_served st)\<rparr>
        in r\<lparr>rstate :=
             (case key of None \<Rightarrow> st'
              | Some k \<Rightarrow> st'\<lparr>affinity := omap_insert k (member_id, s) (affinity st')\<rparr>)\<rparr>)"

text \<open>\<open>SystemTime::now().duration_since(UNIX_EPOCH)\<close>: \<open>None\<close> is a clock before the epoch.\<close>

definition now_of_clock :: "nat option \<Rightarrow> int" where
  "now_of_clock millis = (case millis of Some d \<Rightarrow> min (int d) i64_max | None \<Rightarrow> 0)"

definition affinity_hit ::
  "router_state \<Rightarrow> pool_member list \<Rightarrow> int \<Rightarrow> string option \<Rightarrow> (string \<times> string \<times> nat) option" where
  "affinity_hit st members now key =
     (case key of None \<Rightarrow> None
      | Some k \<Rightarrow>
          (case omap_get (affinity st) k of None \<Rightarrow> None
           | Some (bound_id, _) \<Rightarrow>
               if admits st bound_id then
                 map_option (\<lambda>idx. (k, bound_id, idx))
                   (position (\<lambda>m. pm_id m = bound_id \<and> member_available now m) members)
               else None))"

definition refresh_binding :: "string \<Rightarrow> string \<Rightarrow> router_state \<Rightarrow> router_state" where
  "refresh_binding k bound_id st =
     (let s = u64_wrapping_add (seq st) 1
      in st\<lparr>seq := s,
            last_served := omap_insert bound_id s (last_served st),
            affinity := omap_insert k (bound_id, s) (affinity st)\<rparr>)"

definition evict_idle :: "nat \<Rightarrow> (string, string \<times> nat) omap \<Rightarrow> (string, string \<times> nat) omap" where
  "evict_idle s aff =
     (if length aff > AFFINITY_MAX_ENTRIES then
        let cutoff = u64_saturating_sub s AFFINITY_MAX_IDLE
        in omap_retain (\<lambda>_ (_, used). used \<ge> cutoff) aff
      else aff)"

definition record_choice :: "string \<Rightarrow> string option \<Rightarrow> router_state \<Rightarrow> router_state" where
  "record_choice chosen_id key st =
     (let s = u64_wrapping_add (seq st) 1; st' = st\<lparr>seq := s\<rparr> in
      if admits st' chosen_id then
        let st'' = st'\<lparr>last_served := omap_insert chosen_id s (last_served st')\<rparr> in
        (case key of None \<Rightarrow> st''
         | Some k \<Rightarrow>
             st''\<lparr>affinity := evict_idle s (omap_insert k (chosen_id, s) (affinity st''))\<rparr>)
      else st')"

definition fill_first_pick :: "router_state \<Rightarrow> int \<Rightarrow> pool_member list \<Rightarrow> nat option" where
  "fill_first_pick st now members = position (member_available now) members"

definition last_seq_of :: "router_state \<Rightarrow> string \<Rightarrow> nat" where
  "last_seq_of st mid = (case omap_get (last_served st) mid of None \<Rightarrow> 0 | Some s \<Rightarrow> s)"

fun rr_scan ::
  "router_state \<Rightarrow> int \<Rightarrow> (nat \<times> nat) option \<Rightarrow> nat \<Rightarrow> pool_member list \<Rightarrow> (nat \<times> nat) option" where
  "rr_scan st now best idx [] = best"
| "rr_scan st now best idx (m # ms) =
     (let best' =
        (if \<not> member_available now m then best
         else
           let last_seq = last_seq_of st (pm_id m) in
           (case best of None \<Rightarrow> Some (idx, last_seq)
            | Some (_, min_seq) \<Rightarrow>
                if last_seq < min_seq then Some (idx, last_seq) else best))
      in rr_scan st now best' (Suc idx) ms)"

definition round_robin_pick :: "router_state \<Rightarrow> int \<Rightarrow> pool_member list \<Rightarrow> nat option" where
  "round_robin_pick st now members = map_option fst (rr_scan st now None 0 members)"

definition strategy_pick ::
  "strategy \<Rightarrow> router_state \<Rightarrow> int \<Rightarrow> pool_member list \<Rightarrow> nat option" where
  "strategy_pick s = (case s of FillFirst \<Rightarrow> fill_first_pick | StrictRoundRobin \<Rightarrow> round_robin_pick)"

definition select ::
  "int \<Rightarrow> pool_member list \<Rightarrow> session_hint \<Rightarrow> router \<Rightarrow> nat option \<times> router" where
  "select now members hint r =
     (let st = rstate r; key = affinity_key hint in
      case affinity_hit st members now key of
        Some (k, bound_id, idx) \<Rightarrow> (Some idx, r\<lparr>rstate := refresh_binding k bound_id st\<rparr>)
      | None \<Rightarrow>
          (case strategy_pick (router_strategy r) st now members of
             None \<Rightarrow> (None, r)
           | Some idx \<Rightarrow>
               (Some idx, r\<lparr>rstate := record_choice (pm_id (members ! idx)) key st\<rparr>)))"

definition feedback :: "string \<Rightarrow> outcome \<Rightarrow> router \<Rightarrow> router" where
  "feedback mid outcome r = r"

definition bound_affinity_member :: "string \<Rightarrow> router \<Rightarrow> string option" where
  "bound_affinity_member k r = map_option fst (omap_get (affinity (rstate r)) k)"

definition retain_members :: "string oset \<Rightarrow> router \<Rightarrow> nat \<times> router" where
  "retain_members act r =
     (let st = rstate r\<lparr>active := Some act\<rparr>;
          before = length (last_served st);
          st' = st\<lparr>last_served := omap_retain (\<lambda>mid _. mid \<in> set act) (last_served st),
                   affinity := omap_retain (\<lambda>_ (mid, _). mid \<in> set act) (affinity st)\<rparr>
      in (before - length (last_served st'), r\<lparr>rstate := st'\<rparr>))"

definition tracked_members :: "router \<Rightarrow> string list" where
  "tracked_members r = omap_keys (last_served (rstate r))"

lemma router_strategy_new [simp]: "router_strategy (router_new s) = s"
  by (cases s) (simp_all add: router_strategy_def router_new_def u8_to_strategy_def
      STRATEGY_FILL_FIRST_def STRATEGY_STRICT_ROUND_ROBIN_def)

lemma router_strategy_set [simp]: "router_strategy (set_strategy s r) = s"
  by (cases s) (simp_all add: router_strategy_def set_strategy_def u8_to_strategy_def
      STRATEGY_FILL_FIRST_def STRATEGY_STRICT_ROUND_ROBIN_def)

lemma router_strategy_rstate [simp]: "router_strategy (r\<lparr>rstate := st\<rparr>) = router_strategy r"
  by (simp add: router_strategy_def)

section \<open>The contract of a strategy\<close>

text \<open>
  A strategy's pick is an available member of the list, and it fails only when no member is
  available. Everything \<open>select\<close> promises about health rests on this contract alone.
\<close>

locale picker =
  fixes pick :: "router_state \<Rightarrow> int \<Rightarrow> pool_member list \<Rightarrow> nat option"
  assumes pick_sound: "pick st now ms = Some i \<Longrightarrow> i < length ms \<and> member_available now (ms ! i)"
    and pick_complete: "pick st now ms = None \<Longrightarrow> \<forall>m \<in> set ms. \<not> member_available now m"
begin

lemma pick_None_iff: "pick st now ms = None \<longleftrightarrow> (\<forall>m \<in> set ms. \<not> member_available now m)"
  by (metis nth_mem option.exhaust pick_complete pick_sound)

end

interpretation fill_first: picker fill_first_pick
  by unfold_locales (auto simp: fill_first_pick_def position_Some position_None)

text \<open>The scan keeps the first index with the least stamp seen so far.\<close>

definition rr_best :: "router_state \<Rightarrow> int \<Rightarrow> pool_member list \<Rightarrow> nat \<Rightarrow> bool" where
  "rr_best st now ms i \<longleftrightarrow>
     i < length ms \<and> member_available now (ms ! i) \<and>
     (\<forall>j < length ms. member_available now (ms ! j) \<longrightarrow>
        last_seq_of st (pm_id (ms ! i)) < last_seq_of st (pm_id (ms ! j)) \<or>
        last_seq_of st (pm_id (ms ! i)) = last_seq_of st (pm_id (ms ! j)) \<and> i \<le> j)"

definition rr_scanned ::
  "router_state \<Rightarrow> int \<Rightarrow> pool_member list \<Rightarrow> (nat \<times> nat) option \<Rightarrow> bool" where
  "rr_scanned st now ms best =
     (case best of None \<Rightarrow> \<forall>m \<in> set ms. \<not> member_available now m
      | Some (i, s) \<Rightarrow> rr_best st now ms i \<and> s = last_seq_of st (pm_id (ms ! i)))"

lemma rr_best_length: "rr_best st now ms i \<Longrightarrow> i < length ms"
  by (simp add: rr_best_def)

lemma rr_best_snoc_unavailable:
  assumes "\<not> member_available now m"
  shows "rr_best st now (pre @ [m]) i \<longleftrightarrow> rr_best st now pre i"
proof -
  have "j < length (pre @ [m]) \<and> member_available now ((pre @ [m]) ! j) \<longleftrightarrow>
        j < length pre \<and> member_available now (pre ! j)" for j
    using assms by (cases "j < length pre") (auto simp: nth_append less_Suc_eq)
  then show ?thesis unfolding rr_best_def by (metis nth_append)
qed

lemma rr_best_snoc_less:
  assumes best: "rr_best st now pre i" and m: "member_available now m"
    and less: "last_seq_of st (pm_id m) < last_seq_of st (pm_id (pre ! i))"
  shows "rr_best st now (pre @ [m]) (length pre)"
proof -
  have "last_seq_of st (pm_id m) < last_seq_of st (pm_id (pre ! j))"
    if "j < length pre" "member_available now (pre ! j)" for j
    using best that less unfolding rr_best_def by fastforce
  then show ?thesis using m by (simp add: rr_best_def nth_append less_Suc_eq)
qed

lemma rr_best_snoc_keep:
  assumes best: "rr_best st now pre i"
    and ge: "last_seq_of st (pm_id (pre ! i)) \<le> last_seq_of st (pm_id m)"
  shows "rr_best st now (pre @ [m]) i"
proof -
  have i: "i < length pre" using best by (simp add: rr_best_def)
  with ge have "last_seq_of st (pm_id (pre ! i)) < last_seq_of st (pm_id m) \<or>
      last_seq_of st (pm_id (pre ! i)) = last_seq_of st (pm_id m) \<and> i \<le> length pre"
    by linarith
  with best i show ?thesis by (simp add: rr_best_def nth_append less_Suc_eq)
qed

lemma rr_scanned_snoc:
  assumes "rr_scanned st now pre best"
  shows "rr_scanned st now (pre @ [m])
     (if \<not> member_available now m then best
      else (case best of None \<Rightarrow> Some (length pre, last_seq_of st (pm_id m))
            | Some (_, s) \<Rightarrow>
                if last_seq_of st (pm_id m) < s
                then Some (length pre, last_seq_of st (pm_id m)) else best))"
proof (cases "member_available now m")
  case False
  then show ?thesis
    using assms
    by (cases best)
       (auto simp: rr_scanned_def rr_best_snoc_unavailable nth_append dest: rr_best_length)
next
  case True
  show ?thesis
  proof (cases best)
    case None
    then have "\<forall>x \<in> set pre. \<not> member_available now x"
      using assms by (simp add: rr_scanned_def)
    then have "rr_best st now (pre @ [m]) (length pre)"
      using True by (auto simp: rr_best_def nth_append less_Suc_eq)
    with None True show ?thesis by (simp add: rr_scanned_def)
  next
    case (Some b)
    obtain i s where b: "b = (i, s)" by (cases b)
    have best: "rr_best st now pre i" and s: "s = last_seq_of st (pm_id (pre ! i))"
      using assms Some b by (simp_all add: rr_scanned_def)
    then have i: "i < length pre" by (simp add: rr_best_def)
    show ?thesis
    proof (cases "last_seq_of st (pm_id m) < s")
      case less: True
      have "rr_best st now (pre @ [m]) (length pre)"
        by (rule rr_best_snoc_less[OF best True]) (use less s in simp)
      with less Some b True show ?thesis by (simp add: rr_scanned_def)
    next
      case ge: False
      have "rr_best st now (pre @ [m]) i"
        by (rule rr_best_snoc_keep[OF best]) (use ge s in simp)
      with ge Some b True s i show ?thesis by (simp add: rr_scanned_def nth_append)
    qed
  qed
qed

lemma rr_scan_spec:
  "rr_scanned st now pre best \<Longrightarrow>
   rr_scanned st now (pre @ ms) (rr_scan st now best (length pre) ms)"
proof (induction ms arbitrary: pre best)
  case Nil
  then show ?case by simp
next
  case (Cons m ms)
  define best' where "best' =
    (if \<not> member_available now m then best
     else (case best of None \<Rightarrow> Some (length pre, last_seq_of st (pm_id m))
           | Some (_, s) \<Rightarrow>
               if last_seq_of st (pm_id m) < s
               then Some (length pre, last_seq_of st (pm_id m)) else best))"
  have step: "rr_scanned st now (pre @ [m]) best'"
    unfolding best'_def by (rule rr_scanned_snoc[OF Cons.prems])
  have "rr_scan st now best (length pre) (m # ms) = rr_scan st now best' (length (pre @ [m])) ms"
    by (simp add: best'_def Let_def)
  with Cons.IH[OF step] show ?case by simp
qed

lemma rr_scanned_rr_scan: "rr_scanned st now ms (rr_scan st now None 0 ms)"
proof -
  have "rr_scanned st now [] None" by (simp add: rr_scanned_def)
  then show ?thesis using rr_scan_spec[of st now "[]" None ms] by simp
qed

lemma rr_best_unique: "rr_best st now ms i \<Longrightarrow> rr_best st now ms j \<Longrightarrow> i = j"
  unfolding rr_best_def by (metis le_antisym nat_neq_iff order.asym)

lemma round_robin_pick_spec:
  "round_robin_pick st now ms = Some i \<longleftrightarrow> rr_best st now ms i"
proof (cases "rr_scan st now None 0 ms")
  case None
  then have "\<forall>m \<in> set ms. \<not> member_available now m"
    using rr_scanned_rr_scan[of st now ms] by (simp add: rr_scanned_def)
  then show ?thesis using None by (auto simp: round_robin_pick_def rr_best_def)
next
  case (Some b)
  then have "rr_best st now ms (fst b)"
    using rr_scanned_rr_scan[of st now ms] by (cases b) (simp add: rr_scanned_def)
  then show ?thesis using Some by (auto simp: round_robin_pick_def dest: rr_best_unique)
qed

interpretation round_robin: picker round_robin_pick
proof unfold_locales
  fix st now ms i
  assume "round_robin_pick st now ms = Some i"
  then show "i < length ms \<and> member_available now (ms ! i)"
    by (simp add: round_robin_pick_spec rr_best_def)
next
  fix st now ms
  assume "round_robin_pick st now ms = None"
  then show "\<forall>m \<in> set ms. \<not> member_available now m"
    using rr_scanned_rr_scan[of st now ms]
    by (simp add: round_robin_pick_def rr_scanned_def)
qed

interpretation strategy: picker "strategy_pick s"
  by (cases s) (simp_all add: strategy_pick_def fill_first.picker_axioms round_robin.picker_axioms)

section \<open>Selection\<close>

lemma select_available:
  "case select now ms hint r of
     (Some i, _) \<Rightarrow> i < length ms \<and> member_available now (ms ! i)
   | (None, r') \<Rightarrow> r' = r \<and> (\<forall>m \<in> set ms. \<not> member_available now m)"
proof (cases "affinity_hit (rstate r) ms now (affinity_key hint)")
  case None
  then show ?thesis
    using strategy.pick_sound[of "router_strategy r" "rstate r" now ms]
      strategy.pick_complete[of "router_strategy r" "rstate r" now ms]
    by (auto simp: select_def Let_def split: option.splits)
next
  case (Some h)
  then obtain k mid i where h: "h = (k, mid, i)" by (cases h) auto
  with Some have "i < length ms \<and> member_available now (ms ! i)"
    by (auto simp: affinity_hit_def position_Some split: option.splits if_splits)
  with Some h show ?thesis by (simp add: select_def Let_def)
qed

lemma select_bound:
  assumes "bound_affinity_member k r = Some mid" and "admits (rstate r) mid"
    and "m \<in> set ms" and "pm_id m = mid" and "member_available now m"
  shows "\<exists>i r'. select now ms \<lparr>affinity_key = Some k\<rparr> r = (Some i, r') \<and> i < length ms \<and>
           pm_id (ms ! i) = mid \<and> bound_affinity_member k r' = Some mid"
proof -
  from assms(1) obtain used where get: "omap_get (affinity (rstate r)) k = Some (mid, used)"
    by (auto simp: bound_affinity_member_def)
  have "position (\<lambda>m. pm_id m = mid \<and> member_available now m) ms \<noteq> None"
    using assms(3-5) by (auto simp: position_None)
  then obtain i where i: "position (\<lambda>m. pm_id m = mid \<and> member_available now m) ms = Some i"
    by blast
  then have "affinity_hit (rstate r) ms now (Some k) = Some (k, mid, i)"
    using get assms(2) by (simp add: affinity_hit_def)
  with i show ?thesis
    by (simp add: select_def Let_def position_Some bound_affinity_member_def refresh_binding_def)
qed

end
