(* ===== verification/Router_Props.thy ===== *)
theory Router_Props
  imports Router
begin

text \<open>
  What the router guarantees: its bookkeeping invariant over every sequence of operations,
  even rotation of \<open>StrictRoundRobin\<close>, session stickiness, independence of scopes and the
  bound on the affinity table.
\<close>

section \<open>The bookkeeping invariant\<close>

text \<open>
  The tables are well-formed maps, and once an allowlist is active they mention live members
  only.
\<close>

definition router_state_ok :: "router_state \<Rightarrow> bool" where
  "router_state_ok st \<longleftrightarrow>
     omap_ok (last_served st) \<and> omap_ok (affinity st) \<and>
     (\<forall>e \<in> set (last_served st). admits st (fst e)) \<and>
     (\<forall>e \<in> set (affinity st). admits st (fst (snd e)))"

definition router_ok :: "router \<Rightarrow> bool" where
  "router_ok r \<longleftrightarrow> router_state_ok (rstate r)"

lemma admits_update [simp]:
  "admits (st\<lparr>seq := s\<rparr>) = admits st"
  "admits (st\<lparr>last_served := l\<rparr>) = admits st"
  "admits (st\<lparr>affinity := f\<rparr>) = admits st"
  by (simp_all add: admits_def fun_eq_iff)

lemma router_state_ok_seq [simp]: "router_state_ok (st\<lparr>seq := s\<rparr>) = router_state_ok st"
  by (simp add: router_state_ok_def)

lemma router_state_ok_insert_served:
  assumes "router_state_ok st" "admits st mid"
  shows "router_state_ok (st\<lparr>seq := s, last_served := omap_insert mid s' (last_served st)\<rparr>)"
  using assms set_omap_insert_subset[of mid s' "last_served st"]
  by (auto simp: router_state_ok_def)

lemma router_state_ok_insert_affinity:
  assumes "router_state_ok st" "admits st mid"
  shows "router_state_ok (st\<lparr>affinity := omap_insert k (mid, s) (affinity st)\<rparr>)"
  using assms set_omap_insert_subset[of k "(mid, s)" "affinity st"]
  by (auto simp: router_state_ok_def)

lemma router_state_ok_evict:
  "router_state_ok st \<Longrightarrow> router_state_ok (st\<lparr>affinity := evict_idle s (affinity st)\<rparr>)"
  by (auto simp: router_state_ok_def evict_idle_def Let_def set_omap_retain)

lemma refresh_binding_ok:
  assumes "router_state_ok st" "admits st mid"
  shows "router_state_ok (refresh_binding k mid st)"
proof -
  let ?s = "u64_wrapping_add (seq st) 1"
  let ?st = "st\<lparr>seq := ?s, last_served := omap_insert mid ?s (last_served st)\<rparr>"
  have "router_state_ok ?st" using assms by (rule router_state_ok_insert_served)
  then have "router_state_ok (?st\<lparr>affinity := omap_insert k (mid, ?s) (affinity ?st)\<rparr>)"
    by (rule router_state_ok_insert_affinity) (use assms in \<open>simp add: admits_def\<close>)
  then show ?thesis by (simp add: refresh_binding_def Let_def)
qed

lemma record_choice_ok:
  assumes "router_state_ok st"
  shows "router_state_ok (record_choice mid key st)"
proof (cases "admits st mid")
  case True
  let ?s = "u64_wrapping_add (seq st) 1"
  let ?st = "st\<lparr>seq := ?s, last_served := omap_insert mid ?s (last_served st)\<rparr>"
  have st: "router_state_ok ?st" using assms True by (rule router_state_ok_insert_served)
  show ?thesis
  proof (cases key)
    case None
    then show ?thesis using True st by (simp add: record_choice_def Let_def)
  next
    case (Some k)
    have "router_state_ok (?st\<lparr>affinity := omap_insert k (mid, ?s) (affinity ?st)\<rparr>)"
      by (rule router_state_ok_insert_affinity[OF st]) (use True in \<open>simp add: admits_def\<close>)
    from router_state_ok_evict[OF this, of ?s] show ?thesis
      using Some True by (simp add: record_choice_def Let_def)
  qed
next
  case False
  then show ?thesis using assms by (simp add: record_choice_def Let_def)
qed

lemma affinity_hit_admits: "affinity_hit st ms now key = Some (k, mid, i) \<Longrightarrow> admits st mid"
  by (auto simp: affinity_hit_def split: option.splits if_splits)

lemma select_ok: "router_ok r \<Longrightarrow> router_ok (snd (select now ms hint r))"
  by (auto simp: select_def router_ok_def Let_def refresh_binding_ok record_choice_ok
      split: option.splits dest: affinity_hit_admits)

lemma select_forced_ok: "router_ok r \<Longrightarrow> router_ok (select_forced mid key r)"
proof (cases "admits (rstate r) mid")
  case True
  assume ok: "router_ok r"
  let ?st = "rstate r" and ?s = "u64_wrapping_add (seq (rstate r)) 1"
  let ?st' = "?st\<lparr>seq := ?s, last_served := omap_insert mid ?s (last_served ?st)\<rparr>"
  have st: "router_state_ok ?st'"
    using ok True by (auto simp: router_ok_def intro: router_state_ok_insert_served)
  have "router_state_ok (?st'\<lparr>affinity := omap_insert k (mid, ?s) (affinity ?st')\<rparr>)" for k
    by (rule router_state_ok_insert_affinity[OF st]) (use True in \<open>simp add: admits_def\<close>)
  with st True show ?thesis
    by (simp add: select_forced_def router_ok_def Let_def split: option.splits)
qed (simp add: select_forced_def Let_def)

lemma retain_members_ok: "router_ok r \<Longrightarrow> router_ok (snd (retain_members a r))"
  by (auto simp: retain_members_def router_ok_def router_state_ok_def Let_def set_omap_retain
      admits_def)

subsection \<open>Sequences of operations\<close>

datatype router_op =
    OpSelect int "pool_member list" session_hint
  | OpForced string "string option"
  | OpRetain "string oset"
  | OpStrategy strategy
  | OpFeedback string outcome

fun router_step :: "router \<Rightarrow> router_op \<Rightarrow> router" where
  "router_step r (OpSelect now ms hint) = snd (select now ms hint r)"
| "router_step r (OpForced mid key) = select_forced mid key r"
| "router_step r (OpRetain a) = snd (retain_members a r)"
| "router_step r (OpStrategy s) = set_strategy s r"
| "router_step r (OpFeedback mid out) = feedback mid out r"

lemma router_step_ok: "router_ok r \<Longrightarrow> router_ok (router_step r c)"
proof (cases c)
  case (OpStrategy s)
  then show "router_ok r \<Longrightarrow> ?thesis" by (simp add: set_strategy_def router_ok_def)
qed (simp_all add: select_ok select_forced_ok retain_members_ok feedback_def)

lemma router_new_ok: "router_ok (router_new s)"
  by (simp add: router_ok_def router_new_def router_state_default_def router_state_ok_def)

interpretation router_machine: invariant_machine "router_new s" router_step router_ok
  by unfold_locales (simp_all add: router_step_ok router_new_ok)

text \<open>
  C5. Whatever sequence of operations the relay performs on a fresh router, once an allowlist
  of live members has been activated by \<open>retain_members\<close>, neither the rotation table nor any
  session binding mentions a member outside it: a removed account is never recorded again.
\<close>

theorem router_tracks_live_members_only:
  assumes "r = foldl router_step (router_new s) ops" and "active (rstate r) = Some a"
  shows "set (tracked_members r) \<subseteq> set a \<and>
         (\<forall>k mid. bound_affinity_member k r = Some mid \<longrightarrow> mid \<in> set a)"
proof -
  have ok: "router_state_ok (rstate r)"
    using router_machine.inv_reachable[of s ops] assms(1) by (simp add: router_ok_def)
  have bound: "mid \<in> set a" if "bound_affinity_member k r = Some mid" for k mid
  proof -
    from that obtain used where "omap_get (affinity (rstate r)) k = Some (mid, used)"
      by (auto simp: bound_affinity_member_def)
    then have "(k, mid, used) \<in> set (affinity (rstate r))" by (rule omap_get_in_set)
    with ok assms(2) show ?thesis by (force simp: router_state_ok_def admits_def)
  qed
  with ok assms(2) show ?thesis by (auto simp: router_state_ok_def tracked_members_def admits_def)
qed

section \<open>Health and failure\<close>

text \<open>
  C6. \<open>select\<close> hands out an available member of the list it was given, under either
  strategy and with or without a session binding; it returns nothing exactly when no member
  is available, and then changes no state.
\<close>

theorem select_serves_available_member:
  "case select now ms hint r of
     (Some i, _) \<Rightarrow> i < length ms \<and> member_available now (ms ! i)
   | (None, r') \<Rightarrow> r' = r \<and> (\<forall>m \<in> set ms. \<not> member_available now m)"
  by (rule select_available)

section \<open>Even rotation\<close>

text \<open>Consecutive requests without a session key, one clock reading per request.\<close>

fun select_seq :: "int list \<Rightarrow> pool_member list \<Rightarrow> router \<Rightarrow> nat option list \<times> router" where
  "select_seq [] ms r = ([], r)"
| "select_seq (now # nows) ms r =
     (let (p, r') = select now ms \<lparr>affinity_key = None\<rparr> r;
          (ps, r'') = select_seq nows ms r'
      in (p # ps, r''))"

definition available_indices :: "int \<Rightarrow> pool_member list \<Rightarrow> nat list" where
  "available_indices now ms = filter (\<lambda>i. member_available now (ms ! i)) [0..<length ms]"

text \<open>Stamps never exceed the counter: every stamp was the counter when it was given.\<close>

definition stamps_bounded :: "router_state \<Rightarrow> bool" where
  "stamps_bounded st \<longleftrightarrow> (\<forall>mid. last_seq_of st mid \<le> seq st)"

text \<open>
  The situation in which rotation is even: the strategy is round robin, ids are distinct, all
  members are admitted, the same members stay available throughout and the counter does not
  wrap.
\<close>

definition steady_pool :: "nat list \<Rightarrow> int list \<Rightarrow> pool_member list \<Rightarrow> router \<Rightarrow> bool" where
  "steady_pool av nows ms r \<longleftrightarrow>
     router_strategy r = StrictRoundRobin \<and> distinct (map pm_id ms) \<and>
     (\<forall>m \<in> set ms. admits (rstate r) (pm_id m)) \<and>
     (\<forall>now \<in> set nows. available_indices now ms = av) \<and>
     stamps_bounded (rstate r) \<and> seq (rstate r) + length nows \<le> u64_max"

lemma available_indices_iff:
  "i \<in> set (available_indices now ms) \<longleftrightarrow> i < length ms \<and> member_available now (ms ! i)"
  by (auto simp: available_indices_def)

lemma select_no_key:
  assumes "router_strategy r = StrictRoundRobin"
  shows "select now ms \<lparr>affinity_key = None\<rparr> r =
     (case round_robin_pick (rstate r) now ms of None \<Rightarrow> (None, r)
      | Some i \<Rightarrow> (Some i, r\<lparr>rstate := record_choice (pm_id (ms ! i)) None (rstate r)\<rparr>))"
  using assms by (simp add: select_def affinity_hit_def strategy_pick_def Let_def)

lemma last_seq_of_record:
  assumes "admits st mid" "seq st < u64_max"
  shows "last_seq_of (record_choice mid None st) mid' =
           (if mid' = mid then Suc (seq st) else last_seq_of st mid')"
    and "seq (record_choice mid None st) = Suc (seq st)"
    and "admits (record_choice mid None st) = admits st"
  using assms
  by (simp_all add: record_choice_def last_seq_of_def Let_def u64_wrapping_add_exact)

text \<open>One request of a steady pool: who is served, and the state afterwards.\<close>

lemma steady_step:
  assumes steady: "steady_pool av (now # nows) ms r" and av: "av \<noteq> []"
  obtains i r' where "select now ms \<lparr>affinity_key = None\<rparr> r = (Some i, r')"
    and "i \<in> set av" and "steady_pool av nows ms r'"
    and "\<And>j. j < length ms \<Longrightarrow> last_seq_of (rstate r') (pm_id (ms ! j)) =
           (if j = i then Suc (seq (rstate r)) else last_seq_of (rstate r) (pm_id (ms ! j)))"
    and "seq (rstate r') = Suc (seq (rstate r))"
    and "\<And>j. j \<in> set av \<Longrightarrow>
           last_seq_of (rstate r) (pm_id (ms ! i)) \<le> last_seq_of (rstate r) (pm_id (ms ! j))"
proof -
  let ?st = "rstate r"
  have avs: "available_indices now ms = av" and rr: "router_strategy r = StrictRoundRobin"
    and room: "seq ?st < u64_max" and dist: "distinct (map pm_id ms)"
    using steady by (auto simp: steady_pool_def)
  obtain i where pick: "round_robin_pick ?st now ms = Some i"
  proof (cases "round_robin_pick ?st now ms")
    case None
    then have "\<forall>m \<in> set ms. \<not> member_available now m" by (simp add: round_robin.pick_None_iff)
    then have "available_indices now ms = []" by (simp add: available_indices_def)
    with avs av show ?thesis by simp
  qed
  then have best: "rr_best ?st now ms i" by (simp add: round_robin_pick_spec)
  then have i: "i < length ms" "i \<in> set av"
    using avs by (auto simp: rr_best_def available_indices_iff)
  have adm: "admits ?st (pm_id (ms ! i))" using steady i(1) by (simp add: steady_pool_def)
  note rec = last_seq_of_record[OF adm room]
  define r' where "r' = r\<lparr>rstate := record_choice (pm_id (ms ! i)) None ?st\<rparr>"
  have idneq: "pm_id (ms ! j) = pm_id (ms ! i) \<longleftrightarrow> j = i" if "j < length ms" for j
    using dist i(1) that by (simp add: distinct_conv_nth) (metis nth_map)
  have "stamps_bounded (rstate r')"
    using steady by (auto simp: r'_def stamps_bounded_def steady_pool_def rec intro: le_SucI)
  then have "steady_pool av nows ms r'"
    using steady by (simp add: steady_pool_def r'_def rec)
  moreover have "select now ms \<lparr>affinity_key = None\<rparr> r = (Some i, r')"
    by (simp add: select_no_key[OF rr] pick r'_def)
  moreover have "last_seq_of ?st (pm_id (ms ! i)) \<le> last_seq_of ?st (pm_id (ms ! j))"
    if "j \<in> set av" for j
    using best that avs by (fastforce simp: rr_best_def available_indices_iff)
  ultimately show thesis
    using i(2) by (intro that[of i r']) (simp_all add: r'_def rec idneq)
qed

text \<open>
  Within one round nobody is served twice: members served since stamp \<open>t\<close> carry a stamp
  above \<open>t\<close>, the others one of at most \<open>t\<close>, and the least stamp is served next.
\<close>

lemma round_distinct:
  assumes "steady_pool av nows ms r" and "t \<le> seq (rstate r)"
    and "\<And>i. i \<in> set av \<Longrightarrow> (i \<in> S \<longleftrightarrow> t < last_seq_of (rstate r) (pm_id (ms ! i)))"
    and "length nows \<le> card (set av - S)" and "set av \<subseteq> {..<length ms}"
  shows "\<exists>js r'. select_seq nows ms r = (map Some js, r') \<and> steady_pool av [] ms r' \<and>
           length js = length nows \<and> distinct js \<and> set js \<subseteq> set av - S"
  using assms
proof (induction nows arbitrary: r S)
  case Nil
  then show ?case by (intro exI[of _ "[]"]) simp
next
  case (Cons now nows)
  have "set av - S \<noteq> {}" using Cons.prems(4) by (metis card.empty length_Cons not_less_eq_eq zero_le)
  then obtain j where j: "j \<in> set av" "j \<notin> S" by blast
  then have "av \<noteq> []" by auto
  from steady_step[OF Cons.prems(1) this] obtain i r' where
    sel: "select now ms \<lparr>affinity_key = None\<rparr> r = (Some i, r')" and i: "i \<in> set av"
    and steady: "steady_pool av nows ms r'"
    and stamp: "\<And>j. j < length ms \<Longrightarrow> last_seq_of (rstate r') (pm_id (ms ! j)) =
           (if j = i then Suc (seq (rstate r)) else last_seq_of (rstate r) (pm_id (ms ! j)))"
    and sq: "seq (rstate r') = Suc (seq (rstate r))"
    and least: "\<And>j. j \<in> set av \<Longrightarrow>
           last_seq_of (rstate r) (pm_id (ms ! i)) \<le> last_seq_of (rstate r) (pm_id (ms ! j))"
    by metis
  have "i \<notin> S" using least[OF j(1)] Cons.prems(3)[OF i] Cons.prems(3)[OF j(1)] j(2) by linarith
  have stamps: "x \<in> insert i S \<longleftrightarrow> t < last_seq_of (rstate r') (pm_id (ms ! x))"
    if "x \<in> set av" for x
  proof -
    have "x < length ms" using Cons.prems(5) that by auto
    then show ?thesis using stamp Cons.prems(2) Cons.prems(3)[OF that] by auto
  qed
  have "set av - insert i S = set av - S - {i}" by blast
  then have "card (set av - insert i S) = card (set av - S) - 1"
    using i \<open>i \<notin> S\<close> by (simp add: card_Diff_singleton)
  then have len: "length nows \<le> card (set av - insert i S)" using Cons.prems(4) by simp
  from Cons.IH[OF steady _ stamps len Cons.prems(5)] sq Cons.prems(2)
  obtain js r'' where "select_seq nows ms r' = (map Some js, r'')" "steady_pool av [] ms r''"
    "length js = length nows" "distinct js" "set js \<subseteq> set av - insert i S" by force
  with sel i \<open>i \<notin> S\<close> show ?case by (intro exI[of _ "i # js"] exI[of _ r'']) auto
qed

lemma steady_pool_mono:
  "steady_pool av (nows @ nows') ms r \<Longrightarrow> steady_pool av nows ms r"
  by (auto simp: steady_pool_def)

lemma steady_pool_extend:
  assumes "steady_pool av [] ms r'" "steady_pool av (nows @ nows') ms r"
    and "seq (rstate r') \<le> seq (rstate r) + length nows"
  shows "steady_pool av nows' ms r'"
  using assms by (auto simp: steady_pool_def)

lemma select_seq_append:
  "select_seq (xs @ ys) ms r =
     (let (ps, r') = select_seq xs ms r; (qs, r'') = select_seq ys ms r' in (ps @ qs, r''))"
  by (induction xs arbitrary: r) (auto simp: Let_def split: prod.splits)

lemma select_seq_le: "seq (rstate (snd (select now ms hint r))) \<le> Suc (seq (rstate r))"
proof -
  have "u64_wrapping_add n 1 \<le> Suc n" for n by (simp add: u64_wrapping_add_def)
  then show ?thesis
    by (auto simp: select_def refresh_binding_def record_choice_def Let_def split: option.splits)
qed

lemma seq_select_seq: "seq (rstate (snd (select_seq nows ms r))) \<le> seq (rstate r) + length nows"
proof (induction nows arbitrary: r)
  case (Cons now nows)
  let ?r = "snd (select now ms \<lparr>affinity_key = None\<rparr> r)"
  have "seq (rstate (snd (select_seq nows ms ?r))) \<le> seq (rstate ?r) + length nows"
    by (rule Cons.IH)
  with select_seq_le[of now ms "\<lparr>affinity_key = None\<rparr>" r] show ?case
    by (simp add: Let_def case_prod_beta)
qed simp

lemma round_serves_everyone_once:
  assumes steady: "steady_pool av nows ms r" and len: "length nows = length av" and ne: "av \<noteq> []"
  shows "\<exists>js r'. select_seq nows ms r = (map Some js, r') \<and> steady_pool av [] ms r' \<and>
           distinct js \<and> set js = set av"
proof -
  from len ne obtain now where "now \<in> set nows" by (cases nows) auto
  then have av: "available_indices now ms = av" using steady by (simp add: steady_pool_def)
  have d: "distinct av" and sub: "set av \<subseteq> {..<length ms}"
    using av by (auto simp: available_indices_def)
  have "\<not> seq (rstate r) < last_seq_of (rstate r) mid" for mid
    using steady by (simp add: steady_pool_def stamps_bounded_def not_less)
  then have "\<exists>js r'. select_seq nows ms r = (map Some js, r') \<and> steady_pool av [] ms r' \<and>
      length js = length nows \<and> distinct js \<and> set js \<subseteq> set av - {}"
    using len d by (intro round_distinct[OF steady order_refl _ _ sub]) (auto simp: distinct_card)
  then obtain js r' where js: "select_seq nows ms r = (map Some js, r')" "steady_pool av [] ms r'"
    "length js = length nows" "distinct js" "set js \<subseteq> set av" by auto
  then have "set js = set av"
    using len d by (intro card_subset_eq) (auto simp: distinct_card)
  with js show ?thesis by blast
qed

text \<open>
  C7. Strict round robin is perfectly even: as long as the same members stay available,
  any \<open>m\<close> rounds of requests serve every available member exactly \<open>m\<close> times and nobody else,
  from any starting state (whatever churn happened before).
\<close>

theorem round_robin_even:
  assumes "steady_pool av nows ms r" and "length nows = m * length av"
  shows "\<exists>picks r'. select_seq nows ms r = (map Some picks, r') \<and>
           (\<forall>i. count_list picks i = (if i \<in> set av then m else 0))"
  using assms
proof (induction m arbitrary: nows r)
  case 0
  then show ?case by (intro exI[of _ "[]"] exI[of _ r]) simp
next
  case (Suc m)
  show ?case
  proof (cases "av = []")
    case True
    with Suc.prems show ?thesis by (intro exI[of _ "[]"] exI[of _ r]) simp
  next
    case False
    define xs ys where "xs = take (length av) nows" and "ys = drop (length av) nows"
    have nows: "nows = xs @ ys" and xs: "length xs = length av" and ys: "length ys = m * length av"
      using Suc.prems(2) by (simp_all add: xs_def ys_def)
    from round_serves_everyone_once[OF steady_pool_mono xs False, of ys ms r] Suc.prems(1) nows
    obtain js r1 where js: "select_seq xs ms r = (map Some js, r1)" "steady_pool av [] ms r1"
      "distinct js" "set js = set av" by auto
    have "seq (rstate r1) \<le> seq (rstate r) + length xs"
      using seq_select_seq[of xs ms r] js(1) by simp
    then have "steady_pool av ys ms r1"
      using js(2) Suc.prems(1) nows by (blast intro: steady_pool_extend)
    from Suc.IH[OF this ys] obtain picks r2 where
      picks: "select_seq ys ms r1 = (map Some picks, r2)"
      "\<forall>i. count_list picks i = (if i \<in> set av then m else 0)" by blast
    have "count_list js i = (if i \<in> set av then 1 else 0)" for i
      using js(3,4) by (simp add: count_list_distinct)
    with js picks show ?thesis
      by (intro exI[of _ "js @ picks"] exI[of _ r2]) (simp add: nows select_seq_append)
  qed
qed

section \<open>Sessions\<close>

text \<open>
  A session keeps its account: when the member bound to a session key is still in the
  pool, admitted and available, \<open>select\<close> returns that member under either strategy, and the
  binding survives the request.
\<close>

theorem session_sticks_to_bound_member:
  assumes "bound_affinity_member k r = Some mid" and "admits (rstate r) mid"
    and "m \<in> set ms" and "pm_id m = mid" and "member_available now m"
  shows "\<exists>i r'. select now ms \<lparr>affinity_key = Some k\<rparr> r = (Some i, r') \<and> i < length ms \<and>
           pm_id (ms ! i) = mid \<and> bound_affinity_member k r' = Some mid"
  using assms by (rule select_bound)

lemma evict_idle_get:
  assumes "omap_ok aff"
  shows "omap_get (evict_idle s aff) k = omap_get aff k \<or>
         (\<exists>mid used. omap_get aff k = Some (mid, used) \<and> omap_get (evict_idle s aff) k = None \<and>
            used + AFFINITY_MAX_IDLE < s)"
proof (cases "omap_get aff k")
  case None
  then show ?thesis
    using omap_get_retain[OF omap_ok_distinct[OF assms]] by (simp add: evict_idle_def Let_def)
next
  case (Some e)
  obtain mid used where e: "e = (mid, used)" by (cases e)
  have "omap_get (omap_retain P aff) k = (if P k e then Some e else None)" for P
    using omap_get_retain[OF omap_ok_distinct[OF assms], of P k] Some by simp
  then show ?thesis
    using Some e by (auto simp: evict_idle_def Let_def u64_saturating_sub_def)
qed

text \<open>
  Scopes are independent: a selection for one session key never rebinds another key. The
  other binding stays exactly as it was, unless the table overflowed and the binding had been
  idle for more than \<open>AFFINITY_MAX_IDLE\<close> selections, in which case it is dropped; and no
  binding appears for a key that had none.
\<close>

theorem select_leaves_other_scopes:
  assumes "router_ok r" and "affinity_key hint \<noteq> Some k" and "select now ms hint r = (p, r')"
  shows "omap_get (affinity (rstate r')) k = omap_get (affinity (rstate r)) k \<or>
         (\<exists>mid used. omap_get (affinity (rstate r)) k = Some (mid, used) \<and>
            omap_get (affinity (rstate r')) k = None \<and>
            used + AFFINITY_MAX_IDLE < seq (rstate r'))"
proof (cases "affinity_hit (rstate r) ms now (affinity_key hint)")
  case (Some h)
  then obtain k' mid i where h: "h = (k', mid, i)" by (cases h) auto
  with Some have "affinity_key hint = Some k'"
    by (auto simp: affinity_hit_def split: option.splits if_splits)
  with assms Some h show ?thesis by (auto simp: select_def Let_def refresh_binding_def)
next
  case None
  have rec: "omap_get (affinity (record_choice mid (affinity_key hint) st)) k =
      omap_get (affinity st) k \<or>
      (\<exists>mid' used. omap_get (affinity st) k = Some (mid', used) \<and>
         omap_get (affinity (record_choice mid (affinity_key hint) st)) k = None \<and>
         used + AFFINITY_MAX_IDLE < seq (record_choice mid (affinity_key hint) st))"
    if "omap_ok (affinity st)" for mid st
    using evict_idle_get[OF omap_ok_insert[OF that], of "u64_wrapping_add (seq st) 1"
        "the (affinity_key hint)" "(mid, u64_wrapping_add (seq st) 1)" k] assms(2)
    by (cases "affinity_key hint") (auto simp: record_choice_def Let_def)
  have "omap_ok (affinity (rstate r))" using assms(1) by (simp add: router_ok_def router_state_ok_def)
  note rec = rec[OF this]
  show ?thesis
  proof (cases "strategy_pick (router_strategy r) (rstate r) now ms")
    case None
    with \<open>affinity_hit (rstate r) ms now (affinity_key hint) = None\<close> assms(3) show ?thesis
      by (simp add: select_def Let_def)
  next
    case (Some i)
    with None assms(3) have
      "r' = r\<lparr>rstate := record_choice (pm_id (ms ! i)) (affinity_key hint) (rstate r)\<rparr>"
      by (simp add: select_def Let_def)
    with rec[of "pm_id (ms ! i)"] show ?thesis by simp
  qed
qed

section \<open>The size of the affinity table\<close>

text \<open>While the counter does not wrap, every binding carries its own stamp.\<close>

definition stamps_distinct :: "router_state \<Rightarrow> bool" where
  "stamps_distinct st \<longleftrightarrow>
     inj_on (snd \<circ> snd) (set (affinity st)) \<and> (\<forall>e \<in> set (affinity st). snd (snd e) \<le> seq st)"

lemma stamps_distinct_insert:
  assumes "stamps_distinct st"
  shows "stamps_distinct
    (st\<lparr>seq := Suc (seq st), affinity := omap_insert k (mid, Suc (seq st)) (affinity st)\<rparr>)"
proof -
  let ?new = "(k, mid, Suc (seq st))"
  have sub: "set (omap_insert k (mid, Suc (seq st)) (affinity st)) \<subseteq> insert ?new (set (affinity st))"
    by (rule set_omap_insert_subset)
  have "inj_on (snd \<circ> snd) (insert ?new (set (affinity st)))"
    using assms unfolding stamps_distinct_def by (auto simp: inj_on_def)
  then have "inj_on (snd \<circ> snd) (set (omap_insert k (mid, Suc (seq st)) (affinity st)))"
    using sub by (rule inj_on_subset)
  moreover have "snd (snd e) \<le> Suc (seq st)"
    if "e \<in> set (omap_insert k (mid, Suc (seq st)) (affinity st))" for e
  proof -
    have "e = ?new \<or> e \<in> set (affinity st)" using sub that by blast
    with assms show ?thesis by (auto simp: stamps_distinct_def)
  qed
  ultimately show ?thesis by (simp add: stamps_distinct_def)
qed

lemma stamps_distinct_subset:
  assumes "stamps_distinct st" "set aff \<subseteq> set (affinity st)" "seq st \<le> s"
  shows "stamps_distinct (st\<lparr>seq := s, affinity := aff\<rparr>)"
  using assms by (auto simp: stamps_distinct_def dest: inj_on_subset intro: order_trans)

lemma stamps_distinct_last_served [simp]:
  "stamps_distinct (st\<lparr>last_served := l\<rparr>) = stamps_distinct st"
  by (simp add: stamps_distinct_def)

lemma evict_idle_subset: "set (evict_idle s aff) \<subseteq> set aff"
  by (auto simp: evict_idle_def Let_def omap_retain_def)

lemma evict_idle_length:
  assumes "inj_on (snd \<circ> snd) (set aff)" "\<forall>e \<in> set aff. snd (snd e) \<le> s" "omap_ok aff"
  shows "length (evict_idle s aff) \<le> AFFINITY_MAX_IDLE + 1"
proof (cases "length aff > AFFINITY_MAX_ENTRIES")
  case False
  then show ?thesis by (simp add: evict_idle_def AFFINITY_MAX_IDLE_def AFFINITY_MAX_ENTRIES_def)
next
  case True
  let ?kept = "evict_idle s aff"
  have "omap_ok ?kept" using assms(3) by (simp add: evict_idle_def Let_def)
  then have "distinct ?kept" by (metis distinct_map omap_ok_distinct)
  then have "length ?kept = card (set ?kept)" by (simp add: distinct_card)
  also have "\<dots> = card ((snd \<circ> snd) ` set ?kept)"
    using evict_idle_subset assms(1) by (metis card_image inj_on_subset)
  also have "\<dots> \<le> card {s - AFFINITY_MAX_IDLE..s}"
    using True assms(2)
    by (intro card_mono)
       (auto simp: evict_idle_def Let_def set_omap_retain u64_saturating_sub_def)
  also have "\<dots> \<le> AFFINITY_MAX_IDLE + 1" by simp
  finally show ?thesis .
qed

text \<open>The loop invariant of a run: \<open>n\<close> operations so far, \<open>f\<close> of them forced.\<close>

definition run_bounded :: "nat \<Rightarrow> nat \<Rightarrow> router \<Rightarrow> bool" where
  "run_bounded n f r \<longleftrightarrow> router_ok r \<and> seq (rstate r) \<le> n \<and> stamps_distinct (rstate r) \<and>
     length (affinity (rstate r)) \<le> AFFINITY_MAX_IDLE + 1 + f"

fun is_forced :: "router_op \<Rightarrow> bool" where
  "is_forced (OpForced _ _) = True"
| "is_forced _ = False"

lemma run_bounded_mono: "run_bounded n f r \<Longrightarrow> n \<le> n' \<Longrightarrow> f \<le> f' \<Longrightarrow> run_bounded n' f' r"
  by (auto simp: run_bounded_def)

lemma omap_get_length_insert:
  assumes "omap_ok m" "omap_get m k = Some v"
  shows "length (omap_insert k v' m) = length m"
  using assms by (simp add: length_omap_insert omap_contains_def)

lemma select_run_bounded:
  assumes inv: "run_bounded n f r" and n: "n < u64_max"
  shows "run_bounded (Suc n) f (snd (select now ms hint r))"
proof (cases "affinity_hit (rstate r) ms now (affinity_key hint)")
  case (Some h)
  let ?st = "rstate r"
  obtain k mid i where h: "h = (k, mid, i)" by (cases h) auto
  with Some obtain used where get: "omap_get (affinity ?st) k = Some (mid, used)"
    by (auto simp: affinity_hit_def split: option.splits if_splits)
  have ok: "router_ok (snd (select now ms hint r))" using inv by (simp add: run_bounded_def select_ok)
  have s: "u64_wrapping_add (seq ?st) (Suc 0) = Suc (seq ?st)"
    using inv n by (simp add: run_bounded_def u64_wrapping_add_exact)
  have "stamps_distinct (refresh_binding k mid ?st)"
    using stamps_distinct_insert[of ?st k mid] inv
    by (simp add: refresh_binding_def Let_def s run_bounded_def stamps_distinct_def)
  moreover have "omap_ok (affinity ?st)"
    using inv by (simp add: run_bounded_def router_ok_def router_state_ok_def)
  ultimately show ?thesis
    using ok inv Some h get
    by (simp add: run_bounded_def select_def Let_def refresh_binding_def s
        omap_get_length_insert del: map_of_eq_Some_iff)
next
  case None
  let ?st = "rstate r" and ?key = "affinity_key hint"
  have ok: "router_ok (snd (select now ms hint r))" using inv by (simp add: run_bounded_def select_ok)
  have s: "u64_wrapping_add (seq ?st) (Suc 0) = Suc (seq ?st)"
    using inv n by (simp add: run_bounded_def u64_wrapping_add_exact)
  have dist: "stamps_distinct ?st" and aff: "omap_ok (affinity ?st)"
    and len: "length (affinity ?st) \<le> AFFINITY_MAX_IDLE + 1 + f"
    using inv by (simp_all add: run_bounded_def router_ok_def router_state_ok_def)
  have rec: "stamps_distinct (record_choice mid ?key ?st) \<and>
      seq (record_choice mid ?key ?st) = Suc (seq ?st) \<and>
      length (affinity (record_choice mid ?key ?st)) \<le> AFFINITY_MAX_IDLE + 1 + f" for mid
  proof (cases "admits ?st mid \<and> ?key \<noteq> None")
    case True
    then obtain k where k: "?key = Some k" by blast
    let ?aff = "omap_insert k (mid, Suc (seq ?st)) (affinity ?st)"
    have ins: "stamps_distinct (?st\<lparr>seq := Suc (seq ?st), affinity := ?aff\<rparr>)"
      using dist by (rule stamps_distinct_insert)
    then have "length (evict_idle (Suc (seq ?st)) ?aff) \<le> AFFINITY_MAX_IDLE + 1"
      using aff by (intro evict_idle_length) (simp_all add: stamps_distinct_def)
    moreover have "stamps_distinct
        (?st\<lparr>seq := Suc (seq ?st), affinity := evict_idle (Suc (seq ?st)) ?aff\<rparr>)"
      using stamps_distinct_subset[OF ins, of "evict_idle (Suc (seq ?st)) ?aff" "Suc (seq ?st)"]
        evict_idle_subset by simp
    ultimately show ?thesis
      using True k by (simp add: record_choice_def Let_def s stamps_distinct_def)
  next
    case False
    have "stamps_distinct (?st\<lparr>seq := Suc (seq ?st)\<rparr>)"
      using stamps_distinct_subset[OF dist, of "affinity ?st" "Suc (seq ?st)"] by simp
    then show ?thesis
      using False len
      by (auto simp: record_choice_def Let_def s stamps_distinct_def split: option.splits)
  qed
  show ?thesis
  proof (cases "strategy_pick (router_strategy r) ?st now ms")
    case None
    with \<open>affinity_hit ?st ms now ?key = None\<close> inv show ?thesis
      by (auto simp: select_def Let_def intro: run_bounded_mono)
  next
    case (Some i)
    with None ok rec[of "pm_id (ms ! i)"] inv show ?thesis
      by (simp add: select_def Let_def run_bounded_def)
  qed
qed

lemma forced_run_bounded:
  assumes inv: "run_bounded n f r" and n: "n < u64_max"
  shows "run_bounded (Suc n) (Suc f) (select_forced mid key r)"
proof (cases "admits (rstate r) mid")
  case False
  with inv show ?thesis by (auto simp: select_forced_def Let_def intro: run_bounded_mono)
next
  case True
  let ?st = "rstate r"
  have s: "u64_wrapping_add (seq ?st) (Suc 0) = Suc (seq ?st)"
    using inv n by (simp add: run_bounded_def u64_wrapping_add_exact)
  have ok: "router_ok (select_forced mid key r)"
    using inv by (simp add: run_bounded_def select_forced_ok)
  have dist: "stamps_distinct ?st" and aff: "omap_ok (affinity ?st)"
    using inv by (simp_all add: run_bounded_def router_ok_def router_state_ok_def)
  show ?thesis
  proof (cases key)
    case None
    have "stamps_distinct (?st\<lparr>seq := Suc (seq ?st)\<rparr>)"
      using stamps_distinct_subset[OF dist, of "affinity ?st" "Suc (seq ?st)"] by simp
    with None True ok inv show ?thesis
      by (simp add: select_forced_def run_bounded_def Let_def s stamps_distinct_def)
  next
    case (Some k)
    have "length (omap_insert k (mid, Suc (seq ?st)) (affinity ?st)) \<le> Suc (length (affinity ?st))"
      using aff by (simp add: length_omap_insert)
    with Some True ok inv stamps_distinct_insert[OF dist, of k mid] show ?thesis
      by (simp add: select_forced_def run_bounded_def Let_def s stamps_distinct_def)
  qed
qed

lemma retain_run_bounded:
  assumes inv: "run_bounded n f r"
  shows "run_bounded n f (snd (retain_members a r))"
proof -
  let ?st = "rstate r" and ?P = "\<lambda>_ (mid, _). mid \<in> set a"
  have "stamps_distinct (?st\<lparr>seq := seq ?st, affinity := omap_retain ?P (affinity ?st)\<rparr>)"
    using inv by (intro stamps_distinct_subset) (auto simp: run_bounded_def omap_retain_def)
  moreover have "length (omap_retain ?P (affinity ?st)) \<le> length (affinity ?st)"
    by (simp add: omap_retain_def)
  moreover have "router_ok (snd (retain_members a r))"
    using inv by (simp add: run_bounded_def retain_members_ok)
  ultimately show ?thesis
    using inv by (simp add: run_bounded_def retain_members_def Let_def stamps_distinct_def)
qed

lemma step_run_bounded:
  assumes "run_bounded n f r" and "n < u64_max"
  shows "run_bounded (Suc n) (if is_forced c then Suc f else f) (router_step r c)"
proof (cases c)
  case (OpStrategy s)
  with assms show ?thesis
    by (simp add: run_bounded_def set_strategy_def router_ok_def)
qed (use assms in \<open>auto simp: select_run_bounded forced_run_bounded feedback_def
        intro: run_bounded_mono dest: retain_run_bounded\<close>)

lemma run_run_bounded:
  assumes "run_bounded n f r" and "n + length ops \<le> u64_max"
  shows "run_bounded (n + length ops) (f + length (filter is_forced ops)) (foldl router_step r ops)"
  using assms
proof (induction ops arbitrary: n f r)
  case (Cons c ops)
  from Cons.prems have "n < u64_max" by simp
  from Cons.IH[OF step_run_bounded[OF Cons.prems(1) this, of c]] Cons.prems(2) show ?case
    by (simp split: if_splits)
qed simp

text \<open>
  C8. The affinity table of a long-lived router is bounded: after any number of operations
  (short of wrapping the 64-bit counter) it holds at most one binding per stamp of the idle
  window, plus at most one per \<open>select_forced\<close>, which never evicts.
\<close>

theorem affinity_table_bounded:
  assumes "r = foldl router_step (router_new s) ops" and "length ops \<le> u64_max"
  shows "length (affinity (rstate r)) \<le>
           AFFINITY_MAX_IDLE + 1 + length (filter is_forced ops)"
proof -
  have "run_bounded 0 0 (router_new s)"
    using router_new_ok by (simp add: run_bounded_def router_new_def router_state_default_def
        stamps_distinct_def)
  from run_run_bounded[OF this, of ops] assms show ?thesis by (simp add: run_bounded_def)
qed

text \<open>
  The forced term cannot be dropped: \<open>select_forced\<close> alone grows the table without limit,
  since only the insertion of \<open>select\<close> runs the eviction.
\<close>

definition forced_ops :: "nat \<Rightarrow> router_op list" where
  "forced_ops n = map (\<lambda>i. OpForced ''a'' (Some (replicate i CHR ''k''))) [0..<n]"

lemma forced_ops_state:
  "active (rstate (foldl router_step (router_new s) (forced_ops n))) = None \<and>
   omap_ok (affinity (rstate (foldl router_step (router_new s) (forced_ops n)))) \<and>
   fst ` set (affinity (rstate (foldl router_step (router_new s) (forced_ops n)))) =
     (\<lambda>i. replicate i CHR ''k'') ` {..<n}"
  by (induction n)
     (auto simp: forced_ops_def router_new_def router_state_default_def select_forced_def
        Let_def admits_def lessThan_Suc)

lemma forced_bindings_unbounded:
  "length (affinity (rstate (foldl router_step (router_new s) (forced_ops n)))) = n"
proof -
  let ?aff = "affinity (rstate (foldl router_step (router_new s) (forced_ops n)))"
  have "length ?aff = card (fst ` set ?aff)"
    using forced_ops_state[of s n]
    by (metis distinct_card length_map list.set_map omap_ok_distinct)
  also have "\<dots> = card ((\<lambda>i. replicate i CHR ''k'') ` {..<n})"
    using forced_ops_state[of s n] by simp
  also have "\<dots> = n"
    by (subst card_image) (auto simp: inj_on_def dest: arg_cong[where f = length])
  finally show ?thesis .
qed

section \<open>Witnesses\<close>

definition pool_ab :: "pool_member list" where
  "pool_ab =
     [\<lparr>pm_id = ''a'', pm_health = Available, pm_reset_at_unix = None, pm_weight = 1\<rparr>,
      \<lparr>pm_id = ''b'', pm_health = Cooldown 4, pm_reset_at_unix = None, pm_weight = 1\<rparr>]"

definition ops_ab :: "router_op list" where
  "ops_ab = [OpSelect 5 pool_ab \<lparr>affinity_key = Some ''s''\<rparr>, OpRetain [''b''],
             OpSelect 5 pool_ab \<lparr>affinity_key = Some ''s''\<rparr>,
             OpForced ''b'' (Some ''t''), OpForced ''a'' (Some ''s'')]"

lemmas router_eval = ops_ab_def pool_ab_def router_new_def router_state_default_def select_def
  affinity_hit_def member_available_def strategy_pick_def router_strategy_def u8_to_strategy_def
  STRATEGY_FILL_FIRST_def STRATEGY_STRICT_ROUND_ROBIN_def round_robin_pick_def fill_first_pick_def
  last_seq_of_def record_choice_def refresh_binding_def evict_idle_def AFFINITY_MAX_ENTRIES_def
  admits_def u64_wrapping_add_def retain_members_def select_forced_def omap_retain_def tracked_members_def
  bound_affinity_member_def Let_def

theorem router_tracks_live_members_only_witness:
  "active (rstate (foldl router_step (router_new StrictRoundRobin) ops_ab)) = Some [''b''] \<and>
   tracked_members (foldl router_step (router_new StrictRoundRobin) ops_ab) = [''b''] \<and>
   set (tracked_members (foldl router_step (router_new StrictRoundRobin) ops_ab)) \<subseteq> {''b''}"
proof -
  have act: "active (rstate (foldl router_step (router_new StrictRoundRobin) ops_ab)) = Some [''b'']"
    by (simp add: router_eval)
  have "tracked_members (foldl router_step (router_new StrictRoundRobin) ops_ab) = [''b'']"
    by (simp add: router_eval)
  with act router_tracks_live_members_only[OF refl act] show ?thesis by simp
qed

theorem select_serves_available_member_witness:
  "fst (select 3 pool_ab \<lparr>affinity_key = None\<rparr> (router_new FillFirst)) = Some 0 \<and>
   member_available 3 (pool_ab ! 0) \<and>
   fst (select 3 (tl pool_ab) \<lparr>affinity_key = None\<rparr> (router_new FillFirst)) = None \<and>
   \<not> member_available 3 (pool_ab ! 1)"
proof -
  have one: "fst (select 3 pool_ab \<lparr>affinity_key = None\<rparr> (router_new FillFirst)) = Some 0"
    and none: "fst (select 3 (tl pool_ab) \<lparr>affinity_key = None\<rparr> (router_new FillFirst)) = None"
    by (simp_all add: router_eval)
  have mem: "pool_ab ! 1 \<in> set (tl pool_ab)" by (simp add: pool_ab_def)
  show ?thesis
    using one none mem
      select_serves_available_member[where now = 3 and ms = pool_ab and hint = "\<lparr>affinity_key = None\<rparr>" and r = "router_new FillFirst"]
      select_serves_available_member[where now = 3 and ms = "tl pool_ab" and hint = "\<lparr>affinity_key = None\<rparr>" and r = "router_new FillFirst"]
    by (auto split: prod.splits)
qed

lemma steady_pool_ab:
  "steady_pool [0, 1] [5, 5, 5, 5] pool_ab (router_new StrictRoundRobin)"
  by (simp add: steady_pool_def router_eval stamps_bounded_def available_indices_def u64_max_def)

theorem round_robin_even_witness:
  "\<exists>picks r'. select_seq [5, 5, 5, 5] pool_ab (router_new StrictRoundRobin) = (map Some picks, r') \<and>
     count_list picks 0 = 2 \<and> count_list picks 1 = 2 \<and> count_list picks 2 = 0"
  using round_robin_even[OF steady_pool_ab, of 2] by auto

theorem session_sticks_to_bound_member_witness:
  "\<exists>i r'. select 9 pool_ab \<lparr>affinity_key = Some ''s''\<rparr>
            (select_forced ''b'' (Some ''s'') (router_new FillFirst)) = (Some i, r') \<and>
          i < length pool_ab \<and> pm_id (pool_ab ! i) = ''b'' \<and> bound_affinity_member ''s'' r' = Some ''b''"
  by (rule session_sticks_to_bound_member[of _ _ _ "pool_ab ! 1"])
     (simp_all add: router_eval)

theorem select_leaves_other_scopes_witness:
  "omap_get (affinity (rstate (snd (select 9 pool_ab \<lparr>affinity_key = Some ''t''\<rparr>
      (select_forced ''b'' (Some ''s'') (router_new FillFirst)))))) ''s'' = Some (''b'', 1)"
proof -
  let ?r = "select_forced ''b'' (Some ''s'') (router_new FillFirst)"
  have ok: "router_ok ?r" by (intro select_forced_ok router_new_ok)
  have "affinity_key \<lparr>affinity_key = Some ''t''\<rparr> \<noteq> Some ''s''" by simp
  from select_leaves_other_scopes[OF ok this, of 9 pool_ab] show ?thesis
    by (auto simp: router_eval AFFINITY_MAX_IDLE_def)
qed

theorem affinity_table_bounded_witness:
  "length (affinity (rstate (foldl router_step (router_new FillFirst) ops_ab))) \<le> 10003"
  using affinity_table_bounded[OF refl, of ops_ab FillFirst]
  by (simp add: ops_ab_def AFFINITY_MAX_IDLE_def u64_max_def)

end
