(* ===== verification/Lcp.thy ===== *)
theory Lcp
  imports Prelude
begin

text \<open>
  Conversation trajectories, \<^verbatim>\<open>crates/router/src/lcp.rs\<close>: the matcher that recognises a
  conversation by the longest common prefix of its turns, inside one caller/provider/model
  namespace, with a bounded and expiring table. \<open>session_id\<close>, the fingerprint function the
  caller passes to \<open>resolve\<close>, is an argument.
\<close>

section \<open>State and operations\<close>

record prepared =
  turns :: "string list"
  tail :: "string list"
  environment :: string
  min_prefix :: nat

record bounds =
  max_turns :: nat
  max_groups :: nat
  max_prefixes :: nat
  ttl_ms :: int

definition bounds_default :: bounds where
  "bounds_default = \<lparr>max_turns = 1024, max_groups = 4096, max_prefixes = 262144, ttl_ms = 3600000\<rparr>"

record binding =
  session :: string
  parent :: "string option"
  member :: string

record lcp_group =
  namespace :: string
  g_prepared :: prepared
  g_binding :: binding
  expires :: int
  access :: nat

record matcher =
  groups :: "lcp_group list"
  last_access :: nat

definition matcher_default :: matcher where
  "matcher_default = \<lparr>groups = [], last_access = 0\<rparr>"

definition stored_prefixes :: "lcp_group list \<Rightarrow> nat" where
  "stored_prefixes gs = sum_list (map (\<lambda>g. length (turns (g_prepared g))) gs)"

definition over_bounds :: "bounds \<Rightarrow> lcp_group list \<Rightarrow> bool" where
  "over_bounds b gs \<longleftrightarrow> length gs > max_groups b \<or> stored_prefixes gs > max_prefixes b"

lemma min_access_in_range:
  "min_by_key (\<lambda>(i, g). access g) (enumerated gs) = Some (i, g) \<Longrightarrow> i < length gs \<and> gs ! i = g"
  by (drule min_by_key_Some) (simp add: enumerated_mem)

function evict_groups :: "bounds \<Rightarrow> lcp_group list \<Rightarrow> lcp_group list" where
  "evict_groups b gs =
     (if over_bounds b gs then
        (case min_by_key (\<lambda>(i, g). access g) (enumerated gs) of
           None \<Rightarrow> gs
         | Some (i, g) \<Rightarrow> evict_groups b (remove_nth i gs))
      else gs)"
  by pat_completeness auto
termination
  by (relation "measure (\<lambda>(b, gs). length gs)") (auto dest!: min_access_in_range)

declare evict_groups.simps [simp del]

definition common_prefix :: "string list \<Rightarrow> string list \<Rightarrow> nat" where
  "common_prefix xs ys = length (takeWhile (\<lambda>(a, b). a = b) (zip xs ys))"

definition deadline :: "bounds \<Rightarrow> int \<Rightarrow> int" where
  "deadline b now = i64_saturating_add now (max (ttl_ms b) 0)"

text \<open>The candidates for a prefix match, each with the length it shares.\<close>

definition prefix_matches :: "string \<Rightarrow> prepared \<Rightarrow> lcp_group list \<Rightarrow> (lcp_group \<times> nat) list" where
  "prefix_matches ns p gs =
     filter (\<lambda>(g, common). common \<ge> max (min_prefix p) (min_prefix (g_prepared g)))
       (map (\<lambda>g. (g, common_prefix (turns (g_prepared g)) (turns p)))
         (filter (\<lambda>g. namespace g = ns) gs))"

definition match_rank :: "lcp_group \<times> nat \<Rightarrow> nat \<times> nat \<times> nat" where
  "match_rank gc = (case gc of (g, common) \<Rightarrow> (common, length (turns (g_prepared g)), access g))"

fun touch_first :: "nat \<Rightarrow> int \<Rightarrow> lcp_group list \<Rightarrow> lcp_group list" where
  "touch_first a e [] = []"
| "touch_first a e (g # gs) = (if access g = a then g\<lparr>expires := e\<rparr> # gs else g # touch_first a e gs)"

text \<open>
  The overlap of the request's tail with a stored tail: the longest run of at least two turns
  that ends some prefix of the request's tail and the stored tail, starting no later than the
  request's minimum prefix and not covering both conversations from their first turn.
\<close>

definition tail_overlap :: "prepared \<Rightarrow> prepared \<Rightarrow> nat" where
  "tail_overlap p gp =
     fold (\<lambda>end overlap.
         let count = common_prefix (rev (take (end + 1) (tail p))) (rev (tail gp));
             candidate_start = (length (turns p) - length (tail p)) + end + 1 - count;
             parent_start = length (turns gp) - count
         in if count \<ge> 2 \<and> candidate_start \<le> min_prefix p \<and> (candidate_start > 0 \<or> parent_start > 0)
            then max overlap count else overlap)
       [1..<length (tail p)] 0"

fun compaction_candidates ::
  "prepared \<Rightarrow> lcp_group list \<Rightarrow> lcp_group list \<Rightarrow> nat \<Rightarrow> lcp_group list" where
  "compaction_candidates p [] candidates best_overlap = candidates"
| "compaction_candidates p (g # gs) candidates best_overlap =
     (let overlap = tail_overlap p (g_prepared g);
          (candidates', best') =
            (if overlap > best_overlap then ([], overlap) else (candidates, best_overlap));
          candidates'' = (if overlap \<ge> 2 \<and> overlap = best' then candidates' @ [g] else candidates')
      in compaction_candidates p gs candidates'' best')"

definition cold :: "(string list \<Rightarrow> string option \<Rightarrow> string) \<Rightarrow> prepared \<Rightarrow> binding" where
  "cold session_id p =
     \<lparr>session = session_id (take (min_prefix p) (turns p)) None, parent = None, member = []\<rparr>"

definition resolve ::
  "string \<Rightarrow> prepared \<Rightarrow> bounds \<Rightarrow> int \<Rightarrow> (string list \<Rightarrow> string option \<Rightarrow> string) \<Rightarrow>
   matcher \<Rightarrow> binding option \<times> matcher" where
  "resolve ns p b now session_id m =
     (let live = filter (\<lambda>g. now < expires g) (groups m);
          gs = evict_groups b live;
          m1 = m\<lparr>groups := gs\<rparr>
      in
      if min_prefix p = 0 \<or> length (turns p) < min_prefix p \<or> length (turns p) > max_turns b \<or>
         length (turns p) > max_prefixes b
      then (None, m1)
      else
        case max_by_key match_rank (prefix_matches ns p gs) of
          Some (g, common) \<Rightarrow>
            let m2 = m1\<lparr>groups := touch_first (access g) (deadline b now) gs\<rparr> in
            if common < length (turns (g_prepared g)) \<and> common < length (turns p) then
              (Some \<lparr>session = session_id (take (common + 1) (turns p)) None,
                     parent = Some (session_id (take common (turns p)) None),
                     member = member (g_binding g)\<rparr>, m2)
            else (Some (g_binding g), m2)
        | None \<Rightarrow>
            let candidates = compaction_candidates p
                  (filter (\<lambda>g. namespace g = ns \<and> environment (g_prepared g) = environment p) gs) [] 0
            in
            if length candidates > 16 then (Some (cold session_id p), m1)
            else if card (set (map (\<lambda>g. session (g_binding g)) candidates)) = 1 then
              let g = candidates ! 0 in
              (Some \<lparr>session = session_id (turns p) (Some (session (g_binding g))),
                     parent = Some (session (g_binding g)),
                     member = member (g_binding g)\<rparr>, m1)
            else (Some (cold session_id p), m1))"

definition bind_refused :: "prepared \<Rightarrow> bounds \<Rightarrow> bool" where
  "bind_refused p b \<longleftrightarrow>
     min_prefix p = 0 \<or> length (turns p) > max_turns b \<or> length (turns p) > max_prefixes b"

text \<open>The groups a new binding leaves in place, and the group it pushes.\<close>

definition surviving :: "string \<Rightarrow> prepared \<Rightarrow> int \<Rightarrow> lcp_group list \<Rightarrow> lcp_group list" where
  "surviving ns p now gs =
     filter (\<lambda>g. now < expires g \<and> \<not> (namespace g = ns \<and> turns (g_prepared g) = turns p)) gs"

definition new_group ::
  "string \<Rightarrow> prepared \<Rightarrow> binding \<Rightarrow> bounds \<Rightarrow> int \<Rightarrow> nat \<Rightarrow> lcp_group" where
  "new_group ns p bnd b now a =
     \<lparr>namespace = ns, g_prepared = p, g_binding = bnd, expires = deadline b now, access = a\<rparr>"

definition bind :: "string \<Rightarrow> prepared \<Rightarrow> binding \<Rightarrow> bounds \<Rightarrow> int \<Rightarrow> matcher \<Rightarrow> matcher" where
  "bind ns p bnd b now m =
     (if bind_refused p b then m
      else
        let kept = surviving ns p now (groups m);
            a = u64_wrapping_add (last_access m) 1
        in m\<lparr>groups := evict_groups b (kept @ [new_group ns p bnd b now a]), last_access := a\<rparr>)"

definition lcp_retain_members :: "string oset \<Rightarrow> matcher \<Rightarrow> matcher" where
  "lcp_retain_members act m =
     m\<lparr>groups := filter (\<lambda>g. member (g_binding g) \<in> set act) (groups m)\<rparr>"

section \<open>Eviction\<close>

lemma over_bounds_Nil [simp]: "\<not> over_bounds b []"
  by (simp add: over_bounds_def stored_prefixes_def)

lemma evict_groups_step:
  assumes "over_bounds b gs"
  obtains i where "i < length gs" and "\<forall>g \<in> set gs. access (gs ! i) \<le> access g"
    and "evict_groups b gs = evict_groups b (remove_nth i gs)"
proof -
  have "enumerated gs \<noteq> []" using assms by (cases gs) (auto simp: enumerated_def)
  then obtain i g where min: "min_by_key (\<lambda>(i, g). access g) (enumerated gs) = Some (i, g)"
    by (metis min_by_key_None not_None_eq surj_pair)
  then have ig: "i < length gs" "gs ! i = g" by (auto dest: min_access_in_range)
  have "access (gs ! i) \<le> access h" if h: "h \<in> set gs" for h
  proof -
    from h obtain j where "j < length gs" "gs ! j = h" by (auto simp: in_set_conv_nth)
    then have "(j, h) \<in> set (enumerated gs)" by (simp add: enumerated_mem)
    with min_by_key_Some[OF min] ig(2) show ?thesis by auto
  qed
  moreover have "evict_groups b gs = evict_groups b (remove_nth i gs)"
    using assms min by (subst evict_groups.simps) simp
  ultimately show thesis using that ig by blast
qed

lemma evict_groups_id: "\<not> over_bounds b gs \<Longrightarrow> evict_groups b gs = gs"
  by (subst evict_groups.simps) simp

text \<open>The rule for the eviction loop: a relation between its input and its result.\<close>

lemma evict_groups_rule:
  assumes base: "\<And>gs. \<not> over_bounds b gs \<Longrightarrow> Q gs gs"
    and step: "\<And>gs i es. over_bounds b gs \<Longrightarrow> i < length gs \<Longrightarrow>
        \<forall>g \<in> set gs. access (gs ! i) \<le> access g \<Longrightarrow> Q (remove_nth i gs) es \<Longrightarrow> Q gs es"
  shows "Q gs (evict_groups b gs)"
proof (induction gs rule: length_induct)
  case (1 gs)
  show ?case
  proof (cases "over_bounds b gs")
    case True
    then obtain i where i: "i < length gs" "\<forall>g \<in> set gs. access (gs ! i) \<le> access g"
      "evict_groups b gs = evict_groups b (remove_nth i gs)"
      by (rule evict_groups_step)
    have "length (remove_nth i gs) < length gs" using i(1) by simp
    with 1 have "Q (remove_nth i gs) (evict_groups b (remove_nth i gs))" by blast
    with step[OF True i(1,2)] i(3) show ?thesis by simp
  qed (simp add: base evict_groups_id)
qed

lemma evict_groups_within: "\<not> over_bounds b (evict_groups b gs)"
  by (rule evict_groups_rule[where Q = "\<lambda>_ es. \<not> over_bounds b es"])

lemma evict_groups_subset: "set (evict_groups b gs) \<subseteq> set gs"
  by (rule evict_groups_rule[where Q = "\<lambda>gs es. set es \<subseteq> set gs"])
     (use set_remove_nth_subset in fast)+

lemma remove_nth_split: "i < length xs \<Longrightarrow> xs = take i xs @ xs ! i # drop (Suc i) xs"
  by (simp add: id_take_nth_drop)

lemma distinct_remove_nth: "distinct (map f xs) \<Longrightarrow> distinct (map f (remove_nth i xs))"
proof (cases "i < length xs")
  case True
  assume "distinct (map f xs)"
  then have "distinct (map f (take i xs @ xs ! i # drop (Suc i) xs))"
    using remove_nth_split[OF True] by metis
  then show ?thesis by (auto simp: remove_nth_def)
qed (simp add: remove_nth_def)

lemma evict_groups_distinct: "distinct (map f gs) \<Longrightarrow> distinct (map f (evict_groups b gs))"
  by (rule evict_groups_rule[where Q = "\<lambda>gs es. distinct (map f gs) \<longrightarrow> distinct (map f es)",
        THEN mp]) (auto simp: distinct_remove_nth)

text \<open>Eviction drops the least recently bound groups.\<close>

lemma evict_groups_oldest:
  "\<forall>g \<in> set gs - set (evict_groups b gs). \<forall>h \<in> set (evict_groups b gs). access g \<le> access h"
proof (rule evict_groups_rule[where
      Q = "\<lambda>gs es. set es \<subseteq> set gs \<and> (\<forall>g \<in> set gs - set es. \<forall>h \<in> set es. access g \<le> access h)",
      THEN conjunct2])
  fix gs i es
  assume i: "i < length gs" and least: "\<forall>g \<in> set gs. access (gs ! i) \<le> access g"
    and IH: "set es \<subseteq> set (remove_nth i gs) \<and>
      (\<forall>g \<in> set (remove_nth i gs) - set es. \<forall>h \<in> set es. access g \<le> access h)"
  have "set gs = insert (gs ! i) (set (remove_nth i gs))"
    using arg_cong[OF remove_nth_split[OF i], of set] by (simp add: remove_nth_def)
  with IH least show "set es \<subseteq> set gs \<and> (\<forall>g \<in> set gs - set es. \<forall>h \<in> set es. access g \<le> access h)"
    by auto
qed simp

text \<open>The newest group survives whenever it fits on its own.\<close>

lemma evict_groups_keeps_newest:
  assumes "\<forall>g \<in> set pre. access g < access n" and "\<not> over_bounds b [n]"
  shows "\<exists>pre'. evict_groups b (pre @ [n]) = pre' @ [n] \<and> set pre' \<subseteq> set pre"
proof -
  let ?Q = "\<lambda>gs es. \<forall>pre. gs = pre @ [n] \<and> (\<forall>g \<in> set pre. access g < access n) \<longrightarrow>
              (\<exists>pre'. es = pre' @ [n] \<and> set pre' \<subseteq> set pre)"
  have "?Q (pre @ [n]) (evict_groups b (pre @ [n]))"
  proof (rule evict_groups_rule[where Q = ?Q])
    fix gs i es
    assume over: "over_bounds b gs" and i: "i < length gs"
      and least: "\<forall>g \<in> set gs. access (gs ! i) \<le> access g" and IH: "?Q (remove_nth i gs) es"
    show "?Q gs es"
    proof (intro allI impI)
      fix pre assume gs: "gs = pre @ [n] \<and> (\<forall>g \<in> set pre. access g < access n)"
      have "pre \<noteq> []" using over assms(2) gs by auto
      then obtain h where h: "h \<in> set pre" by (cases pre) auto
      have "i \<noteq> length pre"
      proof
        assume "i = length pre"
        with least h gs have "access n \<le> access h" by auto
        with gs h show False by auto
      qed
      with i gs have i': "i < length pre" by simp
      have "remove_nth i gs = remove_nth i pre @ [n]" using gs i' by (simp add: remove_nth_def)
      moreover have "\<forall>g \<in> set (remove_nth i pre). access g < access n"
        using gs set_remove_nth_subset by fast
      ultimately obtain pre' where "es = pre' @ [n]" "set pre' \<subseteq> set (remove_nth i pre)"
        using IH by blast
      then show "\<exists>pre'. es = pre' @ [n] \<and> set pre' \<subseteq> set pre" using set_remove_nth_subset by fast
    qed
  qed simp
  with assms(1) show ?thesis by blast
qed

section \<open>The table stays within its bounds\<close>

abbreviation trajectory :: "lcp_group \<Rightarrow> string \<times> string list" where
  "trajectory g \<equiv> (namespace g, turns (g_prepared g))"

definition matcher_ok :: "bounds \<Rightarrow> matcher \<Rightarrow> bool" where
  "matcher_ok b m \<longleftrightarrow> \<not> over_bounds b (groups m) \<and> distinct (map trajectory (groups m))"

lemma stored_prefixes_filter: "stored_prefixes (filter P gs) \<le> stored_prefixes gs"
  by (induction gs) (auto simp: stored_prefixes_def)

lemma within_filter: "\<not> over_bounds b gs \<Longrightarrow> \<not> over_bounds b (filter P gs)"
  using stored_prefixes_filter[of P gs] length_filter_le[of P gs]
  unfolding over_bounds_def by linarith

lemma distinct_map_filter_list: "distinct (map f xs) \<Longrightarrow> distinct (map f (filter P xs))"
  by (induction xs) auto

lemma touch_first_map:
  "(\<And>g. f (g\<lparr>expires := e\<rparr>) = f g) \<Longrightarrow> map f (touch_first a e gs) = map f gs"
  by (induction gs) auto

lemma touch_first_ok:
  "matcher_ok b (m\<lparr>groups := gs\<rparr>) \<Longrightarrow> matcher_ok b (m\<lparr>groups := touch_first a e gs\<rparr>)"
proof -
  have "stored_prefixes (touch_first a e gs) = stored_prefixes gs"
    unfolding stored_prefixes_def by (subst touch_first_map) simp_all
  moreover have "map trajectory (touch_first a e gs) = map trajectory gs"
    by (rule touch_first_map) simp
  moreover have "length (touch_first a e gs) = length gs" by (induction gs) auto
  ultimately show "matcher_ok b (m\<lparr>groups := gs\<rparr>) \<Longrightarrow> ?thesis"
    by (simp add: matcher_ok_def over_bounds_def)
qed

lemma resolve_ok: "matcher_ok b m \<Longrightarrow> matcher_ok b (snd (resolve ns p b now sid m))"
proof -
  assume "matcher_ok b m"
  then have "matcher_ok b (m\<lparr>groups := evict_groups b (filter (\<lambda>g. now < expires g) (groups m))\<rparr>)"
    by (simp add: matcher_ok_def evict_groups_within evict_groups_distinct distinct_map_filter_list)
  then show ?thesis
    by (auto simp: resolve_def Let_def split: option.splits intro: touch_first_ok)
qed

lemma bind_ok: "matcher_ok b m \<Longrightarrow> matcher_ok b (bind ns p bnd b now m)"
proof (cases "bind_refused p b")
  case False
  assume "matcher_ok b m"
  then have "distinct (map trajectory (surviving ns p now (groups m) @ [new_group ns p bnd b now a]))"
    for a by (auto simp: surviving_def new_group_def matcher_ok_def distinct_map_filter_list)
  then show ?thesis
    using False
    by (simp add: bind_def matcher_ok_def evict_groups_within evict_groups_distinct Let_def
        del: map_append)
qed (simp add: bind_def)

lemma lcp_retain_members_ok: "matcher_ok b m \<Longrightarrow> matcher_ok b (lcp_retain_members act m)"
  by (simp add: lcp_retain_members_def matcher_ok_def within_filter distinct_map_filter_list)

datatype lcp_op =
    LcpResolve string prepared int "string list \<Rightarrow> string option \<Rightarrow> string"
  | LcpBind string prepared binding int
  | LcpRetain "string oset"

fun lcp_step :: "bounds \<Rightarrow> matcher \<Rightarrow> lcp_op \<Rightarrow> matcher" where
  "lcp_step b m (LcpResolve ns p now sid) = snd (resolve ns p b now sid m)"
| "lcp_step b m (LcpBind ns p bnd now) = bind ns p bnd b now m"
| "lcp_step b m (LcpRetain act) = lcp_retain_members act m"

interpretation lcp_machine: invariant_machine matcher_default "lcp_step b" "matcher_ok b"
proof unfold_locales
  fix m c
  show "matcher_ok b m \<Longrightarrow> matcher_ok b (lcp_step b m c)"
    by (cases c) (simp_all add: resolve_ok bind_ok lcp_retain_members_ok)
qed (simp add: matcher_ok_def matcher_default_def)

text \<open>
  C23. The trajectory table is bounded: whatever requests are resolved, bound and retired, it
  never holds more than \<open>max_groups\<close> conversations or \<open>max_prefixes\<close> stored turns, and never
  two entries for the same conversation of one namespace.
\<close>

theorem lcp_table_bounded:
  "length (groups (foldl (lcp_step b) matcher_default ops)) \<le> max_groups b \<and>
   stored_prefixes (groups (foldl (lcp_step b) matcher_default ops)) \<le> max_prefixes b \<and>
   distinct (map trajectory (groups (foldl (lcp_step b) matcher_default ops)))"
  using lcp_machine.inv_reachable[of b ops] by (auto simp: matcher_ok_def over_bounds_def)

section \<open>Isolation\<close>

lemma prefix_matches_mem:
  "(g, c) \<in> set (prefix_matches ns p gs) \<longleftrightarrow>
     g \<in> set gs \<and> namespace g = ns \<and> c = common_prefix (turns (g_prepared g)) (turns p) \<and>
     max (min_prefix p) (min_prefix (g_prepared g)) \<le> c"
  by (auto simp: prefix_matches_def)

definition best_tail_overlap :: "prepared \<Rightarrow> lcp_group list \<Rightarrow> nat" where
  "best_tail_overlap p gs = foldr max (map (\<lambda>g. tail_overlap p (g_prepared g)) gs) 0"

lemma best_tail_overlap_snoc:
  "best_tail_overlap p (gs @ [g]) = max (best_tail_overlap p gs) (tail_overlap p (g_prepared g))"
  by (induction gs) (simp_all add: best_tail_overlap_def)

lemma best_tail_overlap_ge: "g \<in> set gs \<Longrightarrow> tail_overlap p (g_prepared g) \<le> best_tail_overlap p gs"
  by (induction gs) (auto simp: best_tail_overlap_def)

definition longest_tails :: "prepared \<Rightarrow> lcp_group list \<Rightarrow> lcp_group list" where
  "longest_tails p gs =
     filter (\<lambda>g. 2 \<le> tail_overlap p (g_prepared g) \<and>
                 tail_overlap p (g_prepared g) = best_tail_overlap p gs) gs"

lemma longest_tails_snoc_less:
  assumes "best_tail_overlap p gs < tail_overlap p (g_prepared g)"
  shows "longest_tails p (gs @ [g]) = (if 2 \<le> tail_overlap p (g_prepared g) then [g] else [])"
proof -
  have "tail_overlap p (g_prepared h) \<noteq> tail_overlap p (g_prepared g)" if "h \<in> set gs" for h
    using best_tail_overlap_ge[OF that, of p] assms by simp
  with assms show ?thesis by (simp add: longest_tails_def best_tail_overlap_snoc)
qed

text \<open>
  The single pass over the groups computes the reference definition: the groups whose tail
  overlap is the best one and at least two turns.
\<close>

lemma compaction_candidates_spec:
  "compaction_candidates p gs (longest_tails p pre) (best_tail_overlap p pre) =
     longest_tails p (pre @ gs)"
proof (induction gs arbitrary: pre)
  case (Cons g gs)
  let ?o = "tail_overlap p (g_prepared g)"
  have "compaction_candidates p (g # gs) (longest_tails p pre) (best_tail_overlap p pre) =
        compaction_candidates p gs (longest_tails p (pre @ [g])) (best_tail_overlap p (pre @ [g]))"
  proof (cases "best_tail_overlap p pre < ?o")
    case True
    then show ?thesis
      by (simp add: longest_tails_snoc_less best_tail_overlap_snoc Let_def max_def)
  next
    case False
    then have "best_tail_overlap p (pre @ [g]) = best_tail_overlap p pre"
      by (simp add: best_tail_overlap_snoc max_def)
    with False show ?thesis by (simp add: longest_tails_def Let_def)
  qed
  with Cons.IH[of "pre @ [g]"] show ?case by simp
qed simp

lemma compaction_candidates_eq: "compaction_candidates p gs [] 0 = longest_tails p gs"
  using compaction_candidates_spec[of p gs "[]"] by (simp add: longest_tails_def best_tail_overlap_def)

lemma singleton_sessions:
  "card (set (map f xs)) = 1 \<Longrightarrow> xs \<noteq> [] \<and> (\<forall>x \<in> set xs. f x = f (xs ! 0))"
  by (cases xs) (auto simp: card_1_singleton_iff)

lemma longest_tails_subset: "set (longest_tails p gs) \<subseteq> set gs"
  by (auto simp: longest_tails_def)

lemma resolve_member_origin:
  assumes "resolve ns p b now sid m = (Some bnd, m')"
  shows "member bnd = [] \<or>
    (\<exists>g \<in> set (groups m). namespace g = ns \<and> now < expires g \<and> member bnd = member (g_binding g))"
proof -
  let ?gs = "evict_groups b (filter (\<lambda>g. now < expires g) (groups m))"
  let ?env = "filter (\<lambda>g. namespace g = ns \<and> environment (g_prepared g) = environment p) ?gs"
  have gs: "g \<in> set (groups m) \<and> now < expires g" if "g \<in> set ?gs" for g
    using evict_groups_subset that by force
  show ?thesis
  proof (cases "max_by_key match_rank (prefix_matches ns p ?gs)")
    case (Some gc)
    obtain g c where gc: "gc = (g, c)" by (cases gc)
    with Some have "(g, c) \<in> set (prefix_matches ns p ?gs)" by (auto dest: max_by_key_Some)
    then have "g \<in> set ?gs" "namespace g = ns" by (simp_all add: prefix_matches_mem)
    moreover have "member bnd = member (g_binding g)"
      using assms Some gc by (auto simp: resolve_def Let_def split: if_splits)
    ultimately show ?thesis using gs by blast
  next
    case None
    let ?cs = "longest_tails p ?env"
    have cand: "namespace g = ns \<and> g \<in> set ?gs" if "g \<in> set ?cs" for g
      using longest_tails_subset that by fastforce
    show ?thesis
    proof (cases "bnd = cold sid p")
      case True
      then show ?thesis by (simp add: cold_def)
    next
      case False
      then have one: "card (set (map (\<lambda>g. session (g_binding g)) ?cs)) = 1"
        and mem: "member bnd = member (g_binding (?cs ! 0))"
        using assms None
        by (auto simp: resolve_def Let_def compaction_candidates_eq split: if_splits)
      from singleton_sessions[OF one] have "?cs ! 0 \<in> set ?cs" by simp
      with cand gs mem show ?thesis by blast
    qed
  qed
qed

text \<open>
  C24. Namespaces are isolated and expired trajectories are dead: an account that \<open>resolve\<close>
  proposes was bound by an unexpired trajectory of the same caller/provider/model namespace.
  After \<open>lcp_retain_members\<close> it is moreover one of the accounts that were kept.
\<close>

theorem resolve_inherits_within_namespace:
  assumes "resolve ns p b now sid (lcp_retain_members act m) = (Some bnd, m')"
    and "member bnd \<noteq> []"
  shows "member bnd \<in> set act \<and>
    (\<exists>g \<in> set (groups m). namespace g = ns \<and> now < expires g \<and> member bnd = member (g_binding g))"
  using resolve_member_origin[OF assms(1)] assms(2) by (auto simp: lcp_retain_members_def)

section \<open>A bound conversation resumes\<close>

lemma common_prefix_extension: "common_prefix xs (xs @ ys) = length xs"
  by (induction xs) (simp_all add: common_prefix_def)

lemma max_by_key_unique:
  assumes "x \<in> set xs" and "\<And>y. y \<in> set xs \<Longrightarrow> y \<noteq> x \<Longrightarrow> f y < f x"
  shows "max_by_key f xs = Some x"
proof -
  have "xs \<noteq> []" using assms(1) by auto
  then obtain y where y: "max_by_key f xs = Some y" by (metis max_by_key_None not_None_eq)
  from max_by_key_Some[OF y] assms have "y = x" by (metis leD)
  with y show ?thesis by simp
qed

text \<open>
  The matcher numbers its groups: no stored group is newer than the last number given. The
  invariant holds while the counter does not wrap.
\<close>

definition accesses_bounded :: "matcher \<Rightarrow> bool" where
  "accesses_bounded m \<longleftrightarrow> (\<forall>g \<in> set (groups m). access g \<le> last_access m)"

lemma accesses_bounded_subset:
  "accesses_bounded m \<Longrightarrow> set gs \<subseteq> set (groups m) \<Longrightarrow> accesses_bounded (m\<lparr>groups := gs\<rparr>)"
  by (auto simp: accesses_bounded_def)

lemma accesses_bounded_touch:
  "accesses_bounded (m\<lparr>groups := gs\<rparr>) \<Longrightarrow> accesses_bounded (m\<lparr>groups := touch_first a e gs\<rparr>)"
proof -
  have "map access (touch_first a e gs) = map access gs" by (rule touch_first_map) simp
  then have "access ` set (touch_first a e gs) = access ` set gs" by (metis list.set_map)
  then show "accesses_bounded (m\<lparr>groups := gs\<rparr>) \<Longrightarrow> ?thesis"
    by (simp add: accesses_bounded_def) (metis image_iff)
qed

lemma accesses_bounded_step:
  assumes "accesses_bounded m" "last_access m < u64_max"
  shows "accesses_bounded (lcp_step b m c)"
proof (cases c)
  case (LcpResolve ns p now sid)
  have "accesses_bounded (m\<lparr>groups := evict_groups b (filter (\<lambda>g. now < expires g) (groups m))\<rparr>)"
    using assms(1) evict_groups_subset by (intro accesses_bounded_subset) fastforce+
  with LcpResolve show ?thesis
    by (auto simp: resolve_def Let_def split: option.splits intro: accesses_bounded_touch)
next
  case (LcpBind ns p bnd now)
  have "access g \<le> Suc (last_access m)"
    if "g \<in> set (evict_groups b (surviving ns p now (groups m) @
          [new_group ns p bnd b now (Suc (last_access m))]))" for g
    using subsetD[OF evict_groups_subset that] assms(1)
    by (auto simp: surviving_def new_group_def accesses_bounded_def le_SucI)
  with LcpBind assms show ?thesis
    by (auto simp: bind_def Let_def accesses_bounded_def u64_wrapping_add_exact)
qed (use assms in \<open>auto simp: lcp_retain_members_def accesses_bounded_def\<close>)

lemma bind_keeps_new_group:
  assumes ok: "\<not> bind_refused p b" "1 \<le> max_groups b"
    and acc: "accesses_bounded m" "last_access m < u64_max"
  obtains pre where "groups (bind ns p bnd b now m) =
      pre @ [new_group ns p bnd b now (Suc (last_access m))]"
    and "set pre \<subseteq> set (surviving ns p now (groups m))"
proof -
  let ?new = "new_group ns p bnd b now (Suc (last_access m))"
  have "\<forall>g \<in> set (surviving ns p now (groups m)). access g < access ?new"
    using acc(1) by (auto simp: surviving_def new_group_def accesses_bounded_def less_Suc_eq_le)
  moreover have "\<not> over_bounds b [?new]"
    using ok by (simp add: over_bounds_def stored_prefixes_def new_group_def bind_refused_def)
  ultimately obtain pre where "evict_groups b (surviving ns p now (groups m) @ [?new]) = pre @ [?new]"
    "set pre \<subseteq> set (surviving ns p now (groups m))"
    using evict_groups_keeps_newest by blast
  with that ok acc show thesis by (simp add: bind_def Let_def u64_wrapping_add_exact)
qed

text \<open>
  A conversation resumes its own binding: after \<open>bind\<close>, a request that repeats or extends
  the same turns in the same namespace before the deadline resolves to exactly that binding
  (session, parent and account), provided no other trajectory of the namespace shares as many
  turns with the request.
\<close>

theorem bound_conversation_resumes:
  assumes accepted: "\<not> bind_refused p b" and room: "1 \<le> max_groups b"
    and acc: "accesses_bounded m" "last_access m < u64_max"
    and request: "turns p' = turns p @ added" "0 < min_prefix p'" "min_prefix p' \<le> length (turns p)"
      "min_prefix p \<le> length (turns p)"
      "length (turns p') \<le> max_turns b" "length (turns p') \<le> max_prefixes b"
    and time: "now' < deadline b now"
    and longest: "\<And>g. g \<in> set (groups m) \<Longrightarrow> namespace g = ns \<Longrightarrow>
      turns (g_prepared g) \<noteq> turns p \<Longrightarrow>
      common_prefix (turns (g_prepared g)) (turns p') < length (turns p)"
  shows "fst (resolve ns p' b now' sid (bind ns p bnd b now m)) = Some bnd"
proof -
  let ?m = "bind ns p bnd b now m"
  let ?new = "new_group ns p bnd b now (Suc (last_access m))"
  from bind_keeps_new_group[OF accepted room acc] obtain pre where
    gs: "groups ?m = pre @ [?new]" and pre: "set pre \<subseteq> set (surviving ns p now (groups m))" .
  let ?live = "filter (\<lambda>g. now' < expires g) (groups ?m)"
  have "\<not> over_bounds b (groups ?m)"
    using accepted by (simp add: bind_def Let_def evict_groups_within)
  then have evict: "evict_groups b ?live = ?live"
    by (intro evict_groups_id within_filter)
  let ?ms = "prefix_matches ns p' ?live"
  have "?new \<in> set ?live" using gs time by (simp add: new_group_def)
  then have new: "(?new, length (turns p)) \<in> set ?ms"
    using request by (simp add: prefix_matches_mem new_group_def common_prefix_extension)
  have others: "match_rank gc < match_rank (?new, length (turns p))"
    if gc: "gc \<in> set ?ms" "gc \<noteq> (?new, length (turns p))" for gc
  proof -
    obtain g c where g: "gc = (g, c)" by (cases gc)
    with gc have mem: "g \<in> set (groups ?m)" "namespace g = ns"
      "c = common_prefix (turns (g_prepared g)) (turns p')"
      by (auto simp: prefix_matches_mem)
    have "g \<noteq> ?new" using gc g mem request(1) by (auto simp: new_group_def common_prefix_extension)
    with mem gs have "g \<in> set pre" by auto
    with pre mem(2) have "g \<in> set (groups m)" "turns (g_prepared g) \<noteq> turns p"
      by (auto simp: surviving_def)
    with longest mem have "c < length (turns p)" by simp
    then show ?thesis using g by (simp add: match_rank_def)
  qed
  have "max_by_key match_rank ?ms = Some (?new, length (turns p))"
    using new others by (rule max_by_key_unique)
  moreover have "turns (g_prepared ?new) = turns p" "g_binding ?new = bnd"
    by (simp_all add: new_group_def)
  ultimately show ?thesis
    using request evict by (simp add: resolve_def Let_def)
qed

section \<open>Witnesses\<close>

definition chat :: "string list \<Rightarrow> prepared" where
  "chat ts = \<lparr>turns = ts, tail = ts, environment = ''system'', min_prefix = 2\<rparr>"

definition chat_id :: "string list \<Rightarrow> string option \<Rightarrow> string" where
  "chat_id ts par = (case par of None \<Rightarrow> concat ts | Some q \<Rightarrow> q @ ''/'' @ concat ts)"

definition chat_binding :: binding where
  "chat_binding = \<lparr>session = ''su'', parent = None, member = ''second''\<rparr>"

theorem bound_conversation_resumes_witness:
  "fst (resolve ''scope'' (chat [''s'', ''u'', ''a'', ''next'']) bounds_default 1 chat_id
     (bind ''scope'' (chat [''s'', ''u'', ''a'']) chat_binding bounds_default 0 matcher_default)) =
   Some chat_binding"
  by (rule bound_conversation_resumes[where added = "[''next'']"])
     (simp_all add: bind_refused_def chat_def bounds_default_def accesses_bounded_def
        matcher_default_def u64_max_def deadline_def i64_saturating_add_def i64_saturate_def
        i64_min_def i64_max_def)

lemma chat_resolve:
  "resolve ''scope'' (chat [''s'', ''u'', ''b'']) bounds_default 1 chat_id
     (lcp_retain_members [''second''] \<lparr>groups = [new_group ''scope'' (chat [''s'', ''u'', ''a''])
        chat_binding bounds_default 0 1], last_access = 1\<rparr>) =
   (Some \<lparr>session = ''sub'', parent = Some ''su'', member = ''second''\<rparr>,
    \<lparr>groups = [new_group ''scope'' (chat [''s'', ''u'', ''a'']) chat_binding bounds_default 1 1],
     last_access = 1\<rparr>)"
  by (simp add: resolve_def Let_def lcp_retain_members_def new_group_def chat_def chat_id_def
      chat_binding_def bounds_default_def deadline_def i64_saturating_add_def i64_saturate_def
      i64_min_def i64_max_def evict_groups_id over_bounds_def stored_prefixes_def
      prefix_matches_def common_prefix_def match_rank_def)

theorem resolve_inherits_within_namespace_witness:
  "''second'' \<in> set [''second''] \<and>
   (\<exists>g \<in> set (groups \<lparr>groups = [new_group ''scope'' (chat [''s'', ''u'', ''a'']) chat_binding
        bounds_default 0 1], last_access = 1\<rparr>).
      namespace g = ''scope'' \<and> 1 < expires g \<and> ''second'' = member (g_binding g))"
  using resolve_inherits_within_namespace[OF chat_resolve] by simp

end
