(* ===== verification/Usage.thy ===== *)
theory Usage
  imports Types Complex_Main "HOL-Library.Log_Nat"
begin

text \<open>
  What the schedulers read of an account: \<open>QuotaWindow\<close> of
  \<^verbatim>\<open>crates/gateway/src/usage.rs\<close> and the accessors of \<open>AccountMember\<close> in
  \<^verbatim>\<open>crates/gateway/src/account.rs\<close>. Usage percentages are \<open>f64\<close> values: a finite value is
  the rational number it denotes, and a subtraction is the exact difference rounded to the
  nearest 53-bit significand, ties to even, as IEEE 754 prescribes. The only subtraction in the
  modelled code is \<open>100.0 - used\<close>, whose result neither overflows nor is subnormal, so the
  exponent range needs no bound here. The sign of a zero is not observable.
\<close>

section \<open>Floating-point percentages\<close>

datatype f64 = Fin rat | PosInf | NegInf | NaN

definition f64_exponent :: "rat \<Rightarrow> int" where
  "f64_exponent x =
     (let (p, q) = quotient_of \<bar>x\<bar>; e = bitlen p - bitlen q
      in if 2 powi e \<le> \<bar>x\<bar> then e else e - 1)"

definition round_half_even :: "rat \<Rightarrow> int" where
  "round_half_even y =
     (let f = \<lfloor>y\<rfloor>; r = y - of_int f
      in if r < 1 / 2 then f else if 1 / 2 < r then f + 1 else if even f then f else f + 1)"

definition f64_nearest :: "rat \<Rightarrow> rat" where
  "f64_nearest x =
     (if x = 0 then 0
      else let u = 2 powi (f64_exponent x - 52) in of_int (round_half_even (x / u)) * u)"

text \<open>\<open>c - x\<close> for a finite constant \<open>c\<close>\<close>

fun f64_sub_from :: "rat \<Rightarrow> f64 \<Rightarrow> f64" where
  "f64_sub_from c (Fin r) = Fin (f64_nearest (c - r))"
| "f64_sub_from c PosInf = NegInf"
| "f64_sub_from c NegInf = PosInf"
| "f64_sub_from c NaN = NaN"

text \<open>\<open>f64::clamp\<close> keeps \<open>NaN\<close>.\<close>

fun f64_clamp :: "rat \<Rightarrow> rat \<Rightarrow> f64 \<Rightarrow> f64" where
  "f64_clamp lo hi (Fin r) = Fin (max lo (min hi r))"
| "f64_clamp lo hi PosInf = Fin hi"
| "f64_clamp lo hi NegInf = Fin lo"
| "f64_clamp lo hi NaN = NaN"

text \<open>\<open>f64::round\<close>: halves away from zero.\<close>

fun f64_round :: "f64 \<Rightarrow> f64" where
  "f64_round (Fin r) = Fin (of_int (if 0 \<le> r then \<lfloor>r + 1 / 2\<rfloor> else \<lceil>r - 1 / 2\<rceil>))"
| "f64_round x = x"

text \<open>The cast \<open>as u8\<close> truncates, saturates, and sends \<open>NaN\<close> to 0.\<close>

fun f64_as_u8 :: "f64 \<Rightarrow> nat" where
  "f64_as_u8 (Fin r) = min u8_max (nat \<lfloor>r\<rfloor>)"
| "f64_as_u8 PosInf = u8_max"
| "f64_as_u8 NegInf = 0"
| "f64_as_u8 NaN = 0"

fun f64_less :: "f64 \<Rightarrow> rat \<Rightarrow> bool" where
  "f64_less (Fin r) c = (r < c)"
| "f64_less PosInf c = False"
| "f64_less NegInf c = True"
| "f64_less NaN c = False"

section \<open>Windows and members\<close>

record quota_window =
  used_percent :: "f64 option"
  window_minutes :: "int option"
  reset_after_seconds :: "int option"
  qw_reset_at_unix :: "int option"
  limit_name :: "string option"

definition quota_window_default :: quota_window where
  "quota_window_default =
     \<lparr>used_percent = None, window_minutes = None, reset_after_seconds = None,
      qw_reset_at_unix = None, limit_name = None\<rparr>"

definition quota_window_is_empty :: "quota_window \<Rightarrow> bool" where
  "quota_window_is_empty w \<longleftrightarrow>
     used_percent w = None \<and> window_minutes w = None \<and> reset_after_seconds w = None \<and>
     qw_reset_at_unix w = None"

datatype provider_kind =
    Codex | Antigravity | Claude | Cursor | Kiro | Zcode | Vertex | Devin | OpenCode | Generic

text \<open>
  An \<open>AccountMember\<close> as the schedulers see it: its id, kind, relay key, health and the two
  windows of \<open>usage_snapshot()\<close>.
\<close>

record account_member =
  am_id :: string
  am_kind :: provider_kind
  relay_api_key :: "string option"
  am_health :: health
  am_primary :: quota_window
  am_secondary :: quota_window

text \<open>The account as a routing-pool member (\<open>impl PoolMember for AccountMember\<close>).\<close>

definition pool_member_of :: "account_member \<Rightarrow> pool_member" where
  "pool_member_of m =
     \<lparr>pm_id = am_id m, pm_health = am_health m,
      pm_reset_at_unix =
        (case am_health m of
           Cooldown until \<Rightarrow> Some (if 0 \<le> until then until div 1000 else - ((- until) div 1000))
         | _ \<Rightarrow> None),
      pm_weight = 1\<rparr>"

section \<open>Percentages left\<close>

text \<open>\<open>(100.0 - used).clamp(0.0, 100.0).round() as u8\<close>\<close>

definition left_percent :: "f64 \<Rightarrow> nat" where
  "left_percent used = f64_as_u8 (f64_round (f64_clamp 0 100 (f64_sub_from 100 used)))"

lemma f64_as_u8_round_clamp:
  "f64_as_u8 (f64_round (f64_clamp 0 100 x)) \<le> 100"
proof (cases x)
  case (Fin r)
  let ?c = "max 0 (min 100 r)"
  have "\<lfloor>?c + 1 / 2\<rfloor> \<le> 100" by (simp add: floor_le_iff)
  then have "nat \<lfloor>?c + 1 / 2\<rfloor> \<le> 100" by linarith
  moreover have "f64_as_u8 (f64_round (f64_clamp 0 100 x)) = min u8_max (nat \<lfloor>?c + 1 / 2\<rfloor>)"
    using Fin by simp
  ultimately show ?thesis by linarith
next
  case PosInf
  have "\<lfloor>201 / 2 :: rat\<rfloor> = 100" by (simp add: floor_eq_iff)
  with PosInf show ?thesis by simp
qed (simp_all add: u8_max_def)

lemma left_percent_le [simp]: "left_percent used \<le> 100"
  unfolding left_percent_def by (rule f64_as_u8_round_clamp)

text \<open>Rounding is exact on what a significand can hold; integers up to 100 are.\<close>

lemma round_half_even_of_int [simp]: "round_half_even (of_int i) = i"
  by (simp add: round_half_even_def)

lemma left_percent_NaN: "left_percent NaN = 0"
  by (simp add: left_percent_def)

end
