(* ===== verification/Scheduler.thy ===== *)
theory Scheduler
  imports Usage
begin

text \<open>
  The account scheduler: the pure choice of \<^verbatim>\<open>crates/gateway/src/scheduler/algorithm.rs\<close> and
  the registry around it in \<^verbatim>\<open>crates/gateway/src/scheduler/mod.rs\<close>. The registry's cells
  (\<open>settings\<close>, \<open>snapshot\<close>, \<open>runtime\<close>, the generation counters and the reservation table)
  and the two sidecar files are the fields of one record. A file holds the value that was
  serialised into it; \<open>persist_json\<close> writes a temporary file and renames it, so it either
  replaces the whole value or leaves it. A background write is an entry of \<open>pending\<close> that a
  later step (\<open>run_pending\<close>) executes, in any order. Whether an I/O operation succeeds, the clock
  and whether an async runtime is available are the inputs in \<open>sched_env\<close>.
\<close>

section \<open>Choosing a candidate\<close>

definition EXHAUSTION_ENTER_PERCENT :: nat where "EXHAUSTION_ENTER_PERCENT = 3"
definition EXHAUSTION_RECOVER_PERCENT :: nat where "EXHAUSTION_RECOVER_PERCENT = 5"
definition MINIMUM_HOLD_SECS :: int where "MINIMUM_HOLD_SECS = 10 * 60"
definition SWITCH_MARGIN_SECS :: int where "SWITCH_MARGIN_SECS = 15 * 60"

datatype window_activity = WindowActive | WindowIdle

record candidate =
  cd_key :: string
  manually_disabled :: bool
  manual_priority :: "nat option"
  cd_remaining :: "nat option"
  cd_reset :: "int option"
  cd_activity :: window_activity
  cd_exhausted_since :: "int option"

definition eligible :: "candidate \<Rightarrow> bool" where
  "eligible c =
     (if manually_disabled c then False
      else (case cd_remaining c of None \<Rightarrow> False
            | Some remaining \<Rightarrow>
                if remaining \<le> EXHAUSTION_ENTER_PERCENT then False
                else if cd_exhausted_since c \<noteq> None \<and> remaining \<le> EXHAUSTION_RECOVER_PERCENT
                then False else True))"

definition window_tier :: "candidate \<Rightarrow> nat" where
  "window_tier c = (case cd_activity c of WindowActive \<Rightarrow> 0 | WindowIdle \<Rightarrow> 1)"

definition live_reset :: "int \<Rightarrow> candidate \<Rightarrow> int" where
  "live_reset now c = (case cd_reset c of None \<Rightarrow> i64_max | Some r \<Rightarrow> if now < r then r else i64_max)"

definition rank_key :: "int \<Rightarrow> candidate \<Rightarrow> nat \<times> int \<times> string" where
  "rank_key now c = (window_tier c, live_reset now c, cd_key c)"

definition incumbent_key :: "candidate \<Rightarrow> nat \<times> string" where
  "incumbent_key c = (case manual_priority c of None \<Rightarrow> u32_max | Some p \<Rightarrow> p, cd_key c)"

definition reset_or_max :: "candidate \<Rightarrow> int" where
  "reset_or_max c = (case cd_reset c of None \<Rightarrow> i64_max | Some r \<Rightarrow> r)"

definition prioritised :: "candidate list \<Rightarrow> candidate list" where
  "prioritised cs =
     (if list_ex (\<lambda>c. manual_priority c \<noteq> None) cs
      then filter (\<lambda>c. manual_priority c \<noteq> None) cs else cs)"

definition ranked_candidates :: "candidate list \<Rightarrow> int \<Rightarrow> candidate list" where
  "ranked_candidates cs now = sort_key (rank_key now) (prioritised (filter eligible cs))"

definition select_candidate :: "candidate list \<Rightarrow> int \<Rightarrow> candidate option" where
  "select_candidate cs now =
     (case ranked_candidates cs now of
        [] \<Rightarrow> None
      | best # others \<Rightarrow>
          (case min_by_key incumbent_key (best # others) of
             None \<Rightarrow> Some best
           | Some incumbent \<Rightarrow>
               if manual_priority incumbent < manual_priority best \<and>
                  reset_or_max incumbent \<le> i64_saturating_add (reset_or_max best) SWITCH_MARGIN_SECS
               then Some incumbent else Some best))"

section \<open>The registry's state\<close>

record scheduler_settings =
  sc_enabled :: bool
  priorities :: "(string, nat) omap"

definition scheduler_settings_default :: scheduler_settings where
  "scheduler_settings_default = \<lparr>sc_enabled = False, priorities = []\<rparr>"

record persisted_state =
  version :: nat
  ps_selected :: "string option"
  exhausted_since_unix :: "(string, int) omap"
  non_auth_failures :: "(string, nat) omap"

definition persisted_state_default :: persisted_state where
  "persisted_state_default =
     \<lparr>version = 0, ps_selected = None, exhausted_since_unix = [], non_auth_failures = []\<rparr>"

record account_schedule_status =
  st_id :: string
  st_selected :: bool
  parked :: bool
  st_priority :: "nat option"
  st_remaining_percent :: "nat option"
  st_reset_at_unix :: "int option"
  consecutive_non_auth_failures :: nat

record scheduler_snapshot =
  sn_enabled :: bool
  sn_selected :: "string option"
  sn_order :: "string list"
  fail_open :: bool
  sn_reason :: string
  sn_accounts :: "account_schedule_status list"
  allowed :: "string oset"

definition scheduler_snapshot_default :: scheduler_snapshot where
  "scheduler_snapshot_default =
     \<lparr>sn_enabled = False, sn_selected = None, sn_order = [], fail_open = True,
      sn_reason = ''disabled'', sn_accounts = [], allowed = []\<rparr>"

record reservation_state =
  rs_active :: "string oset option"
  rs_reservations :: "(string, string) omap"

record scheduler_registry =
  sr_settings :: scheduler_settings
  sr_snapshot :: scheduler_snapshot
  sr_runtime :: persisted_state
  settings_file :: "scheduler_settings option"
  state_file :: "persisted_state option"
  state_generation :: nat
  persisted_generation :: nat
  state_parse_failed :: bool
  sr_reservations :: reservation_state
  pending :: "(nat \<times> persisted_state) list"

record sched_env =
  env_now :: int
  env_async :: bool
  env_io :: bool

section \<open>Reservations\<close>

definition permits :: "scheduler_registry \<Rightarrow> string \<Rightarrow> bool" where
  "permits sr account =
     (if account \<in> set (omap_values (rs_reservations (sr_reservations sr))) then False
      else fail_open (sr_snapshot sr) \<or> account \<in> set (allowed (sr_snapshot sr)))"

definition reserve ::
  "string \<Rightarrow> string \<Rightarrow> scheduler_registry \<Rightarrow> (string + unit) \<times> scheduler_registry" where
  "reserve instance_id account_id sr =
     (let st = sr_reservations sr in
      if (case rs_active st of None \<Rightarrow> False | Some a \<Rightarrow> account_id \<notin> set a)
      then (Inl (''account '' @ account_id @ '' is not active''), sr)
      else if list_ex (\<lambda>(i, account). i \<noteq> instance_id \<and> account = account_id) (rs_reservations st)
      then (Inl (''account '' @ account_id @ '' is already reserved''), sr)
      else (Inr (), sr\<lparr>sr_reservations :=
              st\<lparr>rs_reservations := omap_insert instance_id account_id (rs_reservations st)\<rparr>\<rparr>))"

definition release :: "string \<Rightarrow> scheduler_registry \<Rightarrow> bool \<times> scheduler_registry" where
  "release instance_id sr =
     (let st = sr_reservations sr in
      (omap_contains (rs_reservations st) instance_id,
       sr\<lparr>sr_reservations := st\<lparr>rs_reservations := omap_remove instance_id (rs_reservations st)\<rparr>\<rparr>))"

definition retain_accounts ::
  "string oset \<Rightarrow> scheduler_registry \<Rightarrow> string list \<times> scheduler_registry" where
  "retain_accounts act sr =
     (let st = sr_reservations sr in
      (map fst (filter (\<lambda>(_, account). account \<notin> set act) (rs_reservations st)),
       sr\<lparr>sr_reservations :=
          st\<lparr>rs_active := Some act,
             rs_reservations := omap_retain (\<lambda>_ account. account \<in> set act) (rs_reservations st)\<rparr>\<rparr>))"

section \<open>Sidecar files\<close>

text \<open>
  \<open>load_json\<close>: \<open>Inl True\<close> is a missing file, \<open>Inl False\<close> any other read error; \<open>parse\<close> is the
  JSON parser.
\<close>

definition load_json :: "('b \<Rightarrow> 'a option) \<Rightarrow> bool + 'b \<Rightarrow> 'a option \<times> bool" where
  "load_json parse file =
     (case file of
        Inr raw \<Rightarrow> (case parse raw of Some v \<Rightarrow> (Some v, False) | None \<Rightarrow> (None, True))
      | Inl not_found \<Rightarrow> if not_found then (None, False) else (None, True))"

definition persist_generation ::
  "bool \<Rightarrow> nat \<times> persisted_state \<Rightarrow> scheduler_registry \<Rightarrow> scheduler_registry" where
  "persist_generation io_ok job sr =
     (let (generation, st) = job in
      if generation \<le> persisted_generation sr then sr
      else if io_ok then sr\<lparr>state_file := Some st, persisted_generation := generation\<rparr>
      else sr)"

definition persist_json_background ::
  "sched_env \<Rightarrow> nat \<times> persisted_state \<Rightarrow> scheduler_registry \<Rightarrow> scheduler_registry" where
  "persist_json_background env job sr =
     (if env_async env then sr\<lparr>pending := pending sr @ [job]\<rparr>
      else persist_generation (env_io env) job sr)"

text \<open>The blocking pool runs one of the queued writes.\<close>

definition run_pending :: "bool \<Rightarrow> nat \<Rightarrow> scheduler_registry \<Rightarrow> scheduler_registry" where
  "run_pending io_ok i sr =
     (if i < length (pending sr)
      then persist_generation io_ok (pending sr ! i) (sr\<lparr>pending := remove_nth i (pending sr)\<rparr>)
      else sr)"

section \<open>Reconciliation\<close>

definition consider_window ::
  "nat option \<times> int option \<Rightarrow> quota_window \<Rightarrow> nat option \<times> int option" where
  "consider_window acc w =
     (case used_percent w of None \<Rightarrow> acc
      | Some used \<Rightarrow>
          let left = left_percent used in
          if (case fst acc of None \<Rightarrow> True | Some best \<Rightarrow> left < best)
          then (Some left, qw_reset_at_unix w) else acc)"

definition tightest_window :: "account_member \<Rightarrow> nat option \<times> int option" where
  "tightest_window m = foldl consider_window (None, None) [am_primary m, am_secondary m]"

definition update_exhaustion ::
  "int \<Rightarrow> string \<Rightarrow> nat option \<Rightarrow> (string, int) omap \<Rightarrow> (string, int) omap" where
  "update_exhaustion now mid remaining ex =
     (case remaining of None \<Rightarrow> ex
      | Some v \<Rightarrow>
          if v \<le> EXHAUSTION_ENTER_PERCENT
          then (if omap_contains ex mid then ex else omap_insert mid now ex)
          else if v > EXHAUSTION_RECOVER_PERCENT
          then (if (case omap_get ex mid of None \<Rightarrow> True
                    | Some since \<Rightarrow> i64_saturating_sub now since \<ge> MINIMUM_HOLD_SECS)
                then omap_remove mid ex else ex)
          else ex)"

record fact =
  fa_id :: string
  fa_remaining :: "nat option"
  fa_reset :: "int option"
  fa_health :: health
  fa_exhausted_since :: "int option"
  fa_failures :: nat

fun collect_facts ::
  "int \<Rightarrow> (string, nat) omap \<Rightarrow> account_member list \<Rightarrow> (string, int) omap \<Rightarrow>
   fact list \<times> (string, int) omap" where
  "collect_facts now failures [] ex = ([], ex)"
| "collect_facts now failures (m # ms) ex =
     (let (remaining, reset) = tightest_window m;
          ex' = update_exhaustion now (am_id m) remaining ex;
          f = \<lparr>fa_id = am_id m, fa_remaining = remaining, fa_reset = reset, fa_health = am_health m,
               fa_exhausted_since = omap_get ex' (am_id m),
               fa_failures = (case omap_get failures (am_id m) of None \<Rightarrow> 0 | Some n \<Rightarrow> n)\<rparr>;
          (fs, ex'') = collect_facts now failures ms ex'
      in (f # fs, ex''))"

definition fact_disabled :: "int \<Rightarrow> fact \<Rightarrow> bool" where
  "fact_disabled now f \<longleftrightarrow>
     \<not> is_available (fa_health f) (i64_mul now 1000) \<or> fa_failures f \<ge> 3 \<or>
     (case fa_exhausted_since f of None \<Rightarrow> False
      | Some since \<Rightarrow> i64_saturating_sub now since < MINIMUM_HOLD_SECS)"

definition candidate_of ::
  "scheduler_settings \<Rightarrow> string option \<Rightarrow> int \<Rightarrow> fact \<Rightarrow> candidate" where
  "candidate_of settings selected now f =
     \<lparr>cd_key = fa_id f,
      manually_disabled = fact_disabled now f,
      manual_priority =
        (if priorities settings \<noteq> [] then omap_get (priorities settings) (fa_id f)
         else if selected = Some (fa_id f) then Some 0
         else if selected \<noteq> None then Some 1 else None),
      cd_remaining = fa_remaining f,
      cd_reset = fa_reset f,
      cd_activity =
        (case fa_reset f of None \<Rightarrow> WindowIdle
         | Some v \<Rightarrow> if now < v then WindowActive else WindowIdle),
      cd_exhausted_since = fa_exhausted_since f\<rparr>"

definition order_key :: "candidate list \<Rightarrow> string \<Rightarrow> nat \<times> int \<times> string" where
  "order_key cs i =
     (case find (\<lambda>c. cd_key c = i) cs of
        Some c \<Rightarrow> (case manual_priority c of None \<Rightarrow> u32_max | Some p \<Rightarrow> p, reset_or_max c, i)
      | None \<Rightarrow> (u32_max, i64_max, i))"

definition order_ids :: "candidate list \<Rightarrow> string list" where
  "order_ids cs =
     sort_key (order_key cs)
       (map cd_key (filter (\<lambda>c. \<not> manually_disabled c \<and> cd_remaining c \<noteq> None) cs))"

definition selected_first :: "string option \<Rightarrow> string list \<Rightarrow> string list" where
  "selected_first selected order =
     (case selected of None \<Rightarrow> order
      | Some s \<Rightarrow>
          s # (case position (\<lambda>i. i = s) order of None \<Rightarrow> order | Some p \<Rightarrow> remove_nth p order))"

definition account_status ::
  "scheduler_settings \<Rightarrow> string option \<Rightarrow> fact \<Rightarrow> account_schedule_status" where
  "account_status settings selected f =
     \<lparr>st_id = fa_id f, st_selected = (selected = Some (fa_id f)),
      parked = (selected \<noteq> None \<and> selected \<noteq> Some (fa_id f)),
      st_priority = omap_get (priorities settings) (fa_id f),
      st_remaining_percent = fa_remaining f, st_reset_at_unix = fa_reset f,
      consecutive_non_auth_failures = fa_failures f\<rparr>"

definition drop_unknown :: "string list \<Rightarrow> persisted_state \<Rightarrow> persisted_state" where
  "drop_unknown ids rt =
     rt\<lparr>exhausted_since_unix := omap_retain (\<lambda>i _. i \<in> set ids) (exhausted_since_unix rt),
        non_auth_failures := omap_retain (\<lambda>i _. i \<in> set ids) (non_auth_failures rt),
        ps_selected :=
          (case ps_selected rt of None \<Rightarrow> None | Some i \<Rightarrow> if i \<in> set ids then Some i else None)\<rparr>"

definition reconcile_facts ::
  "int \<Rightarrow> account_member list \<Rightarrow> persisted_state \<Rightarrow> fact list \<times> persisted_state" where
  "reconcile_facts now members rt =
     (let rt1 = drop_unknown (map am_id members) rt;
          (facts, ex) = collect_facts now (non_auth_failures rt1) members (exhausted_since_unix rt1)
      in (facts, rt1\<lparr>exhausted_since_unix := ex\<rparr>))"

definition reconcile_snapshot ::
  "scheduler_settings \<Rightarrow> candidate list \<Rightarrow> string option \<Rightarrow> fact list \<Rightarrow> scheduler_snapshot" where
  "reconcile_snapshot settings candidates selected facts =
     \<lparr>sn_enabled = True, sn_selected = selected,
      sn_order = selected_first selected (order_ids candidates),
      fail_open = (selected = None),
      sn_reason = (if selected = None then ''no-eligible-target'' else ''scheduled''),
      sn_accounts = map (account_status settings selected) facts,
      allowed = (case selected of None \<Rightarrow> [] | Some s \<Rightarrow> [s])\<rparr>"

definition reconcile :: "sched_env \<Rightarrow> account_member list \<Rightarrow> scheduler_registry \<Rightarrow> scheduler_registry" where
  "reconcile env members sr =
     (let settings = sr_settings sr in
      if \<not> sc_enabled settings then sr\<lparr>sr_snapshot := scheduler_snapshot_default\<rparr>
      else if state_parse_failed sr then
        sr\<lparr>sr_snapshot := scheduler_snapshot_default\<lparr>sn_enabled := True,
                                                       sn_reason := ''state-parse-failure''\<rparr>\<rparr>
      else
        let now = env_now env;
            (facts, rt) = reconcile_facts now members (sr_runtime sr);
            candidates = map (candidate_of settings (ps_selected rt) now) facts;
            selected = map_option cd_key (select_candidate candidates now);
            rt' = rt\<lparr>ps_selected := selected\<rparr>;
            sr' = sr\<lparr>sr_runtime := rt',
                     sr_snapshot := reconcile_snapshot settings candidates selected facts\<rparr>
        in if rt' \<noteq> sr_runtime sr then
             let generation = u64_wrapping_add (state_generation sr) 1
             in persist_json_background env (generation, rt') (sr'\<lparr>state_generation := generation\<rparr>)
           else sr')"

definition scheduler_load ::
  "sched_env \<Rightarrow> ('b \<Rightarrow> scheduler_settings option) \<Rightarrow> ('b \<Rightarrow> persisted_state option) \<Rightarrow>
   bool + 'b \<Rightarrow> bool + 'b \<Rightarrow> account_member list \<Rightarrow> scheduler_registry" where
  "scheduler_load env parse_settings parse_state settings_raw state_raw members =
     (let (settings, settings_failed) = load_json parse_settings settings_raw;
          (runtime, state_failed) = load_json parse_state state_raw
      in reconcile env members
           \<lparr>sr_settings = (case settings of None \<Rightarrow> scheduler_settings_default | Some s \<Rightarrow> s),
            sr_snapshot = scheduler_snapshot_default,
            sr_runtime = (case runtime of None \<Rightarrow> persisted_state_default | Some s \<Rightarrow> s),
            settings_file = settings, state_file = runtime,
            state_generation = 0, persisted_generation = 0,
            state_parse_failed = (settings_failed \<or> state_failed),
            sr_reservations = \<lparr>rs_active = None, rs_reservations = []\<rparr>, pending = []\<rparr>)"

definition update_settings ::
  "sched_env \<Rightarrow> scheduler_settings \<Rightarrow> account_member list \<Rightarrow> scheduler_registry \<Rightarrow>
   (unit + scheduler_snapshot) \<times> scheduler_registry" where
  "update_settings env nxt members sr =
     (if \<not> env_io env then (Inl (), sr)
      else
        let sr' = reconcile env members
              (sr\<lparr>settings_file := Some nxt, sr_settings := nxt, state_parse_failed := False\<rparr>)
        in (Inr (sr_snapshot sr'), sr'))"

definition order_priorities :: "string list \<Rightarrow> string list \<Rightarrow> (string, nat) omap" where
  "order_priorities known order =
     foldl (\<lambda>ps (p, i). if i \<in> set known \<and> \<not> omap_contains ps i
                        then omap_insert i (p mod 2 ^ 32) ps else ps)
       [] (enumerated order)"

definition set_order ::
  "sched_env \<Rightarrow> string list \<Rightarrow> account_member list \<Rightarrow> scheduler_registry \<Rightarrow>
   (unit + scheduler_snapshot) \<times> scheduler_registry" where
  "set_order env order members sr =
     update_settings env
       ((sr_settings sr)\<lparr>priorities := order_priorities (map am_id members) order\<rparr>) members sr"

text \<open>
  The two calls that change the failure counts do so in a critical section of their own before
  they reconcile; \<open>clear_failures\<close> and \<open>bump_failures\<close> are those sections.
\<close>

definition clear_failures :: "string \<Rightarrow> scheduler_registry \<Rightarrow> scheduler_registry" where
  "clear_failures account sr =
     sr\<lparr>sr_runtime := (sr_runtime sr)\<lparr>non_auth_failures :=
          omap_remove account (non_auth_failures (sr_runtime sr))\<rparr>\<rparr>"

definition bump_failures :: "string \<Rightarrow> scheduler_registry \<Rightarrow> scheduler_registry" where
  "bump_failures account sr =
     (let failures = non_auth_failures (sr_runtime sr);
          count = (case omap_get failures account of None \<Rightarrow> 0 | Some n \<Rightarrow> n)
      in sr\<lparr>sr_runtime := (sr_runtime sr)\<lparr>non_auth_failures :=
              omap_insert account (min u8_max (count + 1)) failures\<rparr>\<rparr>)"

definition record_success ::
  "sched_env \<Rightarrow> string \<Rightarrow> account_member list \<Rightarrow> scheduler_registry \<Rightarrow> scheduler_registry" where
  "record_success env account members sr =
     (let changed = omap_contains (non_auth_failures (sr_runtime sr)) account;
          sr' = clear_failures account sr
      in if changed then reconcile env members sr' else sr')"

definition record_non_auth_failure ::
  "sched_env \<Rightarrow> string \<Rightarrow> account_member list \<Rightarrow> scheduler_registry \<Rightarrow> scheduler_registry" where
  "record_non_auth_failure env account members sr = reconcile env members (bump_failures account sr)"

definition record_auth_failure ::
  "sched_env \<Rightarrow> account_member list \<Rightarrow> scheduler_registry \<Rightarrow> scheduler_registry" where
  "record_auth_failure env members sr = reconcile env members sr"

end
