(* ===== verification/Scheduler_Props.thy ===== *)
theory Scheduler_Props
  imports Scheduler
begin

text \<open>
  Properties of the scheduler: what \<open>select_candidate\<close> chooses, what a reconciliation publishes,
  the hold on exhausted accounts, the reservation table, and the ordering of background writes.
\<close>

section \<open>The choice\<close>

lemma set_prioritised_subset: "set (prioritised cs) \<subseteq> set cs"
  by (auto simp: prioritised_def)

lemma prioritised_Nil [simp]: "prioritised cs = [] \<longleftrightarrow> cs = []"
  by (auto simp: prioritised_def list_ex_iff filter_empty_conv)

lemma set_ranked [simp]: "set (ranked_candidates cs now) = set (prioritised (filter eligible cs))"
  by (simp add: ranked_candidates_def)

lemma ranked_Nil: "ranked_candidates cs now = [] \<longleftrightarrow> (\<forall>c \<in> set cs. \<not> eligible c)"
  by (metis filter_empty_conv prioritised_Nil set_empty set_ranked)

lemma ranked_eligible: "c \<in> set (ranked_candidates cs now) \<Longrightarrow> c \<in> set cs \<and> eligible c"
  using set_prioritised_subset[of "filter eligible cs"] by auto

lemma ranked_best:
  assumes "ranked_candidates cs now = best # others" "d \<in> set (ranked_candidates cs now)"
  shows "rank_key now best \<le> rank_key now d"
proof -
  have "sorted (map (rank_key now) (ranked_candidates cs now))"
    by (simp add: ranked_candidates_def)
  with assms show ?thesis by auto
qed

lemma select_candidate_SomeE:
  assumes "select_candidate cs now = Some c"
  obtains best others incumbent where "ranked_candidates cs now = best # others"
    "min_by_key incumbent_key (best # others) = Some incumbent"
    "c = (if manual_priority incumbent < manual_priority best \<and>
            reset_or_max incumbent \<le> i64_saturating_add (reset_or_max best) SWITCH_MARGIN_SECS
          then incumbent else best)"
proof -
  from assms obtain best others where r: "ranked_candidates cs now = best # others"
    by (auto simp: select_candidate_def split: list.splits)
  obtain incumbent where m: "min_by_key incumbent_key (best # others) = Some incumbent"
    by (metis list.distinct(1) min_by_key_None not_None_eq)
  have "c = (if manual_priority incumbent < manual_priority best \<and>
            reset_or_max incumbent \<le> i64_saturating_add (reset_or_max best) SWITCH_MARGIN_SECS
          then incumbent else best)"
    using assms unfolding select_candidate_def r by (auto simp: m simp del: min_by_key.simps)
  with r m that show thesis by blast
qed

lemma select_candidate_None: "select_candidate cs now = None \<longleftrightarrow> (\<forall>c \<in> set cs. \<not> eligible c)"
  unfolding ranked_Nil[of cs now, symmetric]
  by (auto simp: select_candidate_def split: list.splits option.splits)

lemma select_candidate_ranked:
  assumes "select_candidate cs now = Some c"
  shows "c \<in> set (ranked_candidates cs now)"
proof -
  from assms obtain best others incumbent where r: "ranked_candidates cs now = best # others"
    and m: "min_by_key incumbent_key (best # others) = Some incumbent"
    and c: "c = (if manual_priority incumbent < manual_priority best \<and>
            reset_or_max incumbent \<le> i64_saturating_add (reset_or_max best) SWITCH_MARGIN_SECS
          then incumbent else best)"
    by (rule select_candidate_SomeE)
  have "incumbent \<in> set (best # others)" using min_by_key_Some[OF m] by simp
  with r c show ?thesis by (auto simp del: set_ranked)
qed

lemma select_candidate_eligible:
  "select_candidate cs now = Some c \<Longrightarrow> c \<in> set cs \<and> eligible c"
  by (drule select_candidate_ranked) (rule ranked_eligible)

text \<open>
  The scheduler finds a target exactly when one exists, the target is eligible, and a
  candidate without a manual priority is chosen only when no eligible candidate has one.
\<close>

theorem select_candidate_complete:
  "case select_candidate cs now of
     None \<Rightarrow> \<forall>c \<in> set cs. \<not> eligible c
   | Some c \<Rightarrow> c \<in> set cs \<and> eligible c \<and>
       (manual_priority c = None \<longrightarrow>
          (\<forall>d \<in> set cs. eligible d \<longrightarrow> manual_priority d = None))"
proof (cases "select_candidate cs now")
  case None
  then show ?thesis using select_candidate_None[of cs now] by simp
next
  case (Some c)
  have "c \<in> set (prioritised (filter eligible cs))"
    using select_candidate_ranked[OF Some] by simp
  then have "manual_priority c = None \<longrightarrow> (\<forall>d \<in> set cs. eligible d \<longrightarrow> manual_priority d = None)"
    by (auto simp: prioritised_def list_ex_iff split: if_splits)
  with select_candidate_eligible[OF Some] Some show ?thesis by simp
qed

text \<open>The candidates a choice is made from: those with the best rank and the least priority.\<close>

definition best_ranked :: "candidate list \<Rightarrow> int \<Rightarrow> candidate \<Rightarrow> bool" where
  "best_ranked cs now b \<longleftrightarrow>
     b \<in> set (prioritised (filter eligible cs)) \<and>
     (\<forall>d \<in> set (prioritised (filter eligible cs)). rank_key now b \<le> rank_key now d)"

definition least_priority :: "candidate list \<Rightarrow> candidate \<Rightarrow> bool" where
  "least_priority cs i \<longleftrightarrow>
     i \<in> set (prioritised (filter eligible cs)) \<and>
     (\<forall>d \<in> set (prioritised (filter eligible cs)). incumbent_key i \<le> incumbent_key d)"

lemma select_candidate_parts:
  assumes "select_candidate cs now = Some c"
  obtains best incumbent where "best_ranked cs now best" "least_priority cs incumbent"
    "c = (if manual_priority incumbent < manual_priority best \<and>
            reset_or_max incumbent \<le> i64_saturating_add (reset_or_max best) SWITCH_MARGIN_SECS
          then incumbent else best)"
proof -
  from assms obtain best others incumbent where r: "ranked_candidates cs now = best # others"
    and m: "min_by_key incumbent_key (best # others) = Some incumbent"
    and c: "c = (if manual_priority incumbent < manual_priority best \<and>
            reset_or_max incumbent \<le> i64_saturating_add (reset_or_max best) SWITCH_MARGIN_SECS
          then incumbent else best)"
    by (rule select_candidate_SomeE)
  have set: "set (prioritised (filter eligible cs)) = set (best # others)"
    using r set_ranked[of cs now] by simp
  have "best_ranked cs now best"
    unfolding best_ranked_def set using ranked_best[OF r] r by (auto simp del: set_ranked)
  moreover have "least_priority cs incumbent"
    unfolding least_priority_def set using min_by_key_Some[OF m] by blast
  ultimately show thesis using c that by blast
qed

text \<open>
  The choice is a best-ranked candidate (active window first, then the earliest live
  reset, then the id) unless the candidate of the least manual priority is kept: that one is
  kept exactly when its priority is strictly lower and its reset is at most the switch margin
  later.
\<close>

theorem select_candidate_margin:
  assumes "select_candidate cs now = Some c"
  shows "\<exists>best incumbent. best_ranked cs now best \<and> least_priority cs incumbent \<and>
    c = (if manual_priority incumbent < manual_priority best \<and>
            reset_or_max incumbent \<le> i64_saturating_add (reset_or_max best) SWITCH_MARGIN_SECS
         then incumbent else best)"
  by (rule select_candidate_parts[OF assms]) blast

section \<open>What a reconciliation publishes\<close>

text \<open>The outcome of the part of \<open>reconcile\<close> that schedules.\<close>

definition scheduled_candidates :: "sched_env \<Rightarrow> account_member list \<Rightarrow> scheduler_registry \<Rightarrow> candidate list" where
  "scheduled_candidates env ms sr =
     (let (facts, rt) = reconcile_facts (env_now env) ms (sr_runtime sr)
      in map (candidate_of (sr_settings sr) (ps_selected rt) (env_now env)) facts)"

definition scheduled_runtime :: "sched_env \<Rightarrow> account_member list \<Rightarrow> scheduler_registry \<Rightarrow> persisted_state" where
  "scheduled_runtime env ms sr =
     (snd (reconcile_facts (env_now env) ms (sr_runtime sr)))
       \<lparr>ps_selected := map_option cd_key (select_candidate (scheduled_candidates env ms sr) (env_now env))\<rparr>"

definition schedules :: "scheduler_registry \<Rightarrow> bool" where
  "schedules sr \<longleftrightarrow> sc_enabled (sr_settings sr) \<and> \<not> state_parse_failed sr"

lemma persist_generation_fields [simp]:
  "sr_settings (persist_generation io job sr) = sr_settings sr"
  "sr_snapshot (persist_generation io job sr) = sr_snapshot sr"
  "sr_runtime (persist_generation io job sr) = sr_runtime sr"
  "state_generation (persist_generation io job sr) = state_generation sr"
  "state_parse_failed (persist_generation io job sr) = state_parse_failed sr"
  "sr_reservations (persist_generation io job sr) = sr_reservations sr"
  "pending (persist_generation io job sr) = pending sr"
  by (simp_all add: persist_generation_def Let_def split: prod.splits)

lemma persist_background_fields [simp]:
  "sr_settings (persist_json_background env job sr) = sr_settings sr"
  "sr_snapshot (persist_json_background env job sr) = sr_snapshot sr"
  "sr_runtime (persist_json_background env job sr) = sr_runtime sr"
  "state_generation (persist_json_background env job sr) = state_generation sr"
  "state_parse_failed (persist_json_background env job sr) = state_parse_failed sr"
  "sr_reservations (persist_json_background env job sr) = sr_reservations sr"
  by (simp_all add: persist_json_background_def)

lemma reconcile_fields [simp]:
  "sr_settings (reconcile env ms sr) = sr_settings sr"
  "state_parse_failed (reconcile env ms sr) = state_parse_failed sr"
  "sr_reservations (reconcile env ms sr) = sr_reservations sr"
  by (simp_all add: reconcile_def Let_def split: prod.splits)

lemma reconcile_snapshot_of:
  "sr_snapshot (reconcile env ms sr) =
     (if schedules sr then
        reconcile_snapshot (sr_settings sr) (scheduled_candidates env ms sr)
          (ps_selected (scheduled_runtime env ms sr))
          (fst (reconcile_facts (env_now env) ms (sr_runtime sr)))
      else scheduler_snapshot_default
        \<lparr>sn_enabled := sc_enabled (sr_settings sr),
         sn_reason := (if sc_enabled (sr_settings sr) then ''state-parse-failure'' else ''disabled'')\<rparr>)"
  by (auto simp: reconcile_def schedules_def scheduled_candidates_def scheduled_runtime_def Let_def
      scheduler_snapshot_default_def split: prod.splits)

lemma reconcile_runtime_of:
  "sr_runtime (reconcile env ms sr) =
     (if schedules sr then scheduled_runtime env ms sr else sr_runtime sr)"
  by (auto simp: reconcile_def schedules_def scheduled_candidates_def scheduled_runtime_def Let_def
      split: prod.splits)

lemma reconcile_selected:
  "sn_selected (sr_snapshot (reconcile env ms sr)) =
     (if schedules sr
      then map_option cd_key (select_candidate (scheduled_candidates env ms sr) (env_now env)) else None)"
  by (simp add: reconcile_snapshot_of reconcile_snapshot_def scheduled_runtime_def
      scheduler_snapshot_default_def)

text \<open>Every fact is about one of the members.\<close>

definition fact_of :: "(string, nat) omap \<Rightarrow> account_member \<Rightarrow> fact \<Rightarrow> bool" where
  "fact_of failures m f \<longleftrightarrow>
     fa_id f = am_id m \<and> fa_remaining f = fst (tightest_window m) \<and>
     fa_reset f = snd (tightest_window m) \<and> fa_health f = am_health m \<and>
     fa_failures f = (case omap_get failures (am_id m) of None \<Rightarrow> 0 | Some n \<Rightarrow> n)"

lemma collect_facts_members:
  "f \<in> set (fst (collect_facts now failures ms ex)) \<Longrightarrow> \<exists>m \<in> set ms. fact_of failures m f"
  by (induction ms arbitrary: ex) (auto simp: Let_def case_prod_beta fact_of_def)

lemma collect_facts_ids [simp]:
  "map fa_id (fst (collect_facts now failures ms ex)) = map am_id ms"
  by (induction ms arbitrary: ex) (auto simp: Let_def case_prod_beta)

lemma reconcile_facts_ids [simp]: "map fa_id (fst (reconcile_facts now ms rt)) = map am_id ms"
  by (simp add: reconcile_facts_def Let_def case_prod_beta)

lemma reconcile_facts_members:
  assumes "f \<in> set (fst (reconcile_facts now ms rt))"
  shows "\<exists>m \<in> set ms. fact_of (non_auth_failures rt) m f"
proof -
  from assms obtain m where m: "m \<in> set ms"
    "fact_of (omap_retain (\<lambda>i _. i \<in> set (map am_id ms)) (non_auth_failures rt)) m f"
    by (auto simp: reconcile_facts_def drop_unknown_def Let_def case_prod_beta
        dest: collect_facts_members)
  then have "am_id m \<in> set (map am_id ms)" by simp
  with m have "fact_of (non_auth_failures rt) m f" by (simp add: fact_of_def)
  with m(1) show ?thesis by blast
qed

lemma map_key_scheduled [simp]: "map cd_key (scheduled_candidates env ms sr) = map am_id ms"
proof -
  have "map cd_key (scheduled_candidates env ms sr) =
      map fa_id (fst (reconcile_facts (env_now env) ms (sr_runtime sr)))"
    by (simp add: scheduled_candidates_def case_prod_beta candidate_of_def comp_def del: reconcile_facts_ids)
  then show ?thesis by simp
qed

lemma set_key_scheduled [simp]: "cd_key ` set (scheduled_candidates env ms sr) = am_id ` set ms"
  by (metis list.set_map map_key_scheduled)

lemma scheduled_candidate_fact:
  assumes "c \<in> set (scheduled_candidates env ms sr)"
  obtains f m where "f \<in> set (fst (reconcile_facts (env_now env) ms (sr_runtime sr)))"
    "m \<in> set ms" "fact_of (non_auth_failures (sr_runtime sr)) m f"
    "c = candidate_of (sr_settings sr)
           (ps_selected (snd (reconcile_facts (env_now env) ms (sr_runtime sr)))) (env_now env) f"
  using assms reconcile_facts_members
  by (fastforce simp: scheduled_candidates_def case_prod_beta)

text \<open>An account that may be scheduled at \<open>now\<close>.\<close>

definition fit :: "int \<Rightarrow> persisted_state \<Rightarrow> account_member \<Rightarrow> bool" where
  "fit now rt m \<longleftrightarrow>
     is_available (am_health m) (i64_mul now 1000) \<and>
     (\<exists>left. fst (tightest_window m) = Some left \<and> EXHAUSTION_ENTER_PERCENT < left) \<and>
     (\<forall>n. omap_get (non_auth_failures rt) (am_id m) = Some n \<longrightarrow> n < 3)"

lemma eligible_fit:
  assumes "fact_of (non_auth_failures rt) m f" "eligible (candidate_of settings sel now f)"
  shows "fit now rt m"
  using assms
  by (auto simp: fit_def fact_of_def eligible_def candidate_of_def fact_disabled_def
      split: if_splits option.splits)

lemma selected_member:
  assumes "sn_selected (sr_snapshot (reconcile env ms sr)) = Some a"
  shows "\<exists>m \<in> set ms. am_id m = a \<and> fit (env_now env) (sr_runtime sr) m"
proof -
  from assms obtain c where c: "select_candidate (scheduled_candidates env ms sr) (env_now env) = Some c"
    and key: "cd_key c = a"
    by (auto simp: reconcile_selected split: if_splits)
  from select_candidate_eligible[OF c] have cin: "c \<in> set (scheduled_candidates env ms sr)"
    and el: "eligible c" by auto
  from cin obtain f m where "m \<in> set ms" and f: "fact_of (non_auth_failures (sr_runtime sr)) m f"
    and cf: "c = candidate_of (sr_settings sr)
        (ps_selected (snd (reconcile_facts (env_now env) ms (sr_runtime sr)))) (env_now env) f"
    using scheduled_candidate_fact by blast
  moreover have "am_id m = a" using key cf f by (simp add: candidate_of_def fact_of_def)
  moreover have "fit (env_now env) (sr_runtime sr) m" using eligible_fit[OF f] el cf by simp
  ultimately show ?thesis by blast
qed

text \<open>
  C25. After a reconciliation that selected an account, that account is a pool member that is
  available, has more than the exhaustion threshold left on its tightest window and fewer than
  three consecutive failures, and it is the only account the scheduler permits.
\<close>

theorem scheduled_account_is_fit:
  assumes "sn_selected (sr_snapshot (reconcile env ms sr)) = Some a"
  shows "(\<exists>m \<in> set ms. am_id m = a \<and> fit (env_now env) (sr_runtime sr) m) \<and>
         (\<forall>b. permits (reconcile env ms sr) b \<longrightarrow> b = a)"
proof -
  have "fail_open (sr_snapshot (reconcile env ms sr)) = False"
    "allowed (sr_snapshot (reconcile env ms sr)) = [a]"
    using assms
    by (auto simp: reconcile_snapshot_of reconcile_snapshot_def scheduler_snapshot_default_def
        split: if_splits)
  with selected_member[OF assms] show ?thesis by (auto simp: permits_def)
qed

section \<open>Switching away from the selected account\<close>

lemma eligible_prioritised:
  assumes "d \<in> set cs" "eligible d" "manual_priority d \<noteq> None"
  shows "d \<in> set (prioritised (filter eligible cs))"
  using assms by (auto simp: prioritised_def list_ex_iff)

lemma least_priority_zero:
  assumes i: "least_priority cs i" and ca: "ca \<in> set cs" "eligible ca" "manual_priority ca = Some 0"
    and all: "\<And>d. d \<in> set cs \<Longrightarrow> manual_priority d = Some (if cd_key d = cd_key ca then 0 else 1)"
  shows "i \<in> set cs" "cd_key i = cd_key ca" "manual_priority i = Some 0"
proof -
  have "ca \<in> set (prioritised (filter eligible cs))"
    by (rule eligible_prioritised[OF ca(1,2)]) (simp add: ca(3))
  with i have le: "incumbent_key i \<le> incumbent_key ca"
    and mem: "i \<in> set (prioritised (filter eligible cs))"
    by (auto simp: least_priority_def)
  then show "i \<in> set cs" using set_prioritised_subset[of "filter eligible cs"] by auto
  from all[OF this] le ca(3) show "cd_key i = cd_key ca"
    by (auto simp: incumbent_key_def split: if_splits)
  with all[OF \<open>i \<in> set cs\<close>] show "manual_priority i = Some 0" by simp
qed

lemma sticky_choice:
  assumes sel: "select_candidate cs now = Some c" and ca: "ca \<in> set cs" "eligible ca"
    and keys: "distinct (map cd_key cs)" and ne: "cd_key c \<noteq> cd_key ca"
    and all: "\<And>d. d \<in> set cs \<Longrightarrow> manual_priority d = Some (if cd_key d = cd_key ca then 0 else 1)"
  shows "i64_saturating_add (reset_or_max c) SWITCH_MARGIN_SECS < reset_or_max ca"
proof -
  obtain best i where b: "best_ranked cs now best" and i: "least_priority cs i"
    and c: "c = (if manual_priority i < manual_priority best \<and>
            reset_or_max i \<le> i64_saturating_add (reset_or_max best) SWITCH_MARGIN_SECS
          then i else best)"
    by (rule select_candidate_parts[OF sel])
  have p0: "manual_priority ca = Some 0" using all[OF ca(1)] by simp
  note iz = least_priority_zero[OF i ca p0 all]
  have "i = ca" using iz(1,2) ca(1) keys by (metis eq_key_imp_eq_value distinct_map inj_onD)
  have "best \<in> set cs"
    using b set_prioritised_subset[of "filter eligible cs"] by (auto simp: best_ranked_def)
  have "c = best" using c ne \<open>i = ca\<close> by (auto split: if_splits)
  with all[OF \<open>best \<in> set cs\<close>] ne have "manual_priority best = Some 1" by simp
  with c \<open>c = best\<close> ne \<open>i = ca\<close> p0 show ?thesis by (auto split: if_splits)
qed

text \<open>
  Without explicit priorities the scheduler does not flap: it leaves a selected account
  that is still eligible only for an account whose window resets more than the switch margin
  earlier.
\<close>

theorem no_flapping:
  assumes "priorities (sr_settings sr) = []" and "distinct (map am_id ms)"
    and "ps_selected (sr_runtime sr) = Some a"
    and "ca \<in> set (scheduled_candidates env ms sr)" "cd_key ca = a" "eligible ca"
    and "sn_selected (sr_snapshot (reconcile env ms sr)) = Some b" "b \<noteq> a"
  shows "\<exists>cb \<in> set (scheduled_candidates env ms sr). cd_key cb = b \<and> eligible cb \<and>
           i64_saturating_add (reset_or_max cb) SWITCH_MARGIN_SECS < reset_or_max ca"
proof -
  let ?cs = "scheduled_candidates env ms sr"
  have "a \<in> cd_key ` set ?cs" using assms(4,5) by blast
  then have "a \<in> set (map am_id ms)" by simp
  then have sel: "ps_selected (snd (reconcile_facts (env_now env) ms (sr_runtime sr))) = Some a"
    using assms(3) by (simp add: reconcile_facts_def drop_unknown_def Let_def case_prod_beta)
  have all: "manual_priority d = Some (if cd_key d = cd_key ca then 0 else 1)" if "d \<in> set ?cs" for d
    using that sel assms(1,5)
    by (auto simp: scheduled_candidates_def case_prod_beta candidate_of_def)
  from assms(7) obtain cb where cb: "select_candidate ?cs (env_now env) = Some cb" "cd_key cb = b"
    by (auto simp: reconcile_selected split: if_splits)
  have "i64_saturating_add (reset_or_max cb) SWITCH_MARGIN_SECS < reset_or_max ca"
    using cb assms(2,5,8) by (intro sticky_choice[OF cb(1) assms(4,6) _ _ all]) simp_all
  with select_candidate_eligible[OF cb(1)] cb(2) show ?thesis by blast
qed

section \<open>The registry as a machine\<close>

datatype sched_op =
    SReconcile sched_env "account_member list"
  | SSettings sched_env scheduler_settings "account_member list"
  | SOrder sched_env "string list" "account_member list"
  | SBump string
  | SClear string
  | SReserve string string
  | SRelease string
  | SRetain "string oset"
  | SRun bool nat

fun sched_step :: "scheduler_registry \<Rightarrow> sched_op \<Rightarrow> scheduler_registry" where
  "sched_step sr (SReconcile env ms) = reconcile env ms sr"
| "sched_step sr (SSettings env nxt ms) = snd (update_settings env nxt ms sr)"
| "sched_step sr (SOrder env order ms) = snd (set_order env order ms sr)"
| "sched_step sr (SBump a) = bump_failures a sr"
| "sched_step sr (SClear a) = clear_failures a sr"
| "sched_step sr (SReserve i a) = snd (reserve i a sr)"
| "sched_step sr (SRelease i) = snd (release i sr)"
| "sched_step sr (SRetain act) = snd (retain_accounts act sr)"
| "sched_step sr (SRun io i) = run_pending io i sr"

text \<open>The recording calls are sequences of these steps.\<close>

lemma record_success_steps:
  "\<exists>ops. record_success env a ms sr = foldl sched_step sr ops \<and> length ops \<le> 2"
  by (rule exI[of _ "SClear a # (if omap_contains (non_auth_failures (sr_runtime sr)) a
                                 then [SReconcile env ms] else [])"])
     (simp add: record_success_def Let_def)

lemma record_non_auth_failure_steps:
  "record_non_auth_failure env a ms sr = foldl sched_step sr [SBump a, SReconcile env ms]"
  by (simp add: record_non_auth_failure_def)

subsection \<open>Holding an exhausted account\<close>

lemma update_exhaustion_holds:
  assumes "omap_get ex a = Some t" "i64_saturating_sub now t < MINIMUM_HOLD_SECS"
  shows "omap_get (update_exhaustion now mid remaining ex) a = Some t"
  using assms by (auto simp: update_exhaustion_def omap_contains_def split: option.splits)

lemma collect_facts_holds:
  assumes "omap_get ex a = Some t" "i64_saturating_sub now t < MINIMUM_HOLD_SECS"
  shows "omap_get (snd (collect_facts now failures ms ex)) a = Some t \<and>
         (\<forall>f \<in> set (fst (collect_facts now failures ms ex)). fa_id f = a \<longrightarrow> fa_exhausted_since f = Some t)"
  using assms(1)
proof (induction ms arbitrary: ex)
  case Nil
  then show ?case by simp
next
  case (Cons m ms)
  note keep = update_exhaustion_holds[OF Cons.prems assms(2), of "am_id m" "fst (tightest_window m)"]
  show ?case using Cons.IH[OF keep] keep by (auto simp: Let_def case_prod_beta)
qed

text \<open>\<open>held a t sr\<close>: the exhaustion of \<open>a\<close> was recorded at \<open>t\<close> and \<open>a\<close> is not selected.\<close>

definition held :: "string \<Rightarrow> int \<Rightarrow> scheduler_registry \<Rightarrow> bool" where
  "held a t sr \<longleftrightarrow>
     omap_get (exhausted_since_unix (sr_runtime sr)) a = Some t \<and>
     sn_selected (sr_snapshot sr) \<noteq> Some a"

definition within_hold :: "string \<Rightarrow> int \<Rightarrow> sched_env \<Rightarrow> account_member list \<Rightarrow> bool" where
  "within_hold a t env ms \<longleftrightarrow>
     a \<in> am_id ` set ms \<and> i64_saturating_sub (env_now env) t < MINIMUM_HOLD_SECS"

lemma not_selected_if_disabled:
  assumes "\<And>c. c \<in> set (scheduled_candidates env ms sr) \<Longrightarrow> cd_key c = a \<Longrightarrow> \<not> eligible c"
  shows "sn_selected (sr_snapshot (reconcile env ms sr)) \<noteq> Some a"
proof
  assume "sn_selected (sr_snapshot (reconcile env ms sr)) = Some a"
  then obtain c where "select_candidate (scheduled_candidates env ms sr) (env_now env) = Some c"
    "cd_key c = a" by (auto simp: reconcile_selected split: if_splits)
  with select_candidate_eligible assms show False by blast
qed

lemma reconcile_held:
  assumes ex: "omap_get (exhausted_since_unix (sr_runtime sr)) a = Some t" and w: "within_hold a t env ms"
  shows "held a t (reconcile env ms sr)"
proof -
  let ?rt = "drop_unknown (map am_id ms) (sr_runtime sr)"
  have "omap_get (exhausted_since_unix ?rt) a = Some t"
    using ex w by (auto simp: drop_unknown_def within_hold_def)
  from collect_facts_holds[OF this, of "env_now env" "non_auth_failures ?rt" ms] w
  have keep: "omap_get (exhausted_since_unix (snd (reconcile_facts (env_now env) ms (sr_runtime sr)))) a = Some t"
    and facts: "\<And>f. f \<in> set (fst (reconcile_facts (env_now env) ms (sr_runtime sr))) \<Longrightarrow>
                  fa_id f = a \<Longrightarrow> fa_exhausted_since f = Some t"
    by (auto simp: reconcile_facts_def Let_def case_prod_beta within_hold_def)
  have "sn_selected (sr_snapshot (reconcile env ms sr)) \<noteq> Some a"
  proof (rule not_selected_if_disabled)
    fix c assume "c \<in> set (scheduled_candidates env ms sr)" "cd_key c = a"
    then show "\<not> eligible c" using facts w
      by (auto simp: scheduled_candidates_def case_prod_beta candidate_of_def eligible_def
          fact_disabled_def within_hold_def)
  qed
  moreover have "omap_get (exhausted_since_unix (sr_runtime (reconcile env ms sr))) a = Some t"
    using ex keep by (simp add: reconcile_runtime_of scheduled_runtime_def)
  ultimately show ?thesis by (simp add: held_def)
qed

fun op_within_hold :: "string \<Rightarrow> int \<Rightarrow> sched_op \<Rightarrow> bool" where
  "op_within_hold a t (SReconcile env ms) = within_hold a t env ms"
| "op_within_hold a t (SSettings env nxt ms) = within_hold a t env ms"
| "op_within_hold a t (SOrder env order ms) = within_hold a t env ms"
| "op_within_hold a t c = True"

lemma update_settings_held:
  assumes "held a t sr" "within_hold a t env ms"
  shows "held a t (snd (update_settings env nxt ms sr))"
  using assms by (auto simp: update_settings_def Let_def held_def intro!: reconcile_held[unfolded held_def])

lemma sched_step_held:
  assumes "held a t sr" "op_within_hold a t c"
  shows "held a t (sched_step sr c)"
proof (cases c)
  case (SReconcile env ms)
  then show ?thesis using assms by (simp add: held_def reconcile_held[unfolded held_def])
next
  case (SSettings env nxt ms)
  then show ?thesis using assms by (simp add: update_settings_held)
next
  case (SOrder env order ms)
  then show ?thesis using assms by (simp add: set_order_def update_settings_held)
qed (use assms in \<open>auto simp: held_def bump_failures_def
      clear_failures_def reserve_def release_def retain_accounts_def run_pending_def Let_def\<close>)

lemma run_held:
  "held a t sr \<Longrightarrow> list_all (op_within_hold a t) ops \<Longrightarrow> held a t (foldl sched_step sr ops)"
  by (induction ops arbitrary: sr) (auto intro: sched_step_held)

lemma update_exhaustion_other:
  "mid \<noteq> a \<Longrightarrow> omap_get (update_exhaustion now mid remaining ex) a = omap_get ex a"
  by (auto simp: update_exhaustion_def split: option.splits)

lemma collect_facts_other:
  "a \<notin> am_id ` set ms \<Longrightarrow> omap_get (snd (collect_facts now failures ms ex)) a = omap_get ex a"
  by (induction ms arbitrary: ex) (auto simp: Let_def case_prod_beta update_exhaustion_other)

lemma collect_facts_exhausts:
  assumes "distinct (map am_id ms)" "m \<in> set ms" "fst (tightest_window m) = Some v"
    "v \<le> EXHAUSTION_ENTER_PERCENT" "omap_get ex (am_id m) = None"
  shows "omap_get (snd (collect_facts now failures ms ex)) (am_id m) = Some now"
  using assms(1,2,5)
proof (induction ms arbitrary: ex)
  case Nil
  then show ?case by simp
next
  case (Cons n ms)
  show ?case
  proof (cases "n = m")
    case True
    then have "am_id m \<notin> am_id ` set ms" using Cons.prems(1) by auto
    then show ?thesis using True Cons.prems(3) assms(3,4)
      by (simp add: Let_def case_prod_beta collect_facts_other update_exhaustion_def omap_contains_def)
  next
    case False
    with Cons.prems have m: "m \<in> set ms" "distinct (map am_id ms)" "am_id n \<noteq> am_id m"
      by (auto simp: image_iff)
    show ?thesis
      using Cons.IH[OF m(2,1)] Cons.prems(3) m(3)
      by (simp add: Let_def case_prod_beta update_exhaustion_other)
  qed
qed

lemma reconcile_exhausts:
  assumes run: "schedules sr" and ids: "distinct (map am_id ms)" and m: "m \<in> set ms"
    and left: "fst (tightest_window m) = Some v" "v \<le> EXHAUSTION_ENTER_PERCENT"
    and fresh: "omap_get (exhausted_since_unix (sr_runtime sr)) (am_id m) = None"
  shows "held (am_id m) (env_now env) (reconcile env ms sr)"
proof -
  let ?rt = "drop_unknown (map am_id ms) (sr_runtime sr)"
  have "omap_get (exhausted_since_unix ?rt) (am_id m) = None"
    using fresh by (simp add: drop_unknown_def)
  from collect_facts_exhausts[OF ids m left this, of "env_now env" "non_auth_failures ?rt"]
  have "omap_get (exhausted_since_unix (sr_runtime (reconcile env ms sr))) (am_id m) = Some (env_now env)"
    using run by (simp add: reconcile_runtime_of scheduled_runtime_def reconcile_facts_def Let_def
        case_prod_beta)
  moreover have "sn_selected (sr_snapshot (reconcile env ms sr)) \<noteq> Some (am_id m)"
  proof
    assume "sn_selected (sr_snapshot (reconcile env ms sr)) = Some (am_id m)"
    from selected_member[OF this] obtain n where "n \<in> set ms" "am_id n = am_id m"
      "fit (env_now env) (sr_runtime sr) n" by blast
    moreover from this ids m have "n = m" by (auto simp: distinct_map inj_on_def)
    ultimately show False using left by (simp add: fit_def)
  qed
  ultimately show ?thesis by (simp add: held_def)
qed

text \<open>
  C26. An account found exhausted is held: from the reconciliation at \<open>t\<close> that first sees it
  exhausted it is not selected after any run of operations, however its reported usage changes, as
  long as every reconciliation, change of settings and change of order in that run lists the
  account among the members and happens before \<open>t + MINIMUM_HOLD_SECS\<close>. (A reconciliation that does
  not list the account forgets the hold.)
\<close>

theorem exhausted_account_is_held:
  assumes "schedules sr" and "distinct (map am_id ms)" and "m \<in> set ms"
    and "fst (tightest_window m) = Some v" "v \<le> EXHAUSTION_ENTER_PERCENT"
    and "omap_get (exhausted_since_unix (sr_runtime sr)) (am_id m) = None"
    and "list_all (op_within_hold (am_id m) (env_now env)) ops"
  shows "sn_selected (sr_snapshot (foldl sched_step (reconcile env ms sr) ops)) \<noteq> Some (am_id m)"
  using run_held[OF reconcile_exhausts[OF assms(1-6)] assms(7)] by (simp add: held_def)

subsection \<open>The reservation table\<close>

definition reservations_ok :: "scheduler_registry \<Rightarrow> bool" where
  "reservations_ok sr \<longleftrightarrow>
     (let st = sr_reservations sr in
      omap_ok (rs_reservations st) \<and> distinct (omap_values (rs_reservations st)) \<and>
      (\<forall>act. rs_active st = Some act \<longrightarrow> set (omap_values (rs_reservations st)) \<subseteq> set act))"

lemma omap_values_insert_subset:
  "set (omap_values (omap_insert k v m)) \<subseteq> insert v (set (omap_values m))"
  using set_omap_insert_subset[of k v m] by fastforce

lemma distinct_values_insert:
  assumes "omap_ok m" "distinct (omap_values m)" "\<And>k'. (k', v) \<in> set m \<Longrightarrow> k' = k"
  shows "distinct (omap_values (omap_insert k v m))"
  using assms
proof (induction k v m rule: omap_insert.induct)
  case (1 k v)
  then show ?case by simp
next
  case (2 k v k' v' m)
  consider "k < k'" | "k = k'" | "k' < k" by fastforce
  then show ?case
  proof cases
    case 1
    have "v \<notin> snd ` set ((k', v') # m)"
      using 1 2(2,4) by (fastforce simp: omap_ok_def)
    with 1 2(3) show ?thesis by simp
  next
    case 2
    have "v \<notin> snd ` set m" using 2 "2.prems"(1,3) by (fastforce simp: omap_ok_def)
    with 2 "2.prems"(2) show ?thesis by simp
  next
    case 3
    have IH: "distinct (omap_values (omap_insert k v m))"
      by (rule "2.IH") (use 3 2(2-4) in \<open>auto simp: omap_ok_def\<close>)
    have "v' \<noteq> v" using 3 2(4)[of k'] by auto
    with 2(3) have "v' \<notin> set (omap_values (omap_insert k v m))"
      using omap_values_insert_subset[of k v m] by fastforce
    with 3 IH show ?thesis by auto
  qed
qed

lemma reservations_ok_same:
  "sr_reservations sr' = sr_reservations sr \<Longrightarrow> reservations_ok sr' = reservations_ok sr"
  by (simp add: reservations_ok_def)

lemma reserve_ok: "reservations_ok sr \<Longrightarrow> reservations_ok (snd (reserve i a sr))"
proof -
  assume ok: "reservations_ok sr"
  let ?st = "sr_reservations sr"
  show ?thesis
  proof (cases "fst (reserve i a sr)")
    case (Inl e)
    then have "snd (reserve i a sr) = sr" by (auto simp: reserve_def Let_def split: if_splits)
    with ok show ?thesis by simp
  next
    case (Inr u)
    then have act: "\<And>act. rs_active ?st = Some act \<Longrightarrow> a \<in> set act"
      and free: "\<And>j. (j, a) \<in> set (rs_reservations ?st) \<Longrightarrow> j = i"
      and snd: "snd (reserve i a sr) = sr\<lparr>sr_reservations :=
              ?st\<lparr>rs_reservations := omap_insert i a (rs_reservations ?st)\<rparr>\<rparr>"
      by (auto simp: reserve_def Let_def list_ex_iff split: if_splits option.splits)
    have "distinct (omap_values (omap_insert i a (rs_reservations ?st)))"
      using ok free by (intro distinct_values_insert) (auto simp: reservations_ok_def Let_def)
    moreover have "set (omap_values (omap_insert i a (rs_reservations ?st))) \<subseteq> set act"
      if "rs_active ?st = Some act" for act
      using omap_values_insert_subset[of i a "rs_reservations ?st"] ok that act[OF that]
      by (auto simp: reservations_ok_def Let_def)
    ultimately show ?thesis using ok by (simp add: snd reservations_ok_def Let_def)
  qed
qed

lemma distinct_values_filter: "distinct (omap_values m) \<Longrightarrow> distinct (omap_values (filter P m))"
  by (auto simp: distinct_map intro: inj_on_subset)

lemma release_ok: "reservations_ok sr \<Longrightarrow> reservations_ok (snd (release i sr))"
  unfolding reservations_ok_def release_def Let_def
  by (auto simp: omap_remove_def distinct_values_filter)

lemma retain_accounts_ok: "reservations_ok sr \<Longrightarrow> reservations_ok (snd (retain_accounts act sr))"
  unfolding reservations_ok_def retain_accounts_def Let_def
  by (auto simp: omap_retain_def distinct_values_filter)

lemma update_settings_reservations [simp]:
  "sr_reservations (snd (update_settings env nxt ms sr)) = sr_reservations sr"
  by (simp add: update_settings_def Let_def)

fun is_reservation_op :: "sched_op \<Rightarrow> bool" where
  "is_reservation_op (SReserve i a) = True"
| "is_reservation_op (SRelease i) = True"
| "is_reservation_op (SRetain act) = True"
| "is_reservation_op c = False"

lemma other_ops_keep_reservations:
  "\<not> is_reservation_op c \<Longrightarrow> sr_reservations (sched_step sr c) = sr_reservations sr"
  by (cases c) (simp_all add: set_order_def bump_failures_def clear_failures_def run_pending_def Let_def)

lemma sched_step_reservations_ok:
  assumes "reservations_ok sr"
  shows "reservations_ok (sched_step sr c)"
proof (cases "is_reservation_op c")
  case True
  then show ?thesis
    using assms by (cases c) (simp_all add: reserve_ok release_ok retain_accounts_ok)
next
  case False
  from reservations_ok_same[OF other_ops_keep_reservations[OF this]] assms show ?thesis by blast
qed

lemma scheduler_load_fields:
  "sr_reservations (scheduler_load env p q s r ms) = \<lparr>rs_active = None, rs_reservations = []\<rparr>"
  by (simp add: scheduler_load_def Let_def case_prod_beta)

interpretation sched_machine: invariant_machine "scheduler_load env p q s r ms" sched_step reservations_ok
proof unfold_locales
  show "reservations_ok (scheduler_load env p q s r ms)"
    by (simp add: reservations_ok_def scheduler_load_fields)
qed (rule sched_step_reservations_ok)

text \<open>
  C27. Reservations are exclusive: after any sequence of operations on a freshly loaded
  registry no account is reserved by two instances, every reserved account is live once the
  pool is known, and the scheduler permits no reserved account, not even when it fails open.
\<close>

theorem reservations_exclusive:
  assumes "sr = foldl sched_step (scheduler_load env parse_settings parse_state raw_s raw_r ms) ops"
    and "omap_get (rs_reservations (sr_reservations sr)) i = Some a"
  shows "\<not> permits sr a \<and>
         (\<forall>j. omap_get (rs_reservations (sr_reservations sr)) j = Some a \<longrightarrow> j = i) \<and>
         (\<forall>act. rs_active (sr_reservations sr) = Some act \<longrightarrow> a \<in> set act)"
proof (intro conjI allI impI)
  have ok: "reservations_ok sr" unfolding assms(1) by (rule sched_machine.inv_reachable)
  have mem: "(i, a) \<in> set (rs_reservations (sr_reservations sr))"
    using assms(2) by (rule omap_get_in_set)
  then have val: "a \<in> snd ` set (rs_reservations (sr_reservations sr))" by (rule rev_image_eqI) simp
  then show "\<not> permits sr a" by (simp add: permits_def)
  show "a \<in> set act" if "rs_active (sr_reservations sr) = Some act" for act
    using ok that val by (auto simp: reservations_ok_def Let_def)
  show "j = i" if "omap_get (rs_reservations (sr_reservations sr)) j = Some a" for j
  proof -
    have "inj_on snd (set (rs_reservations (sr_reservations sr)))"
      using ok by (simp add: reservations_ok_def Let_def distinct_map)
    from inj_onD[OF this _ omap_get_in_set[OF that] mem] show "j = i" by simp
  qed
qed

subsection \<open>Background writes\<close>

text \<open>
  The state file against the state in memory: the same selection and the same exhaustion times.
  The failure counts, which the file also has, are not compared.
\<close>

definition same_schedule :: "persisted_state \<Rightarrow> persisted_state \<Rightarrow> bool" where
  "same_schedule st rt \<longleftrightarrow>
     ps_selected st = ps_selected rt \<and> exhausted_since_unix st = exhausted_since_unix rt"

text \<open>
  \<open>writes_ok n lossless sr\<close>: at most \<open>n\<close> generations were issued, the newest one holds the current
  state wherever it is, and, when no write failed so far, it is written or still queued.
\<close>

definition writes_ok :: "nat \<Rightarrow> bool \<Rightarrow> scheduler_registry \<Rightarrow> bool" where
  "writes_ok n lossless sr \<longleftrightarrow>
     state_generation sr \<le> n \<and> persisted_generation sr \<le> state_generation sr \<and>
     (\<forall>(g, st) \<in> set (pending sr).
        g \<le> state_generation sr \<and> (g = state_generation sr \<longrightarrow> same_schedule st (sr_runtime sr))) \<and>
     (persisted_generation sr = state_generation sr \<and> 0 < state_generation sr \<longrightarrow>
        (\<exists>st. state_file sr = Some st \<and> same_schedule st (sr_runtime sr))) \<and>
     (lossless \<longrightarrow> persisted_generation sr = state_generation sr \<or>
        (\<exists>st. (state_generation sr, st) \<in> set (pending sr)))"

lemma writes_ok_same:
  assumes "writes_ok n l sr" "state_generation sr' = state_generation sr"
    "persisted_generation sr' = persisted_generation sr" "pending sr' = pending sr"
    "state_file sr' = state_file sr" "same_schedule (sr_runtime sr) (sr_runtime sr')" "n \<le> n'" "l' \<longrightarrow> l"
  shows "writes_ok n' l' sr'"
proof -
  have "same_schedule st (sr_runtime sr') = same_schedule st (sr_runtime sr)" for st
    using assms(6) by (auto simp: same_schedule_def)
  with assms(1-5,7,8) show ?thesis by (auto simp: writes_ok_def)
qed

lemma same_schedule_refl [simp]: "same_schedule st st"
  by (simp add: same_schedule_def)

definition publish :: "sched_env \<Rightarrow> persisted_state \<Rightarrow> scheduler_snapshot \<Rightarrow> scheduler_registry \<Rightarrow> scheduler_registry" where
  "publish env rt' snap sr =
     (let sr' = sr\<lparr>sr_runtime := rt', sr_snapshot := snap\<rparr> in
      if rt' \<noteq> sr_runtime sr then
        let generation = u64_wrapping_add (state_generation sr) 1
        in persist_json_background env (generation, rt') (sr'\<lparr>state_generation := generation\<rparr>)
      else sr')"

lemma reconcile_publish:
  "reconcile env ms sr =
     (if schedules sr then
        publish env (scheduled_runtime env ms sr)
          (reconcile_snapshot (sr_settings sr) (scheduled_candidates env ms sr)
             (ps_selected (scheduled_runtime env ms sr))
             (fst (reconcile_facts (env_now env) ms (sr_runtime sr)))) sr
      else sr\<lparr>sr_snapshot := sr_snapshot (reconcile env ms sr)\<rparr>)"
  by (auto simp: reconcile_def schedules_def publish_def scheduled_candidates_def scheduled_runtime_def Let_def
      split: prod.splits)

lemma publish_ok:
  assumes ok: "writes_ok n l sr" and n: "n < u64_max"
  shows "writes_ok (Suc n) (l \<and> env_io env) (publish env rt' snap sr)"
proof (cases "rt' = sr_runtime sr")
  case True
  then show ?thesis using ok by (auto simp: publish_def intro: writes_ok_same)
next
  case False
  have "state_generation sr < u64_max" using ok n by (simp add: writes_ok_def)
  then have gen: "u64_wrapping_add (state_generation sr) (Suc 0) = Suc (state_generation sr)"
    by (simp add: u64_wrapping_add_exact)
  have old: "g \<noteq> Suc (state_generation sr)" if "(g, st) \<in> set (pending sr)" for g st
    using ok that by (auto simp: writes_ok_def)
  show ?thesis
    using False ok
    by (auto simp: publish_def Let_def gen persist_json_background_def persist_generation_def
        writes_ok_def dest: old)
qed

lemma reconcile_writes_ok:
  assumes "writes_ok n l sr" "n < u64_max"
  shows "writes_ok (Suc n) (l \<and> env_io env) (reconcile env ms sr)"
proof (cases "schedules sr")
  case True
  then show ?thesis using publish_ok[OF assms] by (subst reconcile_publish) simp
next
  case False
  then show ?thesis
    by (subst reconcile_publish) (use assms in \<open>auto intro: writes_ok_same\<close>)
qed

lemma mem_remove_nth: "x \<in> set xs \<Longrightarrow> i < length xs \<Longrightarrow> x \<noteq> xs ! i \<Longrightarrow> x \<in> set (remove_nth i xs)"
  using id_take_nth_drop[of i xs] by (metis Un_iff remove_nth_def set_ConsD set_append)

lemma run_pending_writes_ok:
  assumes ok: "writes_ok n l sr"
  shows "writes_ok n (l \<and> io) (run_pending io i sr)"
proof (cases "i < length (pending sr)")
  case True
  obtain g st where job: "pending sr ! i = (g, st)" by fastforce
  have "(g, st) \<in> set (pending sr)" using True job by (metis nth_mem)
  with ok have g: "g \<le> state_generation sr" "g = state_generation sr \<longrightarrow> same_schedule st (sr_runtime sr)"
    by (auto simp: writes_ok_def)
  let ?sr = "sr\<lparr>pending := remove_nth i (pending sr)\<rparr>"
  have run: "run_pending io i sr = persist_generation io (g, st) ?sr"
    using True job by (simp add: run_pending_def)
  have sub: "set (remove_nth i (pending sr)) \<subseteq> set (pending sr)" by (rule set_remove_nth_subset)
  have rest: "\<exists>st. (state_generation sr, st) \<in> set (remove_nth i (pending sr))"
    if "g \<noteq> state_generation sr" "(state_generation sr, st') \<in> set (pending sr)" for st'
    using mem_remove_nth[OF that(2) True] that(1) job by auto
  consider "g \<le> persisted_generation sr" | "persisted_generation sr < g" "io"
    | "persisted_generation sr < g" "\<not> io" by fastforce
  then show ?thesis
  proof cases
    case 1
    then have "run_pending io i sr = ?sr" by (simp add: run persist_generation_def)
    moreover have "l \<longrightarrow> persisted_generation sr = state_generation sr \<or>
        (\<exists>st. (state_generation sr, st) \<in> set (remove_nth i (pending sr)))"
      using ok 1 rest unfolding writes_ok_def by (metis le_antisym)
    ultimately show ?thesis using ok sub unfolding writes_ok_def by auto
  next
    case 2
    then have "run_pending io i sr = ?sr\<lparr>state_file := Some st, persisted_generation := g\<rparr>"
      unfolding run by (simp add: persist_generation_def)
    moreover have "l \<longrightarrow> g = state_generation sr \<or>
        (\<exists>st. (state_generation sr, st) \<in> set (remove_nth i (pending sr)))"
      using ok 2 g(1) rest unfolding writes_ok_def by (metis le_antisym less_imp_le)
    ultimately show ?thesis using ok sub g unfolding writes_ok_def by auto
  next
    case 3
    then have "run_pending io i sr = ?sr" unfolding run by (simp add: persist_generation_def)
    then show ?thesis using ok sub 3 unfolding writes_ok_def by auto
  qed
next
  case False
  then show ?thesis using ok by (auto simp: run_pending_def intro: writes_ok_same)
qed

fun op_io_ok :: "sched_op \<Rightarrow> bool" where
  "op_io_ok (SReconcile env ms) = env_io env"
| "op_io_ok (SSettings env nxt ms) = env_io env"
| "op_io_ok (SOrder env order ms) = env_io env"
| "op_io_ok (SRun io i) = io"
| "op_io_ok c = True"

lemma update_settings_writes_ok:
  assumes "writes_ok n l sr" "n < u64_max"
  shows "writes_ok (Suc n) (l \<and> env_io env) (snd (update_settings env nxt ms sr))"
proof (cases "env_io env")
  case True
  let ?sr = "sr\<lparr>settings_file := Some nxt, sr_settings := nxt, state_parse_failed := False\<rparr>"
  have "writes_ok n l ?sr" by (rule writes_ok_same[OF assms(1)]) simp_all
  from reconcile_writes_ok[OF this assms(2), of env ms] True show ?thesis
    by (simp add: update_settings_def Let_def)
next
  case False
  then have "snd (update_settings env nxt ms sr) = sr" by (simp add: update_settings_def)
  then show ?thesis by (intro writes_ok_same[OF assms(1)]) (simp_all add: False)
qed

fun is_quiet_op :: "sched_op \<Rightarrow> bool" where
  "is_quiet_op (SReconcile env ms) = False"
| "is_quiet_op (SSettings env nxt ms) = False"
| "is_quiet_op (SOrder env order ms) = False"
| "is_quiet_op (SRun io i) = False"
| "is_quiet_op c = True"

lemma quiet_op_fields:
  assumes "is_quiet_op c"
  shows "state_generation (sched_step sr c) = state_generation sr"
    "persisted_generation (sched_step sr c) = persisted_generation sr"
    "pending (sched_step sr c) = pending sr" "state_file (sched_step sr c) = state_file sr"
    "same_schedule (sr_runtime sr) (sr_runtime (sched_step sr c))"
  using assms
  by (cases c; simp add: bump_failures_def clear_failures_def reserve_def release_def
      retain_accounts_def same_schedule_def Let_def)+

lemma sched_step_writes_ok:
  assumes ok: "writes_ok n l sr" and n: "n < u64_max"
  shows "writes_ok (Suc n) (l \<and> op_io_ok c) (sched_step sr c)"
proof (cases c)
  case (SReconcile env ms)
  then show ?thesis using reconcile_writes_ok[OF assms] by simp
next
  case (SSettings env nxt ms)
  then show ?thesis using update_settings_writes_ok[OF assms] by simp
next
  case (SOrder env order ms)
  then show ?thesis using update_settings_writes_ok[OF assms] by (simp add: set_order_def)
next
  case (SRun io i)
  have "writes_ok (Suc n) (l \<and> io) (run_pending io i sr)"
    by (rule writes_ok_same[OF run_pending_writes_ok[OF ok, of io i]]) simp_all
  with SRun show ?thesis by simp
qed (use quiet_op_fields[of c sr] in \<open>auto intro!: writes_ok_same[OF ok] simp del: sched_step.simps\<close>)

lemma run_writes_ok:
  "writes_ok n l sr \<Longrightarrow> n + length ops \<le> u64_max \<Longrightarrow>
   writes_ok (n + length ops) (l \<and> list_all op_io_ok ops) (foldl sched_step sr ops)"
proof (induction ops arbitrary: n l sr)
  case (Cons c ops)
  from Cons.prems(2) have "n < u64_max" by simp
  from Cons.IH[OF sched_step_writes_ok[OF Cons.prems(1) this, of c]] Cons.prems(2) show ?case
    by (simp add: conj_assoc)
qed simp

lemma scheduler_load_writes_ok:
  "writes_ok 1 (env_io env) (scheduler_load env p q s r ms)"
proof -
  have "writes_ok 0 True \<lparr>sr_settings = a, sr_snapshot = b, sr_runtime = c, settings_file = d,
      state_file = e, state_generation = 0, persisted_generation = 0, state_parse_failed = f,
      sr_reservations = g, pending = []\<rparr>" for a b c d e f g
    by (simp add: writes_ok_def)
  from reconcile_writes_ok[OF this, of env ms] show ?thesis
    by (simp add: scheduler_load_def Let_def case_prod_beta u64_max_def)
qed

text \<open>
  C28. Background writes never leave a stale schedule behind. After any interleaving of fewer than
  \<open>2^64 - 1\<close> operations and queued writes, run in any order, in which at least one write was issued:
  once the newest generation is on disk, which is the case when no write failed and the queue is
  empty, the file holds the selection and the exhaustion times that are in memory. Failure counts
  are not part of this: raising one does not by itself cause a write.
\<close>

theorem drained_state_file_is_current:
  assumes "sr = foldl sched_step (scheduler_load env parse_settings parse_state raw_s raw_r ms) ops"
    and "length ops < u64_max" and "0 < state_generation sr"
    and "persisted_generation sr = state_generation sr \<or>
         env_io env \<and> list_all op_io_ok ops \<and> pending sr = []"
  shows "persisted_generation sr = state_generation sr \<and>
         (\<exists>st. state_file sr = Some st \<and> same_schedule st (sr_runtime sr))"
proof -
  have "writes_ok (1 + length ops) (env_io env \<and> list_all op_io_ok ops) sr"
    unfolding assms(1) by (rule run_writes_ok[OF scheduler_load_writes_ok]) (use assms(2) in simp)
  with assms(3,4) show ?thesis by (auto simp: writes_ok_def)
qed

section \<open>Manual order\<close>

lemma order_priorities_get:
  "omap_get (order_priorities known order) i =
     (if i \<in> set known then map_option (\<lambda>p. p mod 2 ^ 32) (position (\<lambda>x. x = i) order) else None)"
proof (induction order rule: rev_induct)
  case Nil
  then show ?case by (simp add: order_priorities_def enumerated_def)
next
  case (snoc x xs)
  have enum: "enumerated (xs @ [x]) = enumerated xs @ [(length xs, x)]"
    by (simp add: enumerated_def)
  have pos: "position (\<lambda>y. y = i) (xs @ [x]) =
      (case position (\<lambda>y. y = i) xs of Some p \<Rightarrow> Some p
       | None \<Rightarrow> if x = i then Some (length xs) else None)"
    by (induction xs) (auto split: option.splits)
  show ?case
    using snoc by (auto simp: order_priorities_def enum pos omap_contains_def split: option.splits)
qed

text \<open>
  A manual order is stored as given: after \<open>set_order\<close> succeeds the priority of a pool
  member is the position of its first occurrence in the order, ids the pool does not know get
  none, and the new priorities are what the settings file holds.
\<close>

theorem set_order_priorities:
  assumes "fst (set_order env order ms sr) = Inr snap" and "length order \<le> u32_max"
  shows "omap_get (priorities (sr_settings (snd (set_order env order ms sr)))) i =
           (if i \<in> am_id ` set ms then position (\<lambda>x. x = i) order else None)
         \<and> settings_file (snd (set_order env order ms sr)) =
             Some (sr_settings (snd (set_order env order ms sr)))"
proof -
  let ?nxt = "(sr_settings sr)\<lparr>priorities := order_priorities (map am_id ms) order\<rparr>"
  from assms(1) have io: "env_io env" by (auto simp: set_order_def update_settings_def split: if_splits)
  have same_file: "settings_file (reconcile env ms x) = settings_file x" for x
    by (simp add: reconcile_def persist_json_background_def persist_generation_def Let_def
        case_prod_beta)
  have "p mod 2 ^ 32 = p" if "position (\<lambda>x. x = i) order = Some p" for p
    using that assms(2) by (auto simp: position_Some u32_max_def)
  then have "map_option (\<lambda>p. p mod 2 ^ 32) (position (\<lambda>x. x = i) order) = position (\<lambda>x. x = i) order"
    by (cases "position (\<lambda>x. x = i) order") auto
  then show ?thesis
    using io by (simp add: set_order_def update_settings_def Let_def order_priorities_get same_file)
qed

end
