(* ===== verification/Scheduler_Examples.thy ===== *)
theory Scheduler_Examples
  imports Scheduler_Props
begin

text \<open>Concrete runs of the scheduler: each property of \<open>Scheduler_Props\<close> applied to one.\<close>

section \<open>A pool of two accounts\<close>

definition window_used :: "rat \<Rightarrow> int \<Rightarrow> quota_window" where
  "window_used used reset =
     quota_window_default\<lparr>used_percent := Some (Fin used), qw_reset_at_unix := Some reset\<rparr>"

definition codex_member :: "string \<Rightarrow> rat \<Rightarrow> int \<Rightarrow> account_member" where
  "codex_member i used reset =
     \<lparr>am_id = i, am_kind = Codex, relay_api_key = None, am_health = Available,
      am_primary = window_used used reset, am_secondary = quota_window_default\<rparr>"

definition pool_two :: "account_member list" where
  "pool_two = [codex_member ''a'' 98 9000, codex_member ''b'' 50 8000]"

definition pool_reset :: "account_member list" where
  "pool_reset = [codex_member ''a'' 0 7000, codex_member ''b'' 50 8000]"

definition env_at :: "int \<Rightarrow> sched_env" where
  "env_at now = \<lparr>env_now = now, env_async = True, env_io = True\<rparr>"

definition enabled_settings :: scheduler_settings where
  "enabled_settings = \<lparr>sc_enabled = True, priorities = []\<rparr>"

definition registry_with :: "string option \<Rightarrow> scheduler_registry" where
  "registry_with selected =
     \<lparr>sr_settings = enabled_settings, sr_snapshot = scheduler_snapshot_default,
      sr_runtime = persisted_state_default\<lparr>ps_selected := selected\<rparr>,
      settings_file = None, state_file = None, state_generation = 0, persisted_generation = 0,
      state_parse_failed = False, sr_reservations = \<lparr>rs_active = None, rs_reservations = []\<rparr>,
      pending = []\<rparr>"

lemma registry_with_schedules: "schedules (registry_with selected)"
  by (simp add: schedules_def registry_with_def enabled_settings_def)

definition candidate_b :: candidate where
  "candidate_b =
     \<lparr>cd_key = ''b'', manually_disabled = False, manual_priority = None, cd_remaining = Some 50,
      cd_reset = Some 8000, cd_activity = WindowActive, cd_exhausted_since = None\<rparr>"

theorem select_candidate_complete_witness:
  "select_candidate [candidate_b] 1000 = Some candidate_b \<and> eligible candidate_b"
proof -
  have "select_candidate [candidate_b] 1000 = Some candidate_b" by code_simp
  with select_candidate_complete[of "[candidate_b]" 1000] show ?thesis by simp
qed

theorem select_candidate_margin_witness:
  "\<exists>best incumbent. best_ranked [candidate_b] 1000 best \<and> least_priority [candidate_b] incumbent \<and>
    candidate_b = (if manual_priority incumbent < manual_priority best \<and>
            reset_or_max incumbent \<le> i64_saturating_add (reset_or_max best) SWITCH_MARGIN_SECS
         then incumbent else best)"
proof (rule select_candidate_margin)
  show "select_candidate [candidate_b] 1000 = Some candidate_b" by code_simp
qed

theorem scheduled_account_is_fit_witness:
  "sn_selected (sr_snapshot (reconcile (env_at 1000) pool_two (registry_with None))) = Some ''b'' \<and>
   \<not> permits (reconcile (env_at 1000) pool_two (registry_with None)) ''a''"
proof -
  have "map_option cd_key (select_candidate
      (scheduled_candidates (env_at 1000) pool_two (registry_with None)) (env_now (env_at 1000))) = Some ''b''"
    by code_simp
  then have "sn_selected (sr_snapshot (reconcile (env_at 1000) pool_two (registry_with None))) = Some ''b''"
    by (simp add: reconcile_selected registry_with_schedules)
  with scheduled_account_is_fit[OF this] show ?thesis by auto
qed

lemma scheduled_reset_eval:
  "scheduled_candidates (env_at 1000) pool_reset (registry_with (Some ''b'')) =
     [\<lparr>cd_key = ''a'', manually_disabled = False, manual_priority = Some 1, cd_remaining = Some 100,
       cd_reset = Some 7000, cd_activity = WindowActive, cd_exhausted_since = None\<rparr>,
      \<lparr>cd_key = ''b'', manually_disabled = False, manual_priority = Some 0, cd_remaining = Some 50,
       cd_reset = Some 8000, cd_activity = WindowActive, cd_exhausted_since = None\<rparr>]"
  by code_simp

theorem no_flapping_witness:
  "\<exists>cb ca. cd_key cb = ''a'' \<and> eligible cb \<and> cd_key ca = ''b'' \<and> eligible ca \<and>
     i64_saturating_add (reset_or_max cb) SWITCH_MARGIN_SECS < reset_or_max ca"
proof -
  let ?sr = "registry_with (Some ''b'')"
  let ?cs = "scheduled_candidates (env_at 1000) pool_reset ?sr"
  have el: "eligible (?cs ! 1)" "cd_key (?cs ! 1) = ''b''" by (simp_all add: scheduled_reset_eval eligible_def
      EXHAUSTION_ENTER_PERCENT_def)
  have "map_option cd_key (select_candidate ?cs (env_now (env_at 1000))) = Some ''a''"
    unfolding scheduled_reset_eval by code_simp
  then have sel: "sn_selected (sr_snapshot (reconcile (env_at 1000) pool_reset ?sr)) = Some ''a''"
    by (simp add: reconcile_selected registry_with_schedules)
  have "\<exists>cb \<in> set ?cs. cd_key cb = ''a'' \<and> eligible cb \<and>
          i64_saturating_add (reset_or_max cb) SWITCH_MARGIN_SECS < reset_or_max (?cs ! 1)"
  proof (rule no_flapping[OF _ _ _ _ el(2,1) sel])
    show "?cs ! 1 \<in> set ?cs" by (rule nth_mem) (simp add: scheduled_reset_eval)
  qed (simp_all add: registry_with_def enabled_settings_def pool_reset_def codex_member_def
         persisted_state_default_def)
  with el show ?thesis by blast
qed

lemma tightest_exhausted: "fst (tightest_window (codex_member ''a'' 98 9000)) = Some 2"
  by code_simp

theorem exhausted_account_is_held_witness:
  "sn_selected (sr_snapshot (foldl sched_step (reconcile (env_at 1000) pool_two (registry_with None))
     [SBump ''b'', SReconcile (env_at 1599) pool_reset])) \<noteq> Some ''a''"
proof -
  have "sn_selected (sr_snapshot (foldl sched_step (reconcile (env_at 1000) pool_two (registry_with None))
     [SBump ''b'', SReconcile (env_at 1599) pool_reset])) \<noteq> Some (am_id (codex_member ''a'' 98 9000))"
    by (rule exhausted_account_is_held[OF registry_with_schedules _ _ tightest_exhausted])
       (simp_all add: pool_two_def pool_reset_def codex_member_def EXHAUSTION_ENTER_PERCENT_def
         registry_with_def persisted_state_default_def within_hold_def env_at_def
         i64_saturating_sub_def i64_saturate_def i64_min_def i64_max_def MINIMUM_HOLD_SECS_def)
  then show ?thesis by (simp add: codex_member_def)
qed

definition loaded :: scheduler_registry where
  "loaded = scheduler_load (env_at 900) Some (\<lambda>_. None) (Inr enabled_settings) (Inl True) []"

theorem reservations_exclusive_witness:
  "\<not> permits (foldl sched_step loaded [SReserve ''i'' ''a'', SReserve ''j'' ''a'']) ''a''"
proof -
  let ?sr = "foldl sched_step loaded [SReserve ''i'' ''a'', SReserve ''j'' ''a'']"
  have "omap_get (rs_reservations (sr_reservations ?sr)) ''i'' = Some ''a''"
    by (simp add: loaded_def reserve_def scheduler_load_fields)
  from reservations_exclusive[OF refl[of "foldl sched_step loaded _", unfolded loaded_def],
      folded loaded_def, OF this] show ?thesis by blast
qed

theorem set_order_priorities_witness:
  "omap_get (priorities (sr_settings (snd
      (set_order (env_at 1000) [''b'', ''x'', ''a'', ''b''] pool_two (registry_with None))))) ''a'' = Some 2"
proof -
  have "fst (set_order (env_at 1000) [''b'', ''x'', ''a'', ''b''] pool_two (registry_with None)) =
      Inr (sr_snapshot (snd (set_order (env_at 1000) [''b'', ''x'', ''a'', ''b''] pool_two (registry_with None))))"
    by (simp add: set_order_def update_settings_def env_at_def Let_def)
  from set_order_priorities[OF this, of "''a''"] show ?thesis
    by (simp add: u32_max_def pool_two_def codex_member_def)
qed

definition reloaded :: scheduler_registry where
  "reloaded = scheduler_load (env_at 900) (\<lambda>_. Some enabled_settings) Some
     (Inr persisted_state_default) (Inr (persisted_state_default\<lparr>ps_selected := Some ''x''\<rparr>)) []"

lemma reloaded_eval:
  "state_generation (run_pending True 0 reloaded) = 1" "pending (run_pending True 0 reloaded) = []"
  by (simp_all add: reloaded_def scheduler_load_def load_json_def reconcile_def enabled_settings_def
      reconcile_facts_def drop_unknown_def persisted_state_default_def omap_retain_def
      select_candidate_def ranked_candidates_def prioritised_def persist_json_background_def
      env_at_def u64_wrapping_add_def run_pending_def remove_nth_def persist_generation_def Let_def)

theorem drained_state_file_is_current_witness:
  "\<exists>st. state_file (run_pending True 0 reloaded) = Some st \<and>
        same_schedule st (sr_runtime (run_pending True 0 reloaded))"
proof -
  have "foldl sched_step reloaded [SRun True 0] = run_pending True 0 reloaded" by simp
  from drained_state_file_is_current[OF this[symmetric, unfolded reloaded_def], folded reloaded_def]
  show ?thesis by (simp add: reloaded_eval env_at_def u64_max_def)
qed

text \<open>
  A failure that does not change the selection is counted in memory only: the comparison that
  decides whether to write starts after the count was raised.
\<close>

definition counted :: scheduler_registry where
  "counted = bump_failures ''b'' (registry_with (Some ''a''))"

lemma counted_runtime:
  "sr_runtime counted =
     \<lparr>version = 0, ps_selected = Some ''a'', exhausted_since_unix = [], non_auth_failures = [(''b'', 1)]\<rparr>"
  by (simp add: counted_def bump_failures_def registry_with_def persisted_state_default_def u8_max_def Let_def)

lemma counted_candidates:
  "scheduled_candidates (env_at 1000) pool_reset counted =
     [\<lparr>cd_key = ''a'', manually_disabled = False, manual_priority = Some 0, cd_remaining = Some 100,
       cd_reset = Some 7000, cd_activity = WindowActive, cd_exhausted_since = None\<rparr>,
      \<lparr>cd_key = ''b'', manually_disabled = False, manual_priority = Some 1, cd_remaining = Some 50,
       cd_reset = Some 8000, cd_activity = WindowActive, cd_exhausted_since = None\<rparr>]"
  unfolding scheduled_candidates_def counted_runtime by code_simp

lemma counted_unchanged: "scheduled_runtime (env_at 1000) pool_reset counted = sr_runtime counted"
proof -
  have "select_candidate (scheduled_candidates (env_at 1000) pool_reset counted) (env_now (env_at 1000)) =
      Some (scheduled_candidates (env_at 1000) pool_reset counted ! 0)"
    unfolding counted_candidates by code_simp
  moreover have "snd (reconcile_facts (env_now (env_at 1000)) pool_reset (sr_runtime counted)) = sr_runtime counted"
    unfolding counted_runtime by code_simp
  ultimately show ?thesis
    by (simp add: scheduled_runtime_def counted_candidates) (simp add: counted_runtime)
qed

lemma failure_count_not_written:
  "let sr = record_non_auth_failure (env_at 1000) ''b'' pool_reset (registry_with (Some ''a''))
   in omap_get (non_auth_failures (sr_runtime sr)) ''b'' = Some 1 \<and> pending sr = [] \<and>
      state_generation sr = 0 \<and> state_file sr = None"
proof -
  have "schedules counted"
    by (simp add: schedules_def counted_def bump_failures_def registry_with_def enabled_settings_def Let_def)
  then have "record_non_auth_failure (env_at 1000) ''b'' pool_reset (registry_with (Some ''a'')) =
      counted\<lparr>sr_snapshot := sr_snapshot (reconcile (env_at 1000) pool_reset counted)\<rparr>"
    unfolding record_non_auth_failure_def counted_def[symmetric]
    by (subst reconcile_publish) (simp add: reconcile_snapshot_of publish_def counted_unchanged)
  then show ?thesis
    by (simp add: counted_runtime)
       (simp add: counted_def bump_failures_def registry_with_def Let_def)
qed

end
