(* ===== verification/Strings.thy ===== *)
theory Strings
  imports Prelude "HOL-Library.Sublist"
begin

text \<open>
  The parts of Rust's \<open>str\<close> the modelled code uses. A string is its UTF-8 bytes. A
  \<open>White_Space\<close> or \<open>Cc\<close> character is recognised by its encoding; in a valid UTF-8 string an
  encoding occurs only at a character boundary, so looking for it byte-wise is looking for the
  character.
\<close>

section \<open>Character classes\<close>

definition ws_encodings :: "string list" where
  "ws_encodings =
     [[CHR 0x09], [CHR 0x0A], [CHR 0x0B], [CHR 0x0C], [CHR 0x0D], [CHR 0x20],
      [CHR 0xC2, CHR 0x85], [CHR 0xC2, CHR 0xA0], [CHR 0xE1, CHR 0x9A, CHR 0x80],
      [CHR 0xE2, CHR 0x80, CHR 0x80], [CHR 0xE2, CHR 0x80, CHR 0x81], [CHR 0xE2, CHR 0x80, CHR 0x82],
      [CHR 0xE2, CHR 0x80, CHR 0x83], [CHR 0xE2, CHR 0x80, CHR 0x84], [CHR 0xE2, CHR 0x80, CHR 0x85],
      [CHR 0xE2, CHR 0x80, CHR 0x86], [CHR 0xE2, CHR 0x80, CHR 0x87], [CHR 0xE2, CHR 0x80, CHR 0x88],
      [CHR 0xE2, CHR 0x80, CHR 0x89], [CHR 0xE2, CHR 0x80, CHR 0x8A], [CHR 0xE2, CHR 0x80, CHR 0xA8],
      [CHR 0xE2, CHR 0x80, CHR 0xA9], [CHR 0xE2, CHR 0x80, CHR 0xAF], [CHR 0xE2, CHR 0x81, CHR 0x9F],
      [CHR 0xE3, CHR 0x80, CHR 0x80]]"

definition starts_ws :: "string \<Rightarrow> bool" where
  "starts_ws s = list_ex (\<lambda>w. prefix w s) ws_encodings"

fun starts_control :: "string \<Rightarrow> bool" where
  "starts_control [] = False"
| "starts_control (c # cs) =
     (let n = of_char c :: nat in
      n < 32 \<or> n = 127 \<or>
      n = 0xC2 \<and> (case cs of [] \<Rightarrow> False | d # _ \<Rightarrow> 0x80 \<le> (of_char d :: nat) \<and> (of_char d :: nat) < 0xA0))"

text \<open>\<open>s.chars().any(..)\<close> for a predicate on the bytes from a character on.\<close>

fun str_any :: "(string \<Rightarrow> bool) \<Rightarrow> string \<Rightarrow> bool" where
  "str_any P [] = False"
| "str_any P (c # cs) = (P (c # cs) \<or> str_any P cs)"

definition has_ws_or_control :: "string \<Rightarrow> bool" where
  "has_ws_or_control s = str_any (\<lambda>t. starts_ws t \<or> starts_control t) s"

section \<open>Trimming\<close>

definition strip_ws :: "string \<Rightarrow> string option" where
  "strip_ws s = map_option (\<lambda>w. drop (length w) s) (find (\<lambda>w. prefix w s) ws_encodings)"

lemma ws_encodings_nonempty: "w \<in> set ws_encodings \<Longrightarrow> w \<noteq> []"
  by (auto simp: ws_encodings_def)

lemma strip_ws_shorter:
  assumes "strip_ws s = Some t"
  shows "length t < length s"
proof -
  from assms obtain w where w: "find (\<lambda>w. prefix w s) ws_encodings = Some w" "t = drop (length w) s"
    by (auto simp: strip_ws_def)
  then have "w \<in> set ws_encodings" "prefix w s" by (auto simp: find_Some_iff)
  then have "w \<noteq> []" "length w \<le> length s"
    by (auto dest: ws_encodings_nonempty prefix_length_le)
  with w(2) show ?thesis by (cases w) auto
qed

function trim_start :: "string \<Rightarrow> string" where
  "trim_start s = (case strip_ws s of None \<Rightarrow> s | Some t \<Rightarrow> trim_start t)"
  by auto
termination by (relation "measure length") (auto dest: strip_ws_shorter)

definition strip_ws_end :: "string \<Rightarrow> string option" where
  "strip_ws_end s = map_option (\<lambda>w. take (length s - length w) s) (find (\<lambda>w. suffix w s) ws_encodings)"

lemma strip_ws_end_shorter:
  assumes "strip_ws_end s = Some t"
  shows "length t < length s"
proof -
  from assms obtain w where w: "find (\<lambda>w. suffix w s) ws_encodings = Some w"
    "t = take (length s - length w) s"
    by (auto simp: strip_ws_end_def)
  then have "w \<in> set ws_encodings" "suffix w s" by (auto simp: find_Some_iff)
  then have "w \<noteq> []" "length w \<le> length s"
    by (auto dest: ws_encodings_nonempty suffix_length_le)
  with w(2) show ?thesis by (cases w) auto
qed

function trim_end :: "string \<Rightarrow> string" where
  "trim_end s = (case strip_ws_end s of None \<Rightarrow> s | Some t \<Rightarrow> trim_end t)"
  by auto
termination by (relation "measure length") (auto dest: strip_ws_end_shorter)

declare trim_start.simps [simp del] trim_end.simps [simp del]

definition trim :: "string \<Rightarrow> string" where
  "trim s = trim_end (trim_start s)"

section \<open>Searching and rewriting\<close>

definition ascii_lower :: "char \<Rightarrow> char" where
  "ascii_lower c =
     (let n = of_char c :: nat in if 65 \<le> n \<and> n \<le> 90 then char_of (n + 32) else c)"

definition to_ascii_lowercase :: "string \<Rightarrow> string" where
  "to_ascii_lowercase s = map ascii_lower s"

definition str_contains :: "string \<Rightarrow> string \<Rightarrow> bool" where
  "str_contains needle s = (needle = [] \<or> str_any (prefix needle) s)"

definition starts_with :: "string \<Rightarrow> string \<Rightarrow> bool" where
  "starts_with p s = prefix p s"

definition strip_prefix :: "string \<Rightarrow> string \<Rightarrow> string option" where
  "strip_prefix p s = (if prefix p s then Some (drop (length p) s) else None)"

definition replace_char :: "char \<Rightarrow> char \<Rightarrow> string \<Rightarrow> string" where
  "replace_char a b s = map (\<lambda>c. if c = a then b else c) s"

fun split_once :: "char \<Rightarrow> string \<Rightarrow> (string \<times> string) option" where
  "split_once d [] = None"
| "split_once d (c # cs) =
     (if c = d then Some ([], cs)
      else map_option (\<lambda>(a, b). (c # a, b)) (split_once d cs))"

text \<open>The decimal rendering of an unsigned integer.\<close>

fun dec_of_nat :: "nat \<Rightarrow> string" where
  "dec_of_nat n =
     (if n < 10 then [char_of (48 + n)] else dec_of_nat (n div 10) @ [char_of (48 + n mod 10)])"

declare dec_of_nat.simps [simp del]

section \<open>Facts\<close>

lemma str_any_suffix: "suffix t s \<Longrightarrow> t \<noteq> [] \<Longrightarrow> P t \<Longrightarrow> str_any P s"
proof (induction s)
  case (Cons c cs)
  then show ?case by (auto simp: suffix_Cons)
qed simp

lemma str_any_mono: "str_any P s \<Longrightarrow> (\<And>t. P t \<Longrightarrow> Q t) \<Longrightarrow> str_any Q s"
  by (induction s) auto

lemma starts_ws_enc: "w \<in> set ws_encodings \<Longrightarrow> starts_ws (w @ t)"
  unfolding starts_ws_def list_ex_iff by (rule bexI[of _ w]) simp_all

lemma trim_start_id:
  assumes "\<not> str_any starts_ws s"
  shows "trim_start s = s"
proof -
  have "find (\<lambda>w. prefix w s) ws_encodings = None"
    unfolding find_None_iff
  proof
    assume "\<exists>w. w \<in> set ws_encodings \<and> prefix w s"
    then obtain w where "w \<in> set ws_encodings" "prefix w s" by blast
    then have "starts_ws s" "s \<noteq> []"
      using ws_encodings_nonempty[of w] by (auto simp: starts_ws_def list_ex_iff)
    with assms show False by (cases s) auto
  qed
  then show ?thesis by (subst trim_start.simps) (simp add: strip_ws_def)
qed

lemma trim_end_id:
  assumes "\<not> str_any starts_ws s"
  shows "trim_end s = s"
proof -
  have "find (\<lambda>w. suffix w s) ws_encodings = None"
    unfolding find_None_iff
  proof
    assume "\<exists>w. w \<in> set ws_encodings \<and> suffix w s"
    then obtain w where w: "w \<in> set ws_encodings" "suffix w s" by blast
    then have "starts_ws w" "w \<noteq> []"
      using starts_ws_enc[of w "[]"] ws_encodings_nonempty[of w] by auto
    from str_any_suffix[of w s starts_ws, OF w(2) this(2,1)] assms show False by simp
  qed
  then show ?thesis by (subst trim_end.simps) (simp add: strip_ws_end_def)
qed

lemma trim_id: "\<not> has_ws_or_control s \<Longrightarrow> trim s = s"
proof -
  assume "\<not> has_ws_or_control s"
  then have "\<not> str_any starts_ws s"
    using str_any_mono[of starts_ws s "\<lambda>t. starts_ws t \<or> starts_control t"]
    unfolding has_ws_or_control_def by blast
  then show ?thesis by (simp add: trim_def trim_start_id trim_end_id)
qed

lemma split_once_Some: "split_once d s = Some (a, b) \<longleftrightarrow> s = a @ d # b \<and> d \<notin> set a"
proof (induction s arbitrary: a b)
  case (Cons c cs)
  show ?case
  proof (cases "c = d")
    case True
    then show ?thesis by (cases a) auto
  next
    case False
    then show ?thesis using Cons.IH by (cases a) auto
  qed
qed simp

lemma split_once_None: "split_once d s = None \<longleftrightarrow> d \<notin> set s"
  by (induction s) auto

lemma dec_of_nat_digits: "c \<in> set (dec_of_nat n) \<Longrightarrow> \<exists>d < 10. c = char_of (48 + d :: nat)"
proof (induction n rule: dec_of_nat.induct)
  case (1 n)
  show ?case
  proof (cases "n < 10")
    case True
    with "1.prems" show ?thesis by (auto simp: dec_of_nat.simps[of n])
  next
    case False
    then have "c \<in> set (dec_of_nat (n div 10)) \<or> c = char_of (48 + n mod 10)"
      using "1.prems" by (auto simp: dec_of_nat.simps[of n])
    then show ?thesis
    proof
      assume "c = char_of (48 + n mod 10)"
      moreover have "n mod 10 < 10" by simp
      ultimately show ?thesis by blast
    qed (rule "1.IH"[OF False])
  qed
qed

lemma dec_of_nat_range: "c \<in> set (dec_of_nat n) \<Longrightarrow> 48 \<le> (of_char c :: nat) \<and> (of_char c :: nat) \<le> 57"
  by (auto dest!: dec_of_nat_digits)

lemma dec_of_nat_nonempty [simp]: "dec_of_nat n \<noteq> []"
  by (subst dec_of_nat.simps) simp

text \<open>The decimal rendering is injective.\<close>

fun nat_of_dec :: "nat \<Rightarrow> string \<Rightarrow> nat" where
  "nat_of_dec acc [] = acc"
| "nat_of_dec acc (c # cs) = nat_of_dec (acc * 10 + (of_char c - 48)) cs"

lemma nat_of_dec_append: "nat_of_dec acc (xs @ ys) = nat_of_dec (nat_of_dec acc xs) ys"
  by (induction xs arbitrary: acc) auto

lemma of_char_digit: "d < 10 \<Longrightarrow> of_char (char_of (48 + d :: nat)) - 48 = d"
  by simp

lemma nat_of_dec_dec_of_nat [simp]: "nat_of_dec 0 (dec_of_nat n) = n"
proof (induction n rule: dec_of_nat.induct)
  case (1 n)
  show ?case
  proof (cases "n < 10")
    case True
    then show ?thesis by (simp add: dec_of_nat.simps[of n])
  next
    case False
    have "nat_of_dec 0 (dec_of_nat n) =
        nat_of_dec 0 (dec_of_nat (n div 10)) * 10 + (of_char (char_of (48 + n mod 10)) - 48)"
      unfolding dec_of_nat.simps[of n] using False by (simp add: nat_of_dec_append)
    also have "\<dots> = n div 10 * 10 + n mod 10"
      using "1.IH"[OF False] of_char_digit[of "n mod 10"] by simp
    finally show ?thesis by simp
  qed
qed

lemma dec_of_nat_inject [simp]: "dec_of_nat m = dec_of_nat n \<longleftrightarrow> m = n"
  by (metis nat_of_dec_dec_of_nat)

end
