(* ===== verification/Registry_Types.thy ===== *)
theory Registry_Types
  imports Strings
begin

text \<open>
  The domain types of the model registry, \<^verbatim>\<open>crates/registry/src/lib.rs\<close>: identifiers and their
  validation, catalog sources and their precedence, authority masks, capabilities, provider
  bindings with their merge, and model descriptors. A \<open>BTreeSet\<close> of capabilities is a finite
  set; the derived orders of the identifier and rule types are those of their fields.
\<close>

section \<open>Identifiers\<close>

datatype provider_id = ProviderId (pid_str: string)
datatype model_id = ModelId (mid_str: string)

instantiation provider_id :: linorder
begin

definition less_eq_provider_id :: "provider_id \<Rightarrow> provider_id \<Rightarrow> bool" where
  "less_eq_provider_id a b = (pid_str a \<le> pid_str b)"

definition less_provider_id :: "provider_id \<Rightarrow> provider_id \<Rightarrow> bool" where
  "less_provider_id a b = (pid_str a < pid_str b)"

instance
  by standard (auto simp: less_eq_provider_id_def less_provider_id_def provider_id.expand)

end

instantiation model_id :: linorder
begin

definition less_eq_model_id :: "model_id \<Rightarrow> model_id \<Rightarrow> bool" where
  "less_eq_model_id a b = (mid_str a \<le> mid_str b)"

definition less_model_id :: "model_id \<Rightarrow> model_id \<Rightarrow> bool" where
  "less_model_id a b = (mid_str a < mid_str b)"

instance
  by standard (auto simp: less_eq_model_id_def less_model_id_def model_id.expand)

end

section \<open>Sources, policies, capabilities\<close>

type_synonym catalog_version = nat

datatype catalog_source = EmbeddedFallback | LkgCache | RemoteSigned | Discovered | LocalOverride

fun precedence :: "catalog_source \<Rightarrow> nat" where
  "precedence EmbeddedFallback = 1"
| "precedence LkgCache = 2"
| "precedence RemoteSigned = 3"
| "precedence Discovered = 4"
| "precedence LocalOverride = 5"

definition is_higher_precedence_than :: "catalog_source \<Rightarrow> catalog_source \<Rightarrow> bool" where
  "is_higher_precedence_than a b \<longleftrightarrow> precedence a > precedence b"

fun catalog_source_display :: "catalog_source \<Rightarrow> string" where
  "catalog_source_display EmbeddedFallback = ''embedded_fallback''"
| "catalog_source_display LkgCache = ''lkg_cache''"
| "catalog_source_display RemoteSigned = ''remote_signed''"
| "catalog_source_display Discovered = ''discovered''"
| "catalog_source_display LocalOverride = ''local_override''"

datatype provider_policy = PolicyClosed | PolicyDiscovered | PolicyOpen

fun provider_policy_display :: "provider_policy \<Rightarrow> string" where
  "provider_policy_display PolicyClosed = ''closed''"
| "provider_policy_display PolicyDiscovered = ''discovered''"
| "provider_policy_display PolicyOpen = ''open''"

datatype model_capability =
    Chat | Image | Video | Realtime | CountTokens | Embedding | Audio | Tools

fun capability_as_str :: "model_capability \<Rightarrow> string" where
  "capability_as_str Chat = ''chat''"
| "capability_as_str Image = ''image''"
| "capability_as_str Video = ''video''"
| "capability_as_str Realtime = ''realtime''"
| "capability_as_str CountTokens = ''count_tokens''"
| "capability_as_str Embedding = ''embedding''"
| "capability_as_str Audio = ''audio''"
| "capability_as_str Tools = ''tools''"

definition capability_from_str_loose :: "string \<Rightarrow> model_capability option" where
  "capability_from_str_loose s =
     (let n = replace_char (CHR ''-'') (CHR ''_'') (to_ascii_lowercase (trim s)) in
      if n \<in> {''chat'', ''text'', ''completions''} then Some Chat
      else if n \<in> {''image'', ''images''} then Some Image
      else if n \<in> {''video'', ''videos''} then Some Video
      else if n = ''realtime'' then Some Realtime
      else if n \<in> {''count_tokens'', ''counttokens'', ''tokenize''} then Some CountTokens
      else if n \<in> {''embedding'', ''embeddings''} then Some Embedding
      else if n = ''audio'' then Some Audio
      else if n \<in> {''tools'', ''function_calling''} then Some Tools
      else None)"

section \<open>Errors\<close>

datatype registry_error =
    EmptyProviderId
  | InvalidProviderId string string
  | EmptyModelId
  | InvalidModelId string string
  | UnknownModel model_id
  | UnknownProvider provider_id
  | AliasCycle model_id "model_id list"
  | AliasDepthExceeded model_id nat nat
  | UnknownAliasTarget model_id model_id
  | DuplicateAlias model_id
  | DuplicateBinding model_id provider_id
  | UnauthorizedContribution provider_id provider_policy model_id
  | ModelExcluded model_id
  | NoRoutableModels
  | ProviderBlackout provider_id
  | SerializationError string
  | DeserializationError string

definition provider_id_new :: "string \<Rightarrow> registry_error + provider_id" where
  "provider_id_new raw =
     (let trimmed = trim raw in
      if trimmed = [] then Inl EmptyProviderId
      else if has_ws_or_control raw
      then Inl (InvalidProviderId raw ''provider id must not contain whitespace or control characters'')
      else Inr (ProviderId trimmed))"

definition provider_id_canonical :: "string \<Rightarrow> registry_error + provider_id" where
  "provider_id_canonical s =
     (let lower = to_ascii_lowercase (trim s)
      in provider_id_new
           (if lower = ''openai'' then ''codex''
            else if lower = ''anthropic'' then ''claude''
            else if lower = ''google-vertex'' then ''vertex''
            else lower))"

definition model_id_new :: "string \<Rightarrow> registry_error + model_id" where
  "model_id_new raw =
     (let trimmed = trim raw in
      if trimmed = [] then Inl EmptyModelId
      else if has_ws_or_control raw
      then Inl (InvalidModelId raw ''model id must not contain whitespace or control characters'')
      else Inr (ModelId trimmed))"

definition pid_codex :: provider_id where "pid_codex = ProviderId ''codex''"
definition pid_antigravity :: provider_id where "pid_antigravity = ProviderId ''antigravity''"
definition pid_claude :: provider_id where "pid_claude = ProviderId ''claude''"
definition pid_cursor :: provider_id where "pid_cursor = ProviderId ''cursor''"
definition pid_devin :: provider_id where "pid_devin = ProviderId ''devin''"
definition pid_kiro :: provider_id where "pid_kiro = ProviderId ''kiro''"
definition pid_opencode :: provider_id where "pid_opencode = ProviderId ''opencode''"
definition pid_vertex :: provider_id where "pid_vertex = ProviderId ''vertex''"
definition pid_zcode :: provider_id where "pid_zcode = ProviderId ''zcode''"

section \<open>Authority masks\<close>

record authority_mask =
  au_models :: bool
  au_capabilities :: bool
  au_aliases :: bool
  au_prefixes :: bool
  au_upstream_id :: bool

definition AUTHORITY_NONE :: authority_mask where
  "AUTHORITY_NONE = \<lparr>au_models = False, au_capabilities = False, au_aliases = False,
                     au_prefixes = False, au_upstream_id = False\<rparr>"

definition AUTHORITY_ALL :: authority_mask where
  "AUTHORITY_ALL = \<lparr>au_models = True, au_capabilities = True, au_aliases = True,
                    au_prefixes = True, au_upstream_id = True\<rparr>"

definition AUTHORITY_MODELS_ONLY :: authority_mask where
  "AUTHORITY_MODELS_ONLY = \<lparr>au_models = True, au_capabilities = False, au_aliases = False,
                            au_prefixes = False, au_upstream_id = False\<rparr>"

definition AUTHORITY_CAPABILITIES_ONLY :: authority_mask where
  "AUTHORITY_CAPABILITIES_ONLY = \<lparr>au_models = False, au_capabilities = True, au_aliases = False,
                                  au_prefixes = False, au_upstream_id = False\<rparr>"

definition authority_union :: "authority_mask \<Rightarrow> authority_mask \<Rightarrow> authority_mask" where
  "authority_union a b =
     \<lparr>au_models = (au_models a \<or> au_models b),
      au_capabilities = (au_capabilities a \<or> au_capabilities b),
      au_aliases = (au_aliases a \<or> au_aliases b),
      au_prefixes = (au_prefixes a \<or> au_prefixes b),
      au_upstream_id = (au_upstream_id a \<or> au_upstream_id b)\<rparr>"

definition au_with_models :: "bool \<Rightarrow> authority_mask \<Rightarrow> authority_mask" where
  "au_with_models v a = a\<lparr>au_models := v\<rparr>"

definition au_with_capabilities :: "bool \<Rightarrow> authority_mask \<Rightarrow> authority_mask" where
  "au_with_capabilities v a = a\<lparr>au_capabilities := v\<rparr>"

definition au_with_aliases :: "bool \<Rightarrow> authority_mask \<Rightarrow> authority_mask" where
  "au_with_aliases v a = a\<lparr>au_aliases := v\<rparr>"

definition au_with_prefixes :: "bool \<Rightarrow> authority_mask \<Rightarrow> authority_mask" where
  "au_with_prefixes v a = a\<lparr>au_prefixes := v\<rparr>"

definition au_with_upstream_id :: "bool \<Rightarrow> authority_mask \<Rightarrow> authority_mask" where
  "au_with_upstream_id v a = a\<lparr>au_upstream_id := v\<rparr>"

section \<open>Bindings\<close>

record provider_binding =
  pb_provider_id :: provider_id
  pb_policy :: provider_policy
  pb_source :: catalog_source
  pb_upstream_model_id :: "string option"
  pb_capabilities :: "model_capability set"
  pb_authority :: authority_mask
  pb_priority :: int

definition provider_binding_new ::
  "provider_id \<Rightarrow> provider_policy \<Rightarrow> catalog_source \<Rightarrow> provider_binding" where
  "provider_binding_new p policy source =
     \<lparr>pb_provider_id = p, pb_policy = policy, pb_source = source, pb_upstream_model_id = None,
      pb_capabilities = {}, pb_authority = AUTHORITY_ALL, pb_priority = 0\<rparr>"

definition pb_with_capabilities :: "model_capability set \<Rightarrow> provider_binding \<Rightarrow> provider_binding" where
  "pb_with_capabilities caps b = b\<lparr>pb_capabilities := caps\<rparr>"

definition pb_with_upstream_id :: "string \<Rightarrow> provider_binding \<Rightarrow> provider_binding" where
  "pb_with_upstream_id i b = b\<lparr>pb_upstream_model_id := Some i\<rparr>"

definition pb_with_priority :: "int \<Rightarrow> provider_binding \<Rightarrow> provider_binding" where
  "pb_with_priority p b = b\<lparr>pb_priority := p\<rparr>"

definition pb_with_authority :: "authority_mask \<Rightarrow> provider_binding \<Rightarrow> provider_binding" where
  "pb_with_authority a b = b\<lparr>pb_authority := a\<rparr>"

definition effective_upstream_id :: "provider_binding \<Rightarrow> model_id \<Rightarrow> string" where
  "effective_upstream_id b fallback =
     (case pb_upstream_model_id b of None \<Rightarrow> mid_str fallback | Some u \<Rightarrow> u)"

definition incoming_wins :: "provider_binding \<Rightarrow> provider_binding \<Rightarrow> bool" where
  "incoming_wins self inc \<longleftrightarrow>
     is_higher_precedence_than (pb_source inc) (pb_source self) \<or>
     (pb_source self = pb_source inc \<and> pb_priority inc > pb_priority self)"

definition merge_with :: "provider_binding \<Rightarrow> provider_binding \<Rightarrow> provider_binding" where
  "merge_with self inc =
     (let merged =
        (if incoming_wins self inc then
           self\<lparr>pb_capabilities :=
                  (if au_capabilities (pb_authority inc) then pb_capabilities inc
                   else pb_capabilities self),
                pb_upstream_model_id :=
                  (if au_upstream_id (pb_authority inc) \<and> pb_upstream_model_id inc \<noteq> None
                   then pb_upstream_model_id inc else pb_upstream_model_id self),
                pb_source := pb_source inc,
                pb_priority := pb_priority inc,
                pb_policy := pb_policy inc\<rparr>
         else if pb_source self = pb_source inc \<and> pb_priority inc = pb_priority self then
           self\<lparr>pb_capabilities :=
                  (if au_capabilities (pb_authority inc)
                   then pb_capabilities self \<union> pb_capabilities inc else pb_capabilities self),
                pb_upstream_model_id :=
                  (if au_upstream_id (pb_authority inc) \<and> pb_upstream_model_id self = None
                   then pb_upstream_model_id inc else pb_upstream_model_id self)\<rparr>
         else
           self\<lparr>pb_capabilities :=
                  (if \<not> au_capabilities (pb_authority self) \<and> au_capabilities (pb_authority inc)
                   then pb_capabilities inc else pb_capabilities self),
                pb_upstream_model_id :=
                  (if \<not> au_upstream_id (pb_authority self) \<and> au_upstream_id (pb_authority inc) \<and>
                      pb_upstream_model_id inc \<noteq> None
                   then pb_upstream_model_id inc else pb_upstream_model_id self)\<rparr>)
      in merged\<lparr>pb_authority := authority_union (pb_authority self) (pb_authority inc)\<rparr>)"

section \<open>Descriptors\<close>

record thinking_support =
  th_min :: int
  th_max :: int
  zero_allowed :: bool
  dynamic_allowed :: bool
  th_levels :: "string list"

datatype thinking_capability = ThinkingUnknown | ThinkingUnsupported | ThinkingSupported thinking_support

record model_descriptor =
  md_id :: model_id
  owned_by :: string
  display_name :: "string option"
  md_capabilities :: "model_capability set"
  md_bindings :: "(provider_id, provider_binding) omap"
  md_aliases :: "model_id oset"
  metadata :: "(string, string) omap"

definition model_descriptor_new :: "model_id \<Rightarrow> string \<Rightarrow> model_descriptor" where
  "model_descriptor_new i owner =
     \<lparr>md_id = i, owned_by = owner, display_name = None, md_capabilities = {}, md_bindings = [],
      md_aliases = [], metadata = []\<rparr>"

definition md_with_display_name :: "string \<Rightarrow> model_descriptor \<Rightarrow> model_descriptor" where
  "md_with_display_name n d = d\<lparr>display_name := Some n\<rparr>"

definition md_with_capabilities :: "model_capability set \<Rightarrow> model_descriptor \<Rightarrow> model_descriptor" where
  "md_with_capabilities caps d = d\<lparr>md_capabilities := caps\<rparr>"

definition with_binding :: "provider_binding \<Rightarrow> model_descriptor \<Rightarrow> model_descriptor" where
  "with_binding b d = d\<lparr>md_bindings := omap_insert (pb_provider_id b) b (md_bindings d)\<rparr>"

definition with_alias :: "model_id \<Rightarrow> model_descriptor \<Rightarrow> model_descriptor" where
  "with_alias a d = d\<lparr>md_aliases := oset_insert a (md_aliases d)\<rparr>"

definition effective_capabilities :: "model_descriptor \<Rightarrow> model_capability set" where
  "effective_capabilities d =
     foldl (\<lambda>caps b. caps \<union> pb_capabilities b) (md_capabilities d) (omap_values (md_bindings d))"

definition has_capability :: "model_descriptor \<Rightarrow> model_capability \<Rightarrow> bool" where
  "has_capability d cap \<longleftrightarrow> cap \<in> effective_capabilities d"

definition binding_for :: "model_descriptor \<Rightarrow> provider_id \<Rightarrow> provider_binding option" where
  "binding_for d p = omap_get (md_bindings d) p"

definition thinking_levels :: "string list" where
  "thinking_levels = [''none'', ''auto'', ''minimal'', ''low'', ''medium'', ''high'', ''xhigh'', ''max'']"

text \<open>\<open>parse\<close> is the JSON parser for an optional profile; \<open>Inr None\<close> is a JSON \<open>null\<close>.\<close>

definition thinking_capability_of ::
  "(string \<Rightarrow> string + thinking_support option) \<Rightarrow> model_descriptor \<Rightarrow> string \<Rightarrow>
   registry_error + thinking_capability" where
  "thinking_capability_of parse d provider =
     (let key = ''thinking.'' @ provider in
      case omap_get (metadata d) key of
        None \<Rightarrow> Inr ThinkingUnknown
      | Some raw \<Rightarrow>
          (case parse raw of
             Inl err \<Rightarrow> Inl (DeserializationError (mid_str (md_id d) @ '' '' @ key @ '': '' @ err))
           | Inr None \<Rightarrow> Inr ThinkingUnsupported
           | Inr (Some support) \<Rightarrow>
               if th_min support < 0 \<or> th_max support < th_min support \<or>
                  list_ex (\<lambda>level. level \<notin> set thinking_levels) (th_levels support)
               then Inl (DeserializationError
                      (mid_str (md_id d) @ '' '' @ key @ '': invalid thinking profile''))
               else Inr (ThinkingSupported support)))"

record discovered_model =
  dm_id :: model_id
  dm_capabilities :: "model_capability set"
  context_limit :: "nat option"
  dm_authority :: authority_mask

definition discovered_model_new :: "model_id \<Rightarrow> discovered_model" where
  "discovered_model_new i =
     \<lparr>dm_id = i, dm_capabilities = {}, context_limit = None, dm_authority = AUTHORITY_ALL\<rparr>"

definition dm_with_capabilities :: "model_capability set \<Rightarrow> discovered_model \<Rightarrow> discovered_model" where
  "dm_with_capabilities caps d = d\<lparr>dm_capabilities := caps\<rparr>"

definition dm_with_context_limit :: "nat \<Rightarrow> discovered_model \<Rightarrow> discovered_model" where
  "dm_with_context_limit limit d = d\<lparr>context_limit := Some limit\<rparr>"

definition dm_with_authority :: "authority_mask \<Rightarrow> discovered_model \<Rightarrow> discovered_model" where
  "dm_with_authority a d = d\<lparr>dm_authority := a\<rparr>"

record model_alias_rule =
  ar_alias :: model_id
  ar_target :: model_id
  ar_provider_id :: "provider_id option"

datatype model_exclusion_rule =
  ModelExclusionRule (ex_model_id: model_id) (ex_provider_id: "provider_id option")

instantiation model_exclusion_rule :: linorder
begin

definition less_eq_model_exclusion_rule :: "model_exclusion_rule \<Rightarrow> model_exclusion_rule \<Rightarrow> bool" where
  "less_eq_model_exclusion_rule a b =
     ((ex_model_id a, ex_provider_id a) \<le> (ex_model_id b, ex_provider_id b))"

definition less_model_exclusion_rule :: "model_exclusion_rule \<Rightarrow> model_exclusion_rule \<Rightarrow> bool" where
  "less_model_exclusion_rule a b =
     ((ex_model_id a, ex_provider_id a) < (ex_model_id b, ex_provider_id b))"

instance
proof
  fix a b c :: model_exclusion_rule
  show "(a < b) = (a \<le> b \<and> \<not> b \<le> a)"
    unfolding less_eq_model_exclusion_rule_def less_model_exclusion_rule_def by (rule less_le_not_le)
  show "a \<le> a"
    unfolding less_eq_model_exclusion_rule_def by (rule order_refl)
  show "a \<le> b \<Longrightarrow> b \<le> c \<Longrightarrow> a \<le> c"
    unfolding less_eq_model_exclusion_rule_def by (rule order_trans)
  show "a \<le> b \<Longrightarrow> b \<le> a \<Longrightarrow> a = b"
    unfolding less_eq_model_exclusion_rule_def
    by (metis model_exclusion_rule.expand order_antisym prod.inject)
  show "a \<le> b \<or> b \<le> a"
    unfolding less_eq_model_exclusion_rule_def by (rule linear)
qed

end

section \<open>Facts\<close>

lemma provider_id_new_Inr:
  "provider_id_new s = Inr p \<longleftrightarrow> s \<noteq> [] \<and> \<not> has_ws_or_control s \<and> p = ProviderId s"
  by (auto simp: provider_id_new_def Let_def trim_id has_ws_or_control_def)

lemma model_id_new_Inr:
  "model_id_new s = Inr m \<longleftrightarrow> s \<noteq> [] \<and> \<not> has_ws_or_control s \<and> m = ModelId s"
  by (auto simp: model_id_new_def Let_def trim_id has_ws_or_control_def)

lemma set_effective_capabilities:
  "effective_capabilities d =
     md_capabilities d \<union> (\<Union>b \<in> set (omap_values (md_bindings d)). pb_capabilities b)"
proof -
  have "foldl (\<lambda>caps b. caps \<union> pb_capabilities b) c bs = c \<union> (\<Union>b \<in> set bs. pb_capabilities b)" for c bs
    by (induction bs arbitrary: c) auto
  from this[of "md_capabilities d" "omap_values (md_bindings d)"] show ?thesis
    by (simp only: effective_capabilities_def)
qed

lemma precedence_inject: "precedence a = precedence b \<longleftrightarrow> a = b"
  by (cases a; cases b) simp_all

lemma authority_union_idem [simp]: "authority_union a a = a"
  by (simp add: authority_union_def)

lemma authority_union_assoc:
  "authority_union (authority_union a b) c = authority_union a (authority_union b c)"
  by (simp add: authority_union_def)

lemma authority_union_commute: "authority_union a b = authority_union b a"
  by (auto simp: authority_union_def)

lemma merge_with_authority [simp]:
  "pb_authority (merge_with a b) = authority_union (pb_authority a) (pb_authority b)"
  by (simp add: merge_with_def)

lemma merge_with_provider [simp]: "pb_provider_id (merge_with a b) = pb_provider_id a"
  by (simp add: merge_with_def)

lemma merge_with_idem: "merge_with b b = b"
  by (simp add: merge_with_def incoming_wins_def is_higher_precedence_than_def)

end
