(* ===== verification/Registry_Contribution.thy ===== *)
theory Registry_Contribution
  imports Registry_Types
begin

text \<open>
  What one provider contributes to the registry: \<open>ProviderContribution\<close> of
  \<^verbatim>\<open>crates/registry/src/lib.rs\<close>, with its model lookup. \<open>capability_profile\<close> calls itself on
  the target of an alias with nothing that bounds the chain, so it is a partial function:
  \<open>None\<close> is a call that never returns.
\<close>

section \<open>Contributions\<close>

datatype contribution_item = ItemDescriptor model_descriptor | ItemDiscovered discovered_model

record provider_contribution =
  pc_provider_id :: provider_id
  pc_policy :: "provider_policy option"
  pc_models :: "contribution_item list"
  pc_aliases :: "model_alias_rule list"

definition contribution_new :: "provider_id \<Rightarrow> contribution_item list \<Rightarrow> provider_contribution" where
  "contribution_new p items = \<lparr>pc_provider_id = p, pc_policy = None, pc_models = items, pc_aliases = []\<rparr>"

definition pc_with_policy :: "provider_policy \<Rightarrow> provider_contribution \<Rightarrow> provider_contribution" where
  "pc_with_policy policy c = c\<lparr>pc_policy := Some policy\<rparr>"

definition pc_with_aliases :: "model_alias_rule list \<Rightarrow> provider_contribution \<Rightarrow> provider_contribution" where
  "pc_with_aliases al c = c\<lparr>pc_aliases := al\<rparr>"

definition contribution_policy :: "provider_contribution \<Rightarrow> provider_policy" where
  "contribution_policy c = (case pc_policy c of None \<Rightarrow> PolicyClosed | Some p \<Rightarrow> p)"

definition from_descriptors :: "provider_id \<Rightarrow> model_descriptor list \<Rightarrow> provider_contribution" where
  "from_descriptors p ds =
     \<lparr>pc_provider_id = p, pc_policy = None, pc_models = map ItemDescriptor ds, pc_aliases = []\<rparr>"

definition from_discovered_models :: "provider_id \<Rightarrow> discovered_model list \<Rightarrow> provider_contribution" where
  "from_discovered_models p ds =
     \<lparr>pc_provider_id = p, pc_policy = None, pc_models = map ItemDiscovered ds, pc_aliases = []\<rparr>"

definition descriptors :: "provider_contribution \<Rightarrow> model_descriptor list" where
  "descriptors c =
     List.map_filter (\<lambda>item. case item of ItemDescriptor d \<Rightarrow> Some d | ItemDiscovered _ \<Rightarrow> None) (pc_models c)"

fun item_id :: "contribution_item \<Rightarrow> model_id" where
  "item_id (ItemDescriptor d) = md_id d"
| "item_id (ItemDiscovered d) = dm_id d"

definition contributed_model_ids :: "provider_contribution \<Rightarrow> model_id list" where
  "contributed_model_ids c = map item_id (pc_models c)"

definition supported_model_ids :: "provider_contribution \<Rightarrow> string list" where
  "supported_model_ids c = map (\<lambda>i. mid_str (item_id i)) (pc_models c)"

fun item_has_prefix :: "provider_id \<Rightarrow> contribution_item \<Rightarrow> bool" where
  "item_has_prefix p (ItemDescriptor d) =
     (case binding_for d p of None \<Rightarrow> False | Some b \<Rightarrow> au_prefixes (pb_authority b))"
| "item_has_prefix p (ItemDiscovered d) = au_prefixes (dm_authority d)"

definition has_prefix_support :: "provider_contribution \<Rightarrow> bool" where
  "has_prefix_support c = list_ex (item_has_prefix (pc_provider_id c)) (pc_models c)"

section \<open>Lookup\<close>

definition unstripped_kiro :: "string \<Rightarrow> string" where
  "unstripped_kiro model = (case strip_prefix ''kiro/'' model of None \<Rightarrow> model | Some m \<Rightarrow> m)"

definition upstream_matches :: "provider_id \<Rightarrow> model_descriptor \<Rightarrow> string \<Rightarrow> bool" where
  "upstream_matches p d model =
     (case binding_for d p of None \<Rightarrow> False
      | Some b \<Rightarrow>
          let upstream = effective_upstream_id b (md_id d)
          in upstream = model \<or> upstream = unstripped_kiro model)"

fun item_supports :: "provider_id \<Rightarrow> string \<Rightarrow> contribution_item \<Rightarrow> bool" where
  "item_supports p model (ItemDescriptor d) =
     (mid_str (md_id d) = model \<or> upstream_matches p d model \<or>
      mid_str (md_id d) = ''kiro/'' @ unstripped_kiro model \<or>
      list_ex (\<lambda>a. mid_str a = model) (md_aliases d))"
| "item_supports p model (ItemDiscovered d) = (mid_str (dm_id d) = model)"

definition vertex_prefix :: "provider_contribution \<Rightarrow> string \<Rightarrow> bool" where
  "vertex_prefix c model \<longleftrightarrow>
     pc_provider_id c = pid_vertex \<and> has_prefix_support c \<and>
     (starts_with ''gemini-'' model \<or> starts_with ''google/'' model)"

definition supports_model :: "provider_contribution \<Rightarrow> string \<Rightarrow> bool" where
  "supports_model c model =
     (if list_ex (item_supports (pc_provider_id c) model) (pc_models c) then True
      else if list_ex (\<lambda>a. mid_str (ar_alias a) = model) (pc_aliases c) then True
      else vertex_prefix c model)"

fun item_profile :: "provider_id \<Rightarrow> string \<Rightarrow> contribution_item \<Rightarrow> model_capability set option" where
  "item_profile p model (ItemDescriptor d) =
     (if mid_str (md_id d) = model \<or> upstream_matches p d model \<or>
         list_ex (\<lambda>a. mid_str a = model) (md_aliases d)
      then Some (effective_capabilities d) else None)"
| "item_profile p model (ItemDiscovered d) =
     (if mid_str (dm_id d) = model then Some (dm_capabilities d) else None)"

fun first_profile :: "provider_id \<Rightarrow> string \<Rightarrow> contribution_item list \<Rightarrow> model_capability set option" where
  "first_profile p model [] = None"
| "first_profile p model (i # is') =
     (case item_profile p model i of Some caps \<Rightarrow> Some caps | None \<Rightarrow> first_profile p model is')"

partial_function (option) capability_profile ::
  "provider_contribution \<Rightarrow> string \<Rightarrow> model_capability set option option" where
  "capability_profile c model =
     (case first_profile (pc_provider_id c) model (pc_models c) of
        Some caps \<Rightarrow> Some (Some caps)
      | None \<Rightarrow>
          (case find (\<lambda>a. mid_str (ar_alias a) = model) (pc_aliases c) of
             Some a \<Rightarrow> capability_profile c (mid_str (ar_target a))
           | None \<Rightarrow> Some (if vertex_prefix c model then Some {Chat, Tools} else None)))"

section \<open>Facts\<close>

lemma item_profile_supports: "item_profile p model i = Some caps \<Longrightarrow> item_supports p model i"
  by (cases i) (auto split: if_splits)

lemma first_profile_supports:
  "first_profile p model is = Some caps \<Longrightarrow> list_ex (item_supports p model) is"
  by (induction "is") (auto split: option.splits dest: item_profile_supports)

text \<open>\<open>capability_profile\<close> knows the capabilities of supported models only.\<close>

lemma capability_profile_supported:
  assumes "capability_profile c model = Some (Some caps)"
  shows "supports_model c model"
proof (rule ccontr)
  assume no: "\<not> supports_model c model"
  then have "first_profile (pc_provider_id c) model (pc_models c) = None"
    using first_profile_supports[of "pc_provider_id c" model "pc_models c"]
    by (cases "first_profile (pc_provider_id c) model (pc_models c)")
       (auto simp: supports_model_def split: if_splits)
  moreover have "find (\<lambda>a. mid_str (ar_alias a) = model) (pc_aliases c) = None"
    using no by (auto simp: supports_model_def find_None_iff list_ex_iff split: if_splits)
  moreover have "\<not> vertex_prefix c model" using no by (simp add: supports_model_def split: if_splits)
  ultimately show False using assms by (simp add: capability_profile.simps)
qed

text \<open>The aliases of a contribution as a chain: each link is the first rule for a name.\<close>

definition alias_next :: "provider_contribution \<Rightarrow> string \<Rightarrow> string option" where
  "alias_next c model =
     (if first_profile (pc_provider_id c) model (pc_models c) = None
      then map_option (\<lambda>a. mid_str (ar_target a)) (find (\<lambda>a. mid_str (ar_alias a) = model) (pc_aliases c))
      else None)"

fun alias_iter :: "provider_contribution \<Rightarrow> nat \<Rightarrow> string \<Rightarrow> string option" where
  "alias_iter c 0 model = Some model"
| "alias_iter c (Suc n) model = Option.bind (alias_next c model) (alias_iter c n)"

lemma capability_profile_end:
  assumes "alias_next c model = None"
  shows "\<exists>r. capability_profile c model = Some r"
  using assms
  by (subst capability_profile.simps) (auto simp: alias_next_def split: option.splits if_splits)

lemma capability_profile_next:
  assumes "alias_next c model = Some m"
  shows "capability_profile c model = capability_profile c m"
  using assms
  by (subst capability_profile.simps) (auto simp: alias_next_def split: option.splits if_splits)

text \<open>A chain of aliases that ends makes the lookup return.\<close>

lemma capability_profile_returns:
  "alias_iter c n model = None \<Longrightarrow> \<exists>r. capability_profile c model = Some r"
proof (induction n arbitrary: model)
  case (Suc n)
  show ?case
  proof (cases "alias_next c model")
    case None
    then show ?thesis by (rule capability_profile_end)
  next
    case (Some m)
    with Suc.prems have "alias_iter c n m = None" by simp
    from Suc.IH[OF this] capability_profile_next[OF Some] show ?thesis by simp
  qed
qed simp

text \<open>A cycle of aliases makes it run forever.\<close>

lemma capability_profile_diverges:
  assumes inv: "\<And>m. P m \<Longrightarrow> \<exists>m'. alias_next c m = Some m' \<and> P m'" and "P model"
  shows "capability_profile c model = None"
proof -
  have ind: "c' = c \<longrightarrow> \<not> P m" if "capability_profile c' m = Some r" for c' m r
  proof (rule capability_profile.raw_induct[of "\<lambda>c' m r. c' = c \<longrightarrow> \<not> P m", OF _ that])
    fix f c' m r
    assume IH: "\<And>m b y. f m b = Some y \<Longrightarrow> m = c \<longrightarrow> \<not> P b"
      and eq: "(case first_profile (pc_provider_id c') m (pc_models c') of
        None \<Rightarrow>
          (case find (\<lambda>a. mid_str (ar_alias a) = m) (pc_aliases c') of
            None \<Rightarrow> Some (if vertex_prefix c' m then Some {Chat, Tools} else None)
          | Some a \<Rightarrow> f c' (mid_str (ar_target a)))
        | Some caps \<Rightarrow> Some (Some caps)) = Some r"
    show "c' = c \<longrightarrow> \<not> P m"
    proof (intro impI notI)
      assume c: "c' = c" and "P m"
      with inv obtain m' where m': "alias_next c m = Some m'" "P m'" by blast
      then have "f c m' = Some r"
        using eq c by (auto simp: alias_next_def split: option.splits if_splits)
      from IH[OF this] m'(2) show False by simp
    qed
  qed
  show ?thesis
  proof (cases "capability_profile c model")
    case (Some r)
    from ind[OF this] assms(2) show ?thesis by blast
  qed
qed

end
