(* ===== verification/Registry_Snapshot.thy ===== *)
theory Registry_Snapshot
  imports Registry_Contribution
begin

text \<open>
  \<open>RegistrySnapshot\<close> of \<^verbatim>\<open>crates/registry/src/lib.rs\<close>: alias resolution, model resolution,
  validation, and the composition with local settings. The alias loop that \<open>resolve_alias\<close>,
  \<open>validate\<close>, \<open>validate_local_composition\<close> and \<open>RegistryBuilder::build\<close> share is \<open>alias_walk\<close>.
\<close>

section \<open>Snapshots and aliases\<close>

record resolved_model =
  canonical_id :: model_id
  rm_descriptor :: "model_descriptor option"
  eligible_bindings :: "provider_binding list"
  rm_capabilities :: "model_capability set"
  rm_source :: catalog_source

record registry_snapshot =
  rg_version :: catalog_version
  rg_source :: catalog_source
  rg_models :: "(model_id, model_descriptor) omap"
  rg_providers :: "(provider_id, provider_policy) omap"
  rg_aliases :: "(model_id, model_alias_rule) omap"
  rg_exclusions :: "model_exclusion_rule oset"

definition MAX_ALIAS_DEPTH :: nat where "MAX_ALIAS_DEPTH = 10"

definition get_model :: "registry_snapshot \<Rightarrow> model_id \<Rightarrow> model_descriptor option" where
  "get_model s i = omap_get (rg_models s) i"

function alias_walk ::
  "(model_id, model_alias_rule) omap \<Rightarrow> model_id \<Rightarrow> model_id list \<Rightarrow> model_id \<Rightarrow>
   registry_error + model_id" where
  "alias_walk al orig visited current =
     (case omap_get al current of
        None \<Rightarrow> Inr current
      | Some rule \<Rightarrow>
          if current \<in> set visited then Inl (AliasCycle orig (visited @ [current]))
          else if length visited \<ge> MAX_ALIAS_DEPTH
          then Inl (AliasDepthExceeded orig (length visited + 1) MAX_ALIAS_DEPTH)
          else alias_walk al orig (visited @ [current]) (ar_target rule))"
  by pat_completeness auto
termination
  by (relation "measure (\<lambda>(_, _, visited, _). MAX_ALIAS_DEPTH - length visited)") auto

declare alias_walk.simps [simp del]

definition resolve_alias :: "registry_snapshot \<Rightarrow> model_id \<Rightarrow> registry_error + model_id" where
  "resolve_alias s requested = alias_walk (rg_aliases s) requested [] requested"

text \<open>The check of one alias rule in the three validation loops.\<close>

definition check_alias ::
  "(model_id, model_alias_rule) omap \<Rightarrow> model_id \<Rightarrow> model_alias_rule \<Rightarrow> registry_error + model_id" where
  "check_alias al a rule =
     (if a = ar_target rule then Inl (AliasCycle a [a, ar_target rule])
      else alias_walk al a [a] (ar_target rule))"

section \<open>Resolving a model\<close>

definition globally_excluded :: "registry_snapshot \<Rightarrow> model_id \<Rightarrow> bool" where
  "globally_excluded s m \<longleftrightarrow> ModelExclusionRule m None \<in> set (rg_exclusions s)"

definition excluded_for :: "registry_snapshot \<Rightarrow> model_id \<Rightarrow> provider_id \<Rightarrow> bool" where
  "excluded_for s m p \<longleftrightarrow> ModelExclusionRule m (Some p) \<in> set (rg_exclusions s)"

definition in_namespace :: "provider_id \<Rightarrow> model_id \<Rightarrow> bool" where
  "in_namespace p m =
     (case split_once (CHR ''/'') (mid_str m) of None \<Rightarrow> True | Some (namespace, _) \<Rightarrow> namespace = pid_str p)"

definition open_providers :: "registry_snapshot \<Rightarrow> model_id \<Rightarrow> model_id \<Rightarrow> provider_id list" where
  "open_providers s req canonical =
     map fst (filter (\<lambda>(p, policy). policy = PolicyOpen \<and> in_namespace p req \<and> in_namespace p canonical)
       (rg_providers s))"

definition binding_order :: "provider_binding \<Rightarrow> int \<times> int \<times> provider_id" where
  "binding_order b = (- pb_priority b, - int (precedence (pb_source b)), pb_provider_id b)"

definition synthesized_bindings :: "registry_snapshot \<Rightarrow> model_id \<Rightarrow> provider_id list \<Rightarrow> provider_binding list" where
  "synthesized_bindings s m ps =
     map (\<lambda>p. pb_with_capabilities {Chat} (provider_binding_new p PolicyOpen EmbeddedFallback))
       (filter (\<lambda>p. \<not> excluded_for s m p) ps)"

definition catalogued_bindings ::
  "registry_snapshot \<Rightarrow> model_id \<Rightarrow> provider_id list \<Rightarrow> model_descriptor \<Rightarrow> provider_binding list" where
  "catalogued_bindings s m ps d =
     (let live = filter (\<lambda>b. \<not> excluded_for s m (pb_provider_id b)) (omap_values (md_bindings d));
          claimed = filter (\<lambda>b. pb_policy b \<noteq> PolicyOpen) live;
          open_ones = filter (\<lambda>b. pb_policy b = PolicyOpen) live
      in if claimed \<noteq> [] then sort_key binding_order claimed
         else if open_ones \<noteq> [] then sort_key binding_order open_ones
         else if md_bindings d = [] \<and> ps \<noteq> [] then synthesized_bindings s m ps
         else [])"

definition namespace_owner :: "registry_snapshot \<Rightarrow> model_id \<Rightarrow> provider_policy option" where
  "namespace_owner s m =
     map_option snd (find (\<lambda>(p, _). starts_with (pid_str p @ ''/'') (mid_str m)) (rg_providers s))"

definition resolve_catalogued ::
  "registry_snapshot \<Rightarrow> model_id \<Rightarrow> provider_id list \<Rightarrow> model_descriptor \<Rightarrow>
   registry_error + resolved_model" where
  "resolve_catalogued s m ps d =
     (case catalogued_bindings s m ps d of
        [] \<Rightarrow> Inl (UnknownModel m)
      | b # bs \<Rightarrow>
          Inr \<lparr>canonical_id = m, rm_descriptor = Some d, eligible_bindings = b # bs,
               rm_capabilities = effective_capabilities d, rm_source = pb_source b\<rparr>)"

definition resolve_unclaimed ::
  "registry_snapshot \<Rightarrow> model_id \<Rightarrow> provider_id list \<Rightarrow> registry_error + resolved_model" where
  "resolve_unclaimed s m ps =
     (if ps = [] then Inl (UnknownModel m)
      else if (case namespace_owner s m of None \<Rightarrow> False | Some policy \<Rightarrow> policy \<noteq> PolicyOpen)
      then Inl (UnknownModel m)
      else
        (let bs = synthesized_bindings s m ps in
         if bs = [] then Inl (UnknownModel m)
         else Inr \<lparr>canonical_id = m, rm_descriptor = None, eligible_bindings = bs,
                   rm_capabilities = {Chat}, rm_source = EmbeddedFallback\<rparr>))"

definition registry_resolve :: "registry_snapshot \<Rightarrow> string \<Rightarrow> registry_error + resolved_model" where
  "registry_resolve s requested =
     rbind (model_id_new requested) (\<lambda>req.
     rbind (resolve_alias s req) (\<lambda>canonical.
       if globally_excluded s canonical then Inl (ModelExcluded canonical)
       else
         (let ps = open_providers s req canonical in
          case omap_get (rg_models s) canonical of
            Some d \<Rightarrow> resolve_catalogued s canonical ps d
          | None \<Rightarrow> resolve_unclaimed s canonical ps)))"

definition capabilities_for :: "registry_snapshot \<Rightarrow> string \<Rightarrow> registry_error + model_capability set" where
  "capabilities_for s model = rbind (registry_resolve s model) (\<lambda>r. Inr (rm_capabilities r))"

definition alias_concerns :: "registry_snapshot \<Rightarrow> provider_id \<Rightarrow> model_alias_rule \<Rightarrow> bool" where
  "alias_concerns s p rule =
     (case ar_provider_id rule of
        Some q \<Rightarrow> q = p
      | None \<Rightarrow>
          (case omap_get (rg_models s) (ar_target rule) of
             None \<Rightarrow> False | Some d \<Rightarrow> omap_contains (md_bindings d) p))"

definition contribution_for_provider :: "registry_snapshot \<Rightarrow> provider_id \<Rightarrow> provider_contribution" where
  "contribution_for_provider s p =
     (let policy = (case omap_get (rg_providers s) p of None \<Rightarrow> PolicyClosed | Some q \<Rightarrow> q);
          ds = filter (\<lambda>d. omap_contains (md_bindings d) p) (omap_values (rg_models s));
          al = filter (alias_concerns s p) (omap_values (rg_aliases s))
      in pc_with_aliases al (pc_with_policy policy (from_descriptors p ds)))"

section \<open>Validation\<close>

definition has_open_provider :: "(provider_id, provider_policy) omap \<Rightarrow> bool" where
  "has_open_provider ps = list_ex (\<lambda>p. p = PolicyOpen) (omap_values ps)"

definition binding_key_reason :: "provider_id \<Rightarrow> provider_id \<Rightarrow> string" where
  "binding_key_reason key p =
     ''binding map key '' @ [CHR 0x27] @ pid_str key @ [CHR 0x27] @
     '' does not match binding provider_id '' @ [CHR 0x27] @ pid_str p @ [CHR 0x27]"

definition model_key_reason :: "model_id \<Rightarrow> model_id \<Rightarrow> string" where
  "model_key_reason key m =
     ''models map key '' @ [CHR 0x27] @ mid_str key @ [CHR 0x27] @
     '' does not match descriptor id '' @ [CHR 0x27] @ mid_str m @ [CHR 0x27]"

definition check_binding ::
  "registry_snapshot \<Rightarrow> provider_id \<times> provider_binding \<Rightarrow> registry_error + unit" where
  "check_binding s entry =
     (let (p, b) = entry in
      rbind (provider_id_new (pid_str p)) (\<lambda>_.
        if p \<noteq> pb_provider_id b
        then Inl (InvalidProviderId (pid_str p) (binding_key_reason p (pb_provider_id b)))
        else if \<not> omap_contains (rg_providers s) p then Inl (UnknownProvider p)
        else Inr ()))"

definition check_model ::
  "registry_snapshot \<Rightarrow> model_id \<times> model_descriptor \<Rightarrow> registry_error + unit" where
  "check_model s entry =
     (let (m, d) = entry in
      rbind (model_id_new (mid_str m)) (\<lambda>_.
        if m \<noteq> md_id d then Inl (InvalidModelId (mid_str m) (model_key_reason m (md_id d)))
        else try_each (check_binding s) (md_bindings d)))"

definition check_rule_ids :: "model_id \<Rightarrow> model_alias_rule \<Rightarrow> registry_error + unit" where
  "check_rule_ids a rule =
     rbind (model_id_new (mid_str a)) (\<lambda>_.
     rbind (model_id_new (mid_str (ar_target rule))) (\<lambda>_.
       case ar_provider_id rule of
         None \<Rightarrow> Inr ()
       | Some p \<Rightarrow> rbind (provider_id_new (pid_str p)) (\<lambda>_. Inr ())))"

definition check_alias_entry ::
  "registry_snapshot \<Rightarrow> model_id \<times> model_alias_rule \<Rightarrow> registry_error + unit" where
  "check_alias_entry s entry =
     (let (a, rule) = entry in
      rbind (check_rule_ids a rule) (\<lambda>_.
      rbind (check_alias (rg_aliases s) a rule) (\<lambda>current.
        if \<not> omap_contains (rg_models s) current \<and> \<not> has_open_provider (rg_providers s)
        then Inl (UnknownAliasTarget a current) else Inr ())))"

definition registry_validate :: "registry_snapshot \<Rightarrow> registry_error + unit" where
  "registry_validate s =
     rbind (try_each (\<lambda>p. rbind (provider_id_new (pid_str p)) (\<lambda>_. Inr ())) (omap_keys (rg_providers s))) (\<lambda>_.
     rbind (try_each (check_model s) (rg_models s)) (\<lambda>_.
     rbind (try_each (check_alias_entry s) (rg_aliases s)) (\<lambda>_.
       if rg_models s = [] \<and> \<not> has_open_provider (rg_providers s) then Inl NoRoutableModels
       else Inr ())))"

section \<open>Local settings\<close>

definition custom_binding :: "provider_id oset \<Rightarrow> provider_id \<times> provider_binding \<Rightarrow>
    registry_error + provider_id oset" where
  "custom_binding ps entry =
     (let (p, b) = entry in
      rbind (provider_id_new (pid_str p)) (\<lambda>_.
        if p \<noteq> pb_provider_id b
        then Inl (InvalidProviderId (pid_str p) (binding_key_reason p (pb_provider_id b)))
        else Inr (oset_insert p ps)))"

definition custom_model :: "model_id oset \<times> provider_id oset \<Rightarrow> model_descriptor \<Rightarrow>
    registry_error + model_id oset \<times> provider_id oset" where
  "custom_model acc d =
     rbind (model_id_new (mid_str (md_id d))) (\<lambda>_.
     rbind (try_fold custom_binding (snd acc) (md_bindings d)) (\<lambda>ps.
       Inr (oset_insert (md_id d) (fst acc), ps)))"

text \<open>One local alias: the local rules seen so far and the combined alias map.\<close>

definition local_alias ::
  "(model_id, model_alias_rule) omap \<times> (model_id, model_alias_rule) omap \<Rightarrow> model_alias_rule \<Rightarrow>
   registry_error + (model_id, model_alias_rule) omap \<times> (model_id, model_alias_rule) omap" where
  "local_alias acc rule =
     (let (seen, combined) = acc in
      if (case omap_get seen (ar_alias rule) of None \<Rightarrow> False | Some previous \<Rightarrow> previous \<noteq> rule)
      then Inl (DuplicateAlias (ar_alias rule))
      else rbind (check_rule_ids (ar_alias rule) rule) (\<lambda>_.
        Inr (omap_insert (ar_alias rule) rule seen, omap_insert (ar_alias rule) rule combined)))"

definition check_combined_alias ::
  "model_id oset \<Rightarrow> (model_id, model_alias_rule) omap \<Rightarrow> model_id \<times> model_alias_rule \<Rightarrow>
   registry_error + unit" where
  "check_combined_alias ms combined entry =
     (let (a, rule) = entry in
      rbind (check_alias combined a rule) (\<lambda>current.
        if current \<notin> set ms then Inl (UnknownAliasTarget a current) else Inr ()))"

definition check_exclusion :: "model_exclusion_rule \<Rightarrow> registry_error + unit" where
  "check_exclusion rule =
     rbind (model_id_new (mid_str (ex_model_id rule))) (\<lambda>_.
       case ex_provider_id rule of
         None \<Rightarrow> Inr ()
       | Some p \<Rightarrow> rbind (provider_id_new (pid_str p)) (\<lambda>_. Inr ()))"

definition provider_models ::
  "registry_snapshot \<Rightarrow> model_descriptor list \<Rightarrow> provider_id \<Rightarrow> model_id oset" where
  "provider_models s custom p =
     oset_of (map md_id (filter (\<lambda>d. omap_contains (md_bindings d) p) (omap_values (rg_models s) @ custom)))"

definition locally_routable :: "model_exclusion_rule list \<Rightarrow> provider_id \<Rightarrow> model_id \<Rightarrow> bool" where
  "locally_routable exclusions p m \<longleftrightarrow>
     \<not> list_ex (\<lambda>e. ex_provider_id e = None \<and> ex_model_id e = m) exclusions \<and>
     \<not> list_ex (\<lambda>e. ex_provider_id e = Some p \<and> ex_model_id e = m) exclusions"

definition check_blackout ::
  "registry_snapshot \<Rightarrow> model_exclusion_rule list \<Rightarrow> model_descriptor list \<Rightarrow> provider_id list \<Rightarrow>
   provider_id \<Rightarrow> registry_error + unit" where
  "check_blackout s exclusions custom allowed_blackouts p =
     (if p \<in> set allowed_blackouts then Inr ()
      else
        (let ms = provider_models s custom p in
         if ms = [] then Inr ()
         else if filter (locally_routable exclusions p) ms = [] then Inl (ProviderBlackout p)
         else Inr ()))"

definition validate_local_composition ::
  "registry_snapshot \<Rightarrow> model_alias_rule list \<Rightarrow> model_exclusion_rule list \<Rightarrow>
   model_descriptor list \<Rightarrow> provider_id list \<Rightarrow> registry_error + unit" where
  "validate_local_composition s al exclusions custom allowed_blackouts =
     rbind (try_fold custom_model (omap_keys (rg_models s), omap_keys (rg_providers s)) custom) (\<lambda>(ms, ps).
     rbind (try_fold local_alias ([], rg_aliases s) al) (\<lambda>(_, combined).
     rbind (try_each (check_combined_alias ms combined) combined) (\<lambda>_.
     rbind (try_each check_exclusion exclusions) (\<lambda>_.
       try_each (check_blackout s exclusions custom allowed_blackouts) ps))))"

definition compose_with_settings ::
  "registry_snapshot \<Rightarrow> model_alias_rule list \<Rightarrow> model_exclusion_rule oset \<Rightarrow>
   model_descriptor list \<Rightarrow> provider_id list \<Rightarrow> registry_error + registry_snapshot" where
  "compose_with_settings s al exclusions custom allowed_blackouts =
     rbind (validate_local_composition s al exclusions custom allowed_blackouts) (\<lambda>_.
       Inr \<lparr>rg_version = rg_version s,
            rg_source = LocalOverride,
            rg_models = foldl (\<lambda>ms d. omap_insert (md_id d) d ms) (rg_models s) custom,
            rg_providers = rg_providers s,
            rg_aliases = foldl (\<lambda>m rule. omap_insert (ar_alias rule) rule m) (rg_aliases s) al,
            rg_exclusions = oset_extend (rg_exclusions s) exclusions\<rparr>)"

end
