(* ===== verification/Registry_Snapshot_Props.thy ===== *)
theory Registry_Snapshot_Props
  imports Registry_Snapshot
begin

text \<open>
  Properties of registry snapshots: validated aliases always resolve, exclusions are honoured,
  open providers cannot take over claimed or namespaced models, and local settings compose into
  a snapshot whose aliases end in models.
\<close>

section \<open>Aliases\<close>

lemma alias_walk_end: "omap_get al c = None \<Longrightarrow> alias_walk al orig visited c = Inr c"
  by (simp add: alias_walk.simps)

lemma alias_walk_Inr:
  "alias_walk al orig visited current = Inr c \<Longrightarrow> omap_get al c = None"
proof (induction al orig visited current rule: alias_walk.induct)
  case (1 al orig visited current)
  then show ?case
    by (subst (asm) (2) alias_walk.simps) (auto split: option.splits if_splits)
qed

text \<open>
  The checks of the validation loops start one step into the walk that \<open>resolve_alias\<close> makes:
  they accept exactly the aliases that resolve, with the same target and the same error.
\<close>

lemma check_alias_walk:
  assumes "omap_get al a = Some rule"
  shows "check_alias al a rule = alias_walk al a [] a"
proof -
  have "alias_walk al a [] a = alias_walk al a [a] (ar_target rule)"
    using assms by (subst alias_walk.simps) (simp add: MAX_ALIAS_DEPTH_def)
  moreover have "alias_walk al a [a] a = Inl (AliasCycle a [a, a])"
    using assms by (subst alias_walk.simps) simp
  ultimately show ?thesis by (cases "a = ar_target rule") (simp_all add: check_alias_def)
qed

text \<open>The ids a walk goes through.\<close>

inductive alias_reaches :: "(model_id, model_alias_rule) omap \<Rightarrow> nat \<Rightarrow> model_id \<Rightarrow> model_id \<Rightarrow> bool"
  for al where
  reach_refl: "alias_reaches al 0 a a"
| reach_step: "omap_get al a = Some rule \<Longrightarrow> alias_reaches al n (ar_target rule) c \<Longrightarrow>
    alias_reaches al (Suc n) a c"

inductive_cases alias_reaches_SucE: "alias_reaches al (Suc n) a c"
inductive_cases alias_reaches_0E: "alias_reaches al 0 a c"

lemma alias_walk_reaches:
  "alias_walk al orig visited current = Inr c \<Longrightarrow>
   \<exists>n. alias_reaches al n current c \<and> length visited + n \<le> max (length visited) MAX_ALIAS_DEPTH"
proof (induction al orig visited current rule: alias_walk.induct)
  case (1 al orig visited current)
  show ?case
  proof (cases "omap_get al current")
    case None
    with 1(2) have "c = current" by (simp add: alias_walk_end)
    then show ?thesis by (intro exI[of _ 0]) (auto intro: reach_refl)
  next
    case (Some rule)
    have walk: "current \<notin> set visited" "length visited < MAX_ALIAS_DEPTH"
      "alias_walk al orig (visited @ [current]) (ar_target rule) = Inr c"
      using 1(2) Some by (subst (asm) alias_walk.simps; simp split: if_splits)+
    from 1(1)[OF Some walk(1) _ walk(3)] walk(2) obtain n where
      n: "alias_reaches al n (ar_target rule) c" "length visited + Suc n \<le> MAX_ALIAS_DEPTH"
      by auto
    from n(2) have "length visited + Suc n \<le> max (length visited) MAX_ALIAS_DEPTH" by simp
    with reach_step[OF Some n(1)] show ?thesis by blast
  qed
qed

lemma alias_reaches_iff_end:
  assumes "alias_reaches al n a c" "omap_get al c = None" "alias_reaches al m a d" "omap_get al d = None"
  shows "c = d"
  using assms
proof (induction arbitrary: m)
  case (reach_refl a)
  then show ?case by (cases m) (auto elim: alias_reaches_SucE alias_reaches_0E)
next
  case (reach_step a rule n c)
  then show ?case by (cases m) (auto elim: alias_reaches_SucE alias_reaches_0E)
qed

lemma registry_validate_parts:
  assumes "registry_validate s = Inr ()"
  shows "try_each (\<lambda>p. rbind (provider_id_new (pid_str p)) (\<lambda>_. Inr ())) (omap_keys (rg_providers s)) = Inr ()"
    and "try_each (check_model s) (rg_models s) = Inr ()"
    and "try_each (check_alias_entry s) (rg_aliases s) = Inr ()"
    and "rg_models s \<noteq> [] \<or> has_open_provider (rg_providers s)"
  using assms unfolding registry_validate_def rbind_eq_Inr by (simp_all split: if_splits)

lemma registry_validate_entries:
  assumes "registry_validate s = Inr ()"
  shows "e \<in> set (rg_models s) \<Longrightarrow> check_model s e = Inr ()"
    and "f \<in> set (rg_aliases s) \<Longrightarrow> check_alias_entry s f = Inr ()"
  using registry_validate_parts(2,3)[OF assms] unfolding try_each_Inr by blast+

lemma resolve_alias_of_valid:
  assumes valid: "registry_validate s = Inr ()"
  shows "\<exists>c. resolve_alias s m = Inr c \<and>
           (c = m \<or> omap_contains (rg_models s) c \<or> has_open_provider (rg_providers s))"
proof (cases "omap_get (rg_aliases s) m")
  case None
  then show ?thesis by (simp add: resolve_alias_def alias_walk_end)
next
  case (Some rule)
  then have "check_alias_entry s (m, rule) = Inr ()"
    using registry_validate_entries(2)[OF valid] omap_get_in_set[OF Some] by blast
  then obtain c where "check_alias (rg_aliases s) m rule = Inr c"
    "omap_contains (rg_models s) c \<or> has_open_provider (rg_providers s)"
    by (auto simp: check_alias_entry_def split: if_splits)
  then show ?thesis using check_alias_walk[OF Some] by (auto simp: resolve_alias_def)
qed

text \<open>
  C29. In a snapshot that passed validation every alias resolves: \<open>resolve_alias\<close> never fails,
  it follows at most \<open>MAX_ALIAS_DEPTH\<close> rules, its result is not an alias itself, and an alias
  ends in a catalogued model unless an open provider is registered.
\<close>

theorem valid_snapshot_aliases_resolve:
  assumes "registry_validate s = Inr ()"
  shows "\<exists>c n. resolve_alias s m = Inr c \<and> alias_reaches (rg_aliases s) n m c \<and> n \<le> MAX_ALIAS_DEPTH \<and>
           omap_get (rg_aliases s) c = None \<and>
           (c = m \<or> omap_contains (rg_models s) c \<or> has_open_provider (rg_providers s))"
proof -
  from resolve_alias_of_valid[OF assms, of m] obtain c where c: "resolve_alias s m = Inr c"
    "c = m \<or> omap_contains (rg_models s) c \<or> has_open_provider (rg_providers s)" by blast
  from alias_walk_reaches[OF c(1)[unfolded resolve_alias_def]] obtain n where
    "alias_reaches (rg_aliases s) n m c" "n \<le> MAX_ALIAS_DEPTH" by auto
  with c alias_walk_Inr[OF c(1)[unfolded resolve_alias_def]] show ?thesis by blast
qed

section \<open>Resolution\<close>

lemma set_synthesized:
  "b \<in> set (synthesized_bindings s m ps) \<Longrightarrow>
   pb_provider_id b \<in> set ps \<and> \<not> excluded_for s m (pb_provider_id b) \<and> pb_policy b = PolicyOpen"
  by (auto simp: synthesized_bindings_def pb_with_capabilities_def provider_binding_new_def)

lemma catalogued_not_excluded:
  "b \<in> set (catalogued_bindings s m ps d) \<Longrightarrow> \<not> excluded_for s m (pb_provider_id b)"
  by (auto simp: catalogued_bindings_def Let_def dest: set_synthesized split: if_splits)

lemma registry_resolve_cases:
  assumes "registry_resolve s q = Inr r"
  obtains (catalogued) req m d where "model_id_new q = Inr req" "resolve_alias s req = Inr m"
    "\<not> globally_excluded s m" "omap_get (rg_models s) m = Some d"
    "catalogued_bindings s m (open_providers s req m) d = eligible_bindings r"
    "eligible_bindings r \<noteq> []" "canonical_id r = m" "rm_descriptor r = Some d"
  | (unclaimed) req m where "model_id_new q = Inr req" "resolve_alias s req = Inr m"
    "\<not> globally_excluded s m" "omap_get (rg_models s) m = None"
    "synthesized_bindings s m (open_providers s req m) = eligible_bindings r"
    "eligible_bindings r \<noteq> []" "canonical_id r = m" "rm_descriptor r = None"
    "\<And>policy. namespace_owner s m = Some policy \<Longrightarrow> policy = PolicyOpen"
proof -
  from assms obtain req m where m: "model_id_new q = Inr req" "resolve_alias s req = Inr m"
    "\<not> globally_excluded s m"
    "(case omap_get (rg_models s) m of
        Some d \<Rightarrow> resolve_catalogued s m (open_providers s req m) d
      | None \<Rightarrow> resolve_unclaimed s m (open_providers s req m)) = Inr r"
    by (auto simp: registry_resolve_def Let_def split: if_splits)
  show thesis
  proof (cases "omap_get (rg_models s) m")
    case None
    with m(4) have "resolve_unclaimed s m (open_providers s req m) = Inr r" by simp
    then show thesis using None m
      by (intro unclaimed[of req m])
         (auto simp: resolve_unclaimed_def Let_def split: if_splits option.splits)
  next
    case (Some d)
    with m(4) have "resolve_catalogued s m (open_providers s req m) d = Inr r" by simp
    then show thesis using Some m
      by (intro catalogued[of req m d])
         (auto simp: resolve_catalogued_def split: list.splits)
  qed
qed

text \<open>
  C30. Exclusions are honoured: a resolved model is not globally excluded, it has at least one
  binding, and none of its bindings belongs to a provider the model is excluded for.
\<close>

theorem resolve_honours_exclusions:
  assumes "registry_resolve s q = Inr r"
  shows "\<not> globally_excluded s (canonical_id r) \<and> eligible_bindings r \<noteq> [] \<and>
         (\<forall>b \<in> set (eligible_bindings r). \<not> excluded_for s (canonical_id r) (pb_provider_id b))"
  using assms
proof (cases rule: registry_resolve_cases)
  case (catalogued req m d)
  have "\<forall>b \<in> set (catalogued_bindings s m (open_providers s req m) d).
      \<not> excluded_for s m (pb_provider_id b)"
    using catalogued_not_excluded by blast
  with catalogued show ?thesis by simp
next
  case (unclaimed req m)
  have "\<forall>b \<in> set (synthesized_bindings s m (open_providers s req m)).
      \<not> excluded_for s m (pb_provider_id b)"
    using set_synthesized by blast
  with unclaimed show ?thesis by simp
qed

text \<open>The bindings of a descriptor that claim its model for a provider.\<close>

definition claims :: "registry_snapshot \<Rightarrow> model_id \<Rightarrow> model_descriptor \<Rightarrow> provider_binding \<Rightarrow> bool" where
  "claims s m d b \<longleftrightarrow>
     b \<in> set (omap_values (md_bindings d)) \<and> \<not> excluded_for s m (pb_provider_id b) \<and>
     pb_policy b \<noteq> PolicyOpen"

lemma catalogued_claimed:
  assumes "b \<in> set (catalogued_bindings s m ps d)" "claims s m d c"
  shows "claims s m d b"
  using assms by (auto simp: catalogued_bindings_def claims_def Let_def filter_empty_conv split: if_splits)

lemma catalogued_source:
  "b \<in> set (catalogued_bindings s m ps d) \<Longrightarrow>
   b \<in> set (omap_values (md_bindings d)) \<or> md_bindings d = [] \<and> b \<in> set (synthesized_bindings s m ps)"
  by (auto simp: catalogued_bindings_def Let_def split: if_splits)

lemma open_provider_namespace:
  "p \<in> set (open_providers s req m) \<Longrightarrow>
   in_namespace p req \<and> in_namespace p m \<and> (p, PolicyOpen) \<in> set (rg_providers s)"
  by (auto simp: open_providers_def)

text \<open>
  C31. An open provider cannot take over a model. When the descriptor of the resolved model has a
  closed or discovered binding that is not excluded, only such bindings are eligible. A binding
  that the descriptor does not list is eligible only when there is no descriptor or it lists none,
  and then it belongs to a registered open provider that serves the requested and the resolved id:
  an id with a namespace only when the namespace is its own. (Open bindings that a descriptor lists
  are not subject to the test of the namespace.)
\<close>

theorem open_provider_cannot_steal:
  assumes "registry_resolve s q = Inr r" and "b \<in> set (eligible_bindings r)"
  shows "(\<forall>d c. rm_descriptor r = Some d \<and> claims s (canonical_id r) d c \<longrightarrow> claims s (canonical_id r) d b) \<and>
    ((\<exists>d. rm_descriptor r = Some d \<and> b \<in> set (omap_values (md_bindings d))) \<or>
     pred_option (\<lambda>d. md_bindings d = []) (rm_descriptor r) \<and>
     (pb_provider_id b, PolicyOpen) \<in> set (rg_providers s) \<and>
     in_namespace (pb_provider_id b) (ModelId q) \<and> in_namespace (pb_provider_id b) (canonical_id r))"
  using assms(1)
proof (cases rule: registry_resolve_cases)
  case (catalogued req m d)
  have req: "req = ModelId q" using catalogued(1) by (simp add: model_id_new_Inr)
  have b: "b \<in> set (catalogued_bindings s m (open_providers s req m) d)"
    using assms(2) catalogued(5) by simp
  then have "claims s m d b" if "claims s m d c" for c
    using that by (rule catalogued_claimed)
  moreover have "b \<in> set (omap_values (md_bindings d)) \<or>
      md_bindings d = [] \<and> pb_provider_id b \<in> set (open_providers s req m)"
    using catalogued_source[OF b] set_synthesized by blast
  ultimately show ?thesis using catalogued(7,8) req open_provider_namespace by auto
next
  case (unclaimed req m)
  have "req = ModelId q" using unclaimed(1) by (simp add: model_id_new_Inr)
  moreover have "pb_provider_id b \<in> set (open_providers s req m)"
    using assms(2) unclaimed(5) set_synthesized by metis
  ultimately show ?thesis using open_provider_namespace unclaimed by auto
qed

text \<open>
  Bindings of a catalogued model come in routing order: by descending priority, then by
  descending source precedence, then by provider id; and they are bindings of its descriptor
  unless the descriptor has none.
\<close>

theorem resolved_bindings_ordered:
  assumes "registry_resolve s q = Inr r" and "rm_descriptor r = Some d" and "md_bindings d \<noteq> []"
  shows "sorted (map binding_order (eligible_bindings r)) \<and>
         set (eligible_bindings r) \<subseteq> set (omap_values (md_bindings d))"
  using assms(1)
proof (cases rule: registry_resolve_cases)
  case (catalogued req m d')
  then have "d' = d" using assms(2) by simp
  have "sorted (map binding_order (catalogued_bindings s m ps d)) \<and>
        set (catalogued_bindings s m ps d) \<subseteq> set (omap_values (md_bindings d))" for ps
    using assms(3) by (auto simp: catalogued_bindings_def Let_def)
  with catalogued \<open>d' = d\<close> show ?thesis by metis
next
  case (unclaimed req m)
  then show ?thesis using assms(2) by simp
qed

section \<open>Local settings\<close>

lemma keys_insert_models:
  "fst ` set (foldl (\<lambda>ms d. omap_insert (md_id d) d ms) m ds) = fst ` set m \<union> md_id ` set ds"
  by (induction ds arbitrary: m) auto

lemma custom_binding_providers:
  "try_fold custom_binding ps es = Inr ps' \<Longrightarrow> set ps' = set ps \<union> fst ` set es"
proof (induction es arbitrary: ps)
  case (Cons e es)
  from Cons.prems obtain ps1 where "custom_binding ps e = Inr ps1"
    and rest: "try_fold custom_binding ps1 es = Inr ps'" by (auto split: sum.splits)
  then have "set ps1 = insert (fst e) (set ps)"
    by (auto simp: custom_binding_def Let_def split: prod.splits if_splits)
  with Cons.IH[OF rest] show ?case by auto
qed simp

lemma custom_model_step:
  assumes "custom_model acc d = Inr acc1"
  shows "set (fst acc1) = insert (md_id d) (set (fst acc))"
    "set (snd acc1) = set (snd acc) \<union> fst ` set (md_bindings d)"
proof -
  from assms obtain ps where "try_fold custom_binding (snd acc) (md_bindings d) = Inr ps"
    and acc1: "acc1 = (oset_insert (md_id d) (fst acc), ps)"
    unfolding custom_model_def rbind_eq_Inr by blast
  from custom_binding_providers[OF this(1)] acc1
  show "set (fst acc1) = insert (md_id d) (set (fst acc))"
    "set (snd acc1) = set (snd acc) \<union> fst ` set (md_bindings d)" by simp_all
qed

lemma custom_model_sets:
  "try_fold custom_model acc ds = Inr acc' \<Longrightarrow>
   set (fst acc') = set (fst acc) \<union> md_id ` set ds \<and>
   set (snd acc') = set (snd acc) \<union> (\<Union>d \<in> set ds. fst ` set (md_bindings d))"
proof (induction ds arbitrary: acc)
  case (Cons d ds)
  from Cons.prems obtain acc1 where step: "custom_model acc d = Inr acc1"
    and rest: "try_fold custom_model acc1 ds = Inr acc'" by (auto split: sum.splits)
  show ?case using Cons.IH[OF rest] custom_model_step[OF step] by auto
qed simp

lemma local_alias_combined:
  "try_fold local_alias acc al = Inr acc' \<Longrightarrow>
   snd acc' = foldl (\<lambda>m rule. omap_insert (ar_alias rule) rule m) (snd acc) al"
proof (induction al arbitrary: acc)
  case (Cons rule al)
  from Cons.prems obtain acc1 where step: "local_alias acc rule = Inr acc1"
    and rest: "try_fold local_alias acc1 al = Inr acc'" by (auto split: sum.splits)
  from step have "snd acc1 = omap_insert (ar_alias rule) rule (snd acc)"
    by (auto simp: local_alias_def Let_def split: prod.splits if_splits)
  with Cons.IH[OF rest] show ?case by simp
qed simp

lemma compose_parts:
  assumes "compose_with_settings s al ex custom bl = Inr s'"
  obtains ms ps where "set ms = fst ` set (rg_models s')"
    "set ps = fst ` set (rg_providers s) \<union> (\<Union>d \<in> set custom. fst ` set (md_bindings d))"
    "try_each (check_combined_alias ms (rg_aliases s')) (rg_aliases s') = Inr ()"
    "try_each (check_blackout s ex custom bl) ps = Inr ()"
    "rg_providers s' = rg_providers s" "rg_models s' = foldl (\<lambda>ms d. omap_insert (md_id d) d ms) (rg_models s) custom"
proof -
  from assms obtain ms ps seen combined where
    fold: "try_fold custom_model (omap_keys (rg_models s), omap_keys (rg_providers s)) custom = Inr (ms, ps)"
    and al: "try_fold local_alias ([], rg_aliases s) al = Inr (seen, combined)"
    and each: "try_each (check_combined_alias ms combined) combined = Inr ()"
    and black: "try_each (check_blackout s ex custom bl) ps = Inr ()"
    and s': "rg_models s' = foldl (\<lambda>ms d. omap_insert (md_id d) d ms) (rg_models s) custom"
      "rg_aliases s' = foldl (\<lambda>m rule. omap_insert (ar_alias rule) rule m) (rg_aliases s) al"
      "rg_providers s' = rg_providers s"
    unfolding compose_with_settings_def validate_local_composition_def rbind_eq_Inr
    by (auto simp: case_prod_beta)
  have "combined = rg_aliases s'" using local_alias_combined[OF al] s'(2) by simp
  moreover have "set ms = fst ` set (rg_models s')"
    using custom_model_sets[OF fold] by (simp add: s'(1) keys_insert_models)
  moreover have "set ps = fst ` set (rg_providers s) \<union> (\<Union>d \<in> set custom. fst ` set (md_bindings d))"
    using custom_model_sets[OF fold] by simp
  ultimately show thesis using that[of ms ps] each black s' by blast
qed

text \<open>
  Local settings that are accepted cannot leave a dangling or cyclic alias: in the composed
  snapshot every alias, inherited or local, resolves to a model of the composed snapshot.
\<close>

theorem composed_aliases_end_in_models:
  assumes "compose_with_settings s al ex custom bl = Inr s'" and "omap_contains (rg_aliases s') a"
  shows "\<exists>c. resolve_alias s' a = Inr c \<and> omap_contains (rg_models s') c"
proof -
  from assms(1) obtain ms ps where ms: "set ms = fst ` set (rg_models s')"
    and each: "try_each (check_combined_alias ms (rg_aliases s')) (rg_aliases s') = Inr ()"
    by (rule compose_parts)
  from assms(2) obtain rule where rule: "omap_get (rg_aliases s') a = Some rule"
    by (auto simp: omap_contains_def)
  from each omap_get_in_set[OF rule] have "check_combined_alias ms (rg_aliases s') (a, rule) = Inr ()"
    unfolding try_each_Inr by blast
  then obtain c where "check_alias (rg_aliases s') a rule = Inr c" "c \<in> set ms"
    by (auto simp: check_combined_alias_def split: if_splits)
  then show ?thesis
    using check_alias_walk[OF rule] ms by (auto simp: resolve_alias_def omap_contains_iff)
qed

text \<open>Descriptors whose ids are usable and whose bindings are filed under their provider\<close>

definition descriptor_ok :: "model_descriptor \<Rightarrow> bool" where
  "descriptor_ok d \<longleftrightarrow>
     model_id_new (mid_str (md_id d)) = Inr (md_id d) \<and> (\<forall>(p, b) \<in> set (md_bindings d). pb_provider_id b = p)"

lemma try_fold_each:
  assumes "try_fold f s xs = Inr t" "x \<in> set xs"
  shows "\<exists>u v. f u x = Inr v"
proof -
  from assms(2) obtain ys zs where "xs = ys @ x # zs" by (auto dest: split_list)
  with assms(1) obtain u where "try_fold f u (x # zs) = Inr t" by (auto simp: try_fold_append)
  then show ?thesis by (cases "f u x") auto
qed

lemma model_id_new_same: "model_id_new (mid_str m) = Inr n \<Longrightarrow> model_id_new (mid_str m) = Inr m"
  by (cases m) (auto simp: model_id_new_Inr)

lemma valid_descriptor_ok:
  assumes "registry_validate s = Inr ()" "(m, d) \<in> set (rg_models s)"
  shows "descriptor_ok d" "md_id d = m" "omap_contains (md_bindings d) p \<Longrightarrow> omap_contains (rg_providers s) p"
proof -
  have "check_model s (m, d) = Inr ()" using registry_validate_entries(1)[OF assms] .
  then have "\<exists>n. model_id_new (mid_str m) = Inr n" and i: "md_id d = m"
    and each: "try_each (check_binding s) (md_bindings d) = Inr ()"
    unfolding check_model_def by (auto split: if_splits)
  then have j: "model_id_new (mid_str m) = Inr m" using model_id_new_same by blast
  show "md_id d = m" by (rule i)
  show "descriptor_ok d"
    using each i j by (auto simp: descriptor_ok_def try_each_Inr check_binding_def split: if_splits)
  show "omap_contains (rg_providers s) p" if "omap_contains (md_bindings d) p"
    using each that
    by (auto simp: try_each_Inr check_binding_def omap_contains_iff split: if_splits)
qed

lemma custom_descriptor_ok:
  assumes "compose_with_settings s al ex custom bl = Inr s'" "d \<in> set custom"
  shows "descriptor_ok d"
proof -
  from assms(1) obtain acc' where "try_fold custom_model (omap_keys (rg_models s), omap_keys (rg_providers s)) custom = Inr acc'"
    unfolding compose_with_settings_def validate_local_composition_def rbind_eq_Inr by blast
  from try_fold_each[OF this assms(2)] obtain n ps t where
    i: "model_id_new (mid_str (md_id d)) = Inr n" and f: "try_fold custom_binding ps (md_bindings d) = Inr t"
    unfolding custom_model_def rbind_eq_Inr by blast
  have "pb_provider_id b = p" if "(p, b) \<in> set (md_bindings d)" for p b
    using try_fold_each[OF f that] by (auto simp: custom_binding_def split: if_splits)
  with model_id_new_same[OF i] show ?thesis by (auto simp: descriptor_ok_def)
qed

lemma composed_model:
  assumes "rg_models s' = foldl (\<lambda>ms d. omap_insert (md_id d) d ms) (rg_models s) custom"
    and "distinct (map md_id custom)"
  shows "d \<in> set custom \<Longrightarrow> omap_get (rg_models s') (md_id d) = Some d"
    and "m \<notin> md_id ` set custom \<Longrightarrow> omap_get (rg_models s') m = omap_get (rg_models s) m"
proof -
  have "omap_get (foldl (\<lambda>ms d. omap_insert (md_id d) d ms) M custom) m =
      (case find (\<lambda>d. md_id d = m) custom of Some d \<Rightarrow> Some d | None \<Rightarrow> omap_get M m)" for M m
    using assms(2)
  proof (induction custom arbitrary: M)
    case (Cons c cs)
    have "find (\<lambda>d. md_id d = m) cs = None" if "md_id c = m"
      using Cons.prems that by (auto simp: find_None_iff image_iff)
    with Cons show ?case by (auto split: option.splits)
  qed simp
  then have get: "omap_get (rg_models s') m =
      (case find (\<lambda>d. md_id d = m) custom of Some d \<Rightarrow> Some d | None \<Rightarrow> omap_get (rg_models s) m)" for m
    unfolding assms(1) .
  have "find (\<lambda>x. md_id x = md_id d) custom = Some d" if "d \<in> set custom"
    using assms(2) that by (induction custom) auto
  then show "d \<in> set custom \<Longrightarrow> omap_get (rg_models s') (md_id d) = Some d" using get by simp
  show "m \<notin> md_id ` set custom \<Longrightarrow> omap_get (rg_models s') m = omap_get (rg_models s) m"
  proof -
    assume "m \<notin> md_id ` set custom"
    then have "find (\<lambda>d. md_id d = m) custom = None" by (auto simp: find_None_iff)
    then show ?thesis using get by simp
  qed
qed

lemma sort_key_Nil: "sort_key f xs = [] \<longleftrightarrow> xs = []"
  by (metis set_empty set_sort)

lemma live_binding_resolves:
  assumes "descriptor_ok d" "omap_get (rg_models s) (md_id d) = Some d" "omap_get (md_bindings d) p = Some b"
    and "\<not> globally_excluded s (md_id d)" "\<not> excluded_for s (md_id d) p" "omap_get (rg_aliases s) (md_id d) = None"
  shows "\<exists>r. registry_resolve s (mid_str (md_id d)) = Inr r \<and> canonical_id r = md_id d \<and>
    (pb_policy b \<noteq> PolicyOpen \<longrightarrow> b \<in> set (eligible_bindings r))"
proof -
  have m: "model_id_new (mid_str (md_id d)) = Inr (md_id d)" "pb_provider_id b = p"
    using assms(1) omap_get_in_set[OF assms(3)] by (auto simp: descriptor_ok_def)
  have "b \<in> set (omap_values (md_bindings d))" using omap_get_in_set[OF assms(3)] by force
  then have "catalogued_bindings s (md_id d) ps d \<noteq> [] \<and>
      (pb_policy b \<noteq> PolicyOpen \<longrightarrow> b \<in> set (catalogued_bindings s (md_id d) ps d))" for ps
    using assms(5) m(2) by (auto simp: catalogued_bindings_def Let_def filter_empty_conv sort_key_Nil)
  then obtain r where "resolve_catalogued s (md_id d) (open_providers s (md_id d) (md_id d)) d = Inr r"
    "canonical_id r = md_id d" "pb_policy b \<noteq> PolicyOpen \<longrightarrow> b \<in> set (eligible_bindings r)"
    unfolding resolve_catalogued_def by (force split: list.splits)
  moreover have "resolve_alias s (md_id d) = Inr (md_id d)"
    using assms(6) by (simp add: resolve_alias_def alias_walk_end)
  ultimately show ?thesis using m(1) assms(2,4) by (simp add: registry_resolve_def)
qed

lemma blackout_check_survivor:
  assumes "registry_validate s = Inr ()" "omap_ok (rg_models s)"
    and "distinct (map md_id custom)" "\<forall>d \<in> set custom. \<not> omap_contains (rg_models s) (md_id d)"
    and "compose_with_settings s al ex custom bl = Inr s'"
    and "e \<in> set (omap_values (rg_models s) @ custom)" "omap_contains (md_bindings e) p" "p \<notin> set bl"
  shows "\<exists>d. descriptor_ok d \<and> omap_get (rg_models s') (md_id d) = Some d \<and> omap_contains (md_bindings d) p \<and>
    locally_routable ex p (md_id d)"
proof -
  from assms(5) obtain ms ps where
    ps: "set ps = fst ` set (rg_providers s) \<union> (\<Union>d \<in> set custom. fst ` set (md_bindings d))"
    and black: "try_each (check_blackout s ex custom bl) ps = Inr ()"
    and models: "rg_models s' = foldl (\<lambda>ms d. omap_insert (md_id d) d ms) (rg_models s) custom"
    by (rule compose_parts)
  have "p \<in> set ps"
  proof (cases "e \<in> set custom")
    case False
    with assms(6) obtain m where "(m, e) \<in> set (rg_models s)" by auto
    from valid_descriptor_ok(3)[OF assms(1) this assms(7)] ps show ?thesis by (simp add: omap_contains_iff)
  qed (use ps assms(7) in \<open>auto simp: omap_contains_iff\<close>)
  with black have "check_blackout s ex custom bl p = Inr ()" unfolding try_each_Inr by blast
  moreover have "md_id e \<in> set (provider_models s custom p)"
    using assms(6,7) unfolding provider_models_def set_oset_of by auto
  ultimately obtain m where "m \<in> set (provider_models s custom p)" and local: "locally_routable ex p m"
    using assms(8) by (auto simp: check_blackout_def Let_def filter_empty_conv split: if_splits)
  then obtain d where d: "d \<in> set (omap_values (rg_models s) @ custom)" "omap_contains (md_bindings d) p" "md_id d = m"
    unfolding provider_models_def set_oset_of by auto
  have ok: "descriptor_ok d \<and> omap_get (rg_models s') m = Some d"
  proof (cases "d \<in> set custom")
    case True
    then show ?thesis using composed_model(1)[OF models assms(3) True] custom_descriptor_ok[OF assms(5) True] d(3) by simp
  next
    case False
    with d(1) obtain n where n: "(n, d) \<in> set (rg_models s)" by auto
    note v = valid_descriptor_ok(1,2)[OF assms(1) n]
    have "omap_get (rg_models s) m = Some d" using n v(2) d(3) omap_ok_distinct[OF assms(2)] by simp
    moreover from this have "m \<notin> md_id ` set custom" using assms(4) by (auto simp: omap_contains_def)
    ultimately show ?thesis using composed_model(2)[OF models assms(3)] v(1) by simp
  qed
  with d(2,3) local show ?thesis by blast
qed

text \<open>
  C32. Local exclusions cannot black out a provider silently. Let a valid catalog without exclusions of
  its own be composed with settings whose custom models have new and distinct ids. Every provider
  that has a binding in the catalog or in a custom model, and is not on the list of allowed
  blackouts, keeps a binding in the composed snapshot to a model that is excluded neither for all
  nor for this provider; and unless an alias hides its name, that model resolves in the composed
  snapshot, to this binding too when the binding is not an open one.
\<close>

theorem no_silent_blackout:
  assumes "registry_validate s = Inr ()" "omap_ok (rg_models s)" "rg_exclusions s = []"
    and "distinct (map md_id custom)" "\<forall>d \<in> set custom. \<not> omap_contains (rg_models s) (md_id d)"
    and "compose_with_settings s al ex custom bl = Inr s'"
    and "e \<in> set (omap_values (rg_models s) @ custom)" "omap_contains (md_bindings e) p" "p \<notin> set bl"
  shows "\<exists>m d b. omap_get (rg_models s') m = Some d \<and> omap_get (md_bindings d) p = Some b \<and>
    \<not> globally_excluded s' m \<and> \<not> excluded_for s' m p \<and>
    (omap_get (rg_aliases s') m = None \<longrightarrow>
      (\<exists>r. registry_resolve s' (mid_str m) = Inr r \<and> canonical_id r = m \<and>
         (pb_policy b \<noteq> PolicyOpen \<longrightarrow> b \<in> set (eligible_bindings r))))"
proof -
  obtain d where d: "descriptor_ok d" "omap_get (rg_models s') (md_id d) = Some d" "omap_contains (md_bindings d) p"
    "locally_routable ex p (md_id d)"
    using blackout_check_survivor[OF assms(1,2,4-9)] by blast
  from d(3) obtain b where b: "omap_get (md_bindings d) p = Some b" by (auto simp: omap_contains_def)
  have "rg_exclusions s' = oset_extend [] ex" using assms(3,6) by (auto simp: compose_with_settings_def)
  then have "\<not> globally_excluded s' (md_id d)" "\<not> excluded_for s' (md_id d) p"
    using d(4) by (auto simp: globally_excluded_def excluded_for_def locally_routable_def list_ex_iff)
  with live_binding_resolves[OF d(1,2) b] d(2) b show ?thesis
    by (intro exI[of _ "md_id d"] exI[of _ d] exI[of _ b]) blast
qed

section \<open>Capability lookup\<close>

definition alias_keys_match :: "registry_snapshot \<Rightarrow> bool" where
  "alias_keys_match s \<longleftrightarrow>
     omap_ok (rg_aliases s) \<and> list_all (\<lambda>(k, rule). ar_alias rule = k) (rg_aliases s)"

lemma contribution_alias_next:
  assumes keys: "alias_keys_match s" and nxt: "alias_next (contribution_for_provider s p) (mid_str a) = Some m"
  shows "\<exists>rule. omap_get (rg_aliases s) a = Some rule \<and> m = mid_str (ar_target rule)"
proof -
  from nxt obtain rule where
    "find (\<lambda>x. mid_str (ar_alias x) = mid_str a) (pc_aliases (contribution_for_provider s p)) = Some rule"
    and m: "m = mid_str (ar_target rule)"
    by (auto simp: alias_next_def split: if_splits)
  from find_SomeD[OF this(1)] have rule: "rule \<in> set (omap_values (rg_aliases s))"
    "mid_str (ar_alias rule) = mid_str a"
    by (auto simp: contribution_for_provider_def pc_with_aliases_def Let_def)
  then obtain k where k: "(k, rule) \<in> set (rg_aliases s)" by auto
  then have "k = a" using keys rule(2) by (auto simp: alias_keys_match_def list_all_iff model_id.expand)
  with k keys have "omap_get (rg_aliases s) a = Some rule"
    by (simp add: alias_keys_match_def omap_get_of_set)
  with m show ?thesis by blast
qed

lemma contribution_alias_chain_ends:
  assumes "alias_keys_match s"
  shows "alias_reaches (rg_aliases s) n a c \<Longrightarrow> omap_get (rg_aliases s) c = None \<Longrightarrow>
         alias_iter (contribution_for_provider s p) (Suc n) (mid_str a) = None"
proof (induction rule: alias_reaches.induct)
  case (reach_refl a)
  then show ?case
    using contribution_alias_next[OF assms, of p a] by (cases "alias_next (contribution_for_provider s p) (mid_str a)") auto
next
  case (reach_step a rule n c)
  show ?case
  proof (cases "alias_next (contribution_for_provider s p) (mid_str a)")
    case (Some m)
    then have "m = mid_str (ar_target rule)"
      using contribution_alias_next[OF assms] reach_step.hyps(1) by fastforce
    then show ?thesis using Some reach_step.IH reach_step.prems by simp
  qed simp
qed

lemma capability_profile_walk_returns:
  assumes "alias_keys_match s" and "\<exists>c. resolve_alias s (ModelId model) = Inr c"
  shows "\<exists>r. capability_profile (contribution_for_provider s p) model = Some r"
proof -
  from assms(2) obtain c where walk: "resolve_alias s (ModelId model) = Inr c" by blast
  from alias_walk_reaches[OF walk[unfolded resolve_alias_def]] alias_walk_Inr[OF walk[unfolded resolve_alias_def]]
  obtain n where "alias_reaches (rg_aliases s) n (ModelId model) c" "omap_get (rg_aliases s) c = None"
    by blast
  from contribution_alias_chain_ends[OF assms(1) this, of p] show ?thesis
    by (intro capability_profile_returns[where n = "Suc n"]) (simp del: alias_iter.simps)
qed

text \<open>
  For a contribution taken from a validated snapshot whose alias rules are stored under
  their own alias, the recursive capability lookup always returns.
\<close>

theorem capability_profile_of_valid_returns:
  assumes "registry_validate s = Inr ()" and "alias_keys_match s"
  shows "\<exists>r. capability_profile (contribution_for_provider s p) model = Some r"
  by (rule capability_profile_walk_returns[OF assms(2)]) (use resolve_alias_of_valid[OF assms(1)] in blast)

end
