(* ===== verification/Registry_Builder.thy ===== *)
theory Registry_Builder
  imports Registry_Snapshot_Props
begin

text \<open>
  \<open>RegistryBuilder\<close> of \<^verbatim>\<open>crates/registry/src/lib.rs\<close>. A builder method takes \<open>&mut self\<close> and may
  return an error after it changed the builder, so an operation is a function from a builder to
  its result and the builder it leaves. The JSON codec of snapshots is an argument.
\<close>

section \<open>The builder\<close>

record registry_builder =
  rb_version :: catalog_version
  rb_source :: catalog_source
  rb_providers :: "(provider_id, provider_policy) omap"
  rb_models :: "(model_id, model_descriptor) omap"
  rb_aliases :: "(model_id, model_alias_rule) omap"
  rb_exclusions :: "model_exclusion_rule oset"

definition builder_new :: "catalog_version \<Rightarrow> catalog_source \<Rightarrow> registry_builder" where
  "builder_new v source =
     \<lparr>rb_version = v, rb_source = source, rb_providers = [], rb_models = [], rb_aliases = [],
      rb_exclusions = []\<rparr>"

definition register_provider :: "provider_id \<Rightarrow> provider_policy \<Rightarrow> registry_builder \<Rightarrow> registry_builder" where
  "register_provider p policy rb = rb\<lparr>rb_providers := omap_insert p policy (rb_providers rb)\<rparr>"

definition merge_bindings ::
  "(provider_id, provider_binding) omap \<Rightarrow> (provider_id, provider_binding) omap \<Rightarrow>
   (provider_id, provider_binding) omap" where
  "merge_bindings existing incoming =
     foldl (\<lambda>bs (p, b).
        case omap_get bs p of
          Some old \<Rightarrow> omap_insert p (merge_with old b) bs
        | None \<Rightarrow> omap_insert p b bs)
       existing incoming"

definition merge_descriptor :: "model_descriptor \<Rightarrow> model_descriptor \<Rightarrow> model_descriptor" where
  "merge_descriptor existing d =
     existing
       \<lparr>owned_by :=
          (if owned_by existing = [] \<and> owned_by d \<noteq> [] then owned_by d else owned_by existing),
        display_name :=
          (if display_name existing = None \<and> display_name d \<noteq> None then display_name d
           else display_name existing),
        md_capabilities := md_capabilities existing \<union> md_capabilities d,
        md_aliases := oset_extend (md_aliases existing) (md_aliases d),
        metadata := omap_extend (metadata existing) (metadata d),
        md_bindings := merge_bindings (md_bindings existing) (md_bindings d)\<rparr>"

definition add_model :: "model_descriptor \<Rightarrow> registry_builder \<Rightarrow> registry_builder" where
  "add_model d rb =
     rb\<lparr>rb_models :=
       (case omap_get (rb_models rb) (md_id d) of
          Some existing \<Rightarrow> omap_insert (md_id d) (merge_descriptor existing d) (rb_models rb)
        | None \<Rightarrow> omap_insert (md_id d) d (rb_models rb))\<rparr>"

text \<open>\<open>models.entry(id).or_insert_with(..)\<close>\<close>

definition model_entry :: "model_id \<Rightarrow> string \<Rightarrow> registry_builder \<Rightarrow> model_descriptor" where
  "model_entry m owner rb =
     (case omap_get (rb_models rb) m of Some d \<Rightarrow> d | None \<Rightarrow> model_descriptor_new m owner)"

definition add_binding ::
  "model_id \<Rightarrow> provider_binding \<Rightarrow> registry_builder \<Rightarrow> (registry_error + unit) \<times> registry_builder" where
  "add_binding m b rb =
     (let model = model_entry m [] rb in
      if omap_contains (md_bindings model) (pb_provider_id b)
      then (Inl (DuplicateBinding m (pb_provider_id b)),
            rb\<lparr>rb_models := omap_insert m model (rb_models rb)\<rparr>)
      else (Inr (),
            rb\<lparr>rb_models := omap_insert m
                 (model\<lparr>md_bindings := omap_insert (pb_provider_id b) b (md_bindings model)\<rparr>)
                 (rb_models rb)\<rparr>))"

definition merge_binding :: "model_id \<Rightarrow> provider_binding \<Rightarrow> registry_builder \<Rightarrow> registry_builder" where
  "merge_binding m b rb =
     (let model = model_entry m [] rb;
          b' = (case omap_get (md_bindings model) (pb_provider_id b) of
                  Some existing \<Rightarrow> merge_with existing b | None \<Rightarrow> b)
      in rb\<lparr>rb_models := omap_insert m
              (model\<lparr>md_bindings := omap_insert (pb_provider_id b) b' (md_bindings model)\<rparr>)
              (rb_models rb)\<rparr>)"

definition add_alias :: "model_id \<Rightarrow> model_id \<Rightarrow> provider_id option \<Rightarrow> registry_builder \<Rightarrow> registry_builder" where
  "add_alias a target p rb =
     rb\<lparr>rb_aliases := omap_insert a \<lparr>ar_alias = a, ar_target = target, ar_provider_id = p\<rparr> (rb_aliases rb)\<rparr>"

definition add_alias_rule :: "model_alias_rule \<Rightarrow> registry_builder \<Rightarrow> registry_builder" where
  "add_alias_rule rule rb = add_alias (ar_alias rule) (ar_target rule) (ar_provider_id rule) rb"

definition add_exclusion :: "model_id \<Rightarrow> provider_id option \<Rightarrow> registry_builder \<Rightarrow> registry_builder" where
  "add_exclusion m p rb = rb\<lparr>rb_exclusions := oset_insert (ModelExclusionRule m p) (rb_exclusions rb)\<rparr>"

section \<open>Contributions\<close>

text \<open>What discovery adds to a binding that came from a catalog.\<close>

definition supplement_catalog :: "discovered_model \<Rightarrow> provider_binding \<Rightarrow> provider_binding \<Rightarrow> provider_binding" where
  "supplement_catalog disc b existing =
     existing
       \<lparr>pb_capabilities :=
          (if au_capabilities (dm_authority disc) \<and> dm_capabilities disc \<noteq> {}
           then pb_capabilities existing \<union> dm_capabilities disc else pb_capabilities existing),
        pb_upstream_model_id :=
          (if au_upstream_id (dm_authority disc) \<and> pb_upstream_model_id existing = None
           then pb_upstream_model_id b else pb_upstream_model_id existing),
        pb_authority := authority_union (pb_authority existing) (dm_authority disc)\<rparr>"

definition discovered_binding :: "provider_id \<Rightarrow> provider_policy \<Rightarrow> discovered_model \<Rightarrow> provider_binding" where
  "discovered_binding p policy disc =
     (let b = pb_with_authority (dm_authority disc) (provider_binding_new p policy Discovered)
      in if au_capabilities (dm_authority disc) then pb_with_capabilities (dm_capabilities disc) b else b)"

definition add_discovered ::
  "provider_id \<Rightarrow> provider_policy \<Rightarrow> discovered_model \<Rightarrow> registry_builder \<Rightarrow> registry_builder" where
  "add_discovered p policy disc rb =
     (let b = discovered_binding p policy disc;
          model = model_entry (dm_id disc) (pid_str p) rb;
          meta = (case context_limit disc of
                    None \<Rightarrow> metadata model
                  | Some limit \<Rightarrow> omap_insert ''context_limit'' (dec_of_nat limit) (metadata model));
          b' = (case omap_get (md_bindings model) p of
                  Some existing \<Rightarrow>
                    if pb_source existing \<noteq> Discovered then supplement_catalog disc b existing
                    else merge_with existing b
                | None \<Rightarrow> b)
      in rb\<lparr>rb_models := omap_insert (dm_id disc)
              (model\<lparr>metadata := meta, md_bindings := omap_insert p b' (md_bindings model)\<rparr>)
              (rb_models rb)\<rparr>)"

fun apply_items ::
  "provider_id \<Rightarrow> provider_policy \<Rightarrow> contribution_item list \<Rightarrow> registry_builder \<Rightarrow>
   (registry_error + unit) \<times> registry_builder" where
  "apply_items p policy [] rb = (Inr (), rb)"
| "apply_items p policy (ItemDescriptor d # items) rb = apply_items p policy items (add_model d rb)"
| "apply_items p policy (ItemDiscovered disc # items) rb =
     (if policy = PolicyClosed then (Inl (UnauthorizedContribution p policy (dm_id disc)), rb)
      else apply_items p policy items (add_discovered p policy disc rb))"

definition apply_contribution ::
  "provider_contribution \<Rightarrow> registry_builder \<Rightarrow> (registry_error + unit) \<times> registry_builder" where
  "apply_contribution c rb =
     (let p = pc_provider_id c;
          rb1 = (case pc_policy c of
                   None \<Rightarrow> rb
                 | Some policy \<Rightarrow>
                     if omap_contains (rb_providers rb) p then rb else register_provider p policy rb)
      in case omap_get (rb_providers rb1) p of
           None \<Rightarrow> (Inl (UnknownProvider p), rb1)
         | Some policy \<Rightarrow>
             (case apply_items p policy (pc_models c) rb1 of
                (Inl e, rb2) \<Rightarrow> (Inl e, rb2)
              | (Inr _, rb2) \<Rightarrow> (Inr (), foldl (\<lambda>rb rule. add_alias_rule rule rb) rb2 (pc_aliases c))))"

section \<open>Building\<close>

definition check_built_alias :: "registry_builder \<Rightarrow> model_id \<times> model_alias_rule \<Rightarrow> registry_error + unit" where
  "check_built_alias rb entry =
     (let (a, rule) = entry in
      rbind (check_alias (rb_aliases rb) a rule) (\<lambda>current.
        if \<not> omap_contains (rb_models rb) current \<and> \<not> has_open_provider (rb_providers rb)
        then Inl (UnknownAliasTarget a current) else Inr ()))"

definition build :: "registry_builder \<Rightarrow> registry_error + registry_snapshot" where
  "build rb =
     rbind (try_each (check_built_alias rb) (rb_aliases rb)) (\<lambda>_.
       if rb_models rb = [] \<and> \<not> has_open_provider (rb_providers rb) then Inl NoRoutableModels
       else Inr \<lparr>rg_version = rb_version rb, rg_source = rb_source rb, rg_models = rb_models rb,
                 rg_providers = rb_providers rb, rg_aliases = rb_aliases rb,
                 rg_exclusions = rb_exclusions rb\<rparr>)"

definition embedded_registry_snapshot ::
  "(string \<Rightarrow> string + registry_snapshot) \<Rightarrow> string \<Rightarrow> registry_error + registry_snapshot" where
  "embedded_registry_snapshot from_json catalog =
     (case from_json catalog of
        Inl e \<Rightarrow> Inl (DeserializationError e)
      | Inr s \<Rightarrow> rbind (registry_validate s) (\<lambda>_. Inr s))"

section \<open>Merging bindings\<close>

text \<open>The rank of a binding: the precedence of its source, then its priority.\<close>

definition binding_rank :: "provider_binding \<Rightarrow> nat \<times> int" where
  "binding_rank b = (precedence (pb_source b), pb_priority b)"

lemma incoming_wins_rank: "incoming_wins a b \<longleftrightarrow> binding_rank a < binding_rank b"
  by (auto simp: incoming_wins_def binding_rank_def is_higher_precedence_than_def
      less_prod_def precedence_inject)

lemma merge_with_rank: "binding_rank (merge_with a b) = max (binding_rank a) (binding_rank b)"
proof (cases "incoming_wins a b")
  case True
  then have "binding_rank (merge_with a b) = binding_rank b"
    by (simp add: merge_with_def binding_rank_def)
  with True show ?thesis by (simp add: incoming_wins_rank max.absorb2 order.strict_implies_order)
next
  case False
  then have "binding_rank (merge_with a b) = binding_rank a"
    by (simp add: merge_with_def binding_rank_def)
  with False show ?thesis by (simp add: incoming_wins_rank max.absorb1 not_less)
qed

text \<open>A binding that has absorbed \<open>c\<close>, which outranks everything merged later.\<close>

definition dominated_by :: "provider_binding \<Rightarrow> provider_binding \<Rightarrow> bool" where
  "dominated_by c b \<longleftrightarrow>
     pb_source b = pb_source c \<and> pb_priority b = pb_priority c \<and> pb_policy b = pb_policy c \<and>
     pb_capabilities b = pb_capabilities c \<and> au_capabilities (pb_authority b)"

lemma merge_with_dominant:
  "binding_rank a < binding_rank c \<Longrightarrow> au_capabilities (pb_authority c) \<Longrightarrow> dominated_by c (merge_with a c)"
  by (simp add: merge_with_def dominated_by_def incoming_wins_rank authority_union_def)

lemma merge_with_dominated:
  assumes dom: "dominated_by c b" and rank: "binding_rank x < binding_rank c"
  shows "dominated_by c (merge_with b x)"
proof -
  have b: "binding_rank b = binding_rank c" using dom by (simp add: dominated_by_def binding_rank_def)
  with rank have "\<not> incoming_wins b x" by (simp add: incoming_wins_rank)
  moreover have "\<not> (pb_source b = pb_source x \<and> pb_priority x = pb_priority b)"
    using rank b by (auto simp: binding_rank_def)
  ultimately show ?thesis
    using dom by (auto simp: merge_with_def dominated_by_def authority_union_def)
qed

lemma merge_all_dominated:
  "dominated_by c b \<Longrightarrow> list_all (\<lambda>x. binding_rank x < binding_rank c) xs \<Longrightarrow>
   dominated_by c (foldl merge_with b xs)"
  by (induction xs arbitrary: b) (auto intro: merge_with_dominated)

lemma merge_all_rank_below:
  "binding_rank b < k \<Longrightarrow> list_all (\<lambda>x. binding_rank x < k) xs \<Longrightarrow>
   binding_rank (foldl merge_with b xs) < k"
  by (induction xs arbitrary: b) (auto simp: merge_with_rank)

text \<open>
  The strongest source decides, in whatever order contributions arrive: among merged
  bindings of one provider, the one whose rank is above all others and that has authority over
  capabilities fixes source, priority, policy and capabilities of the result.
\<close>

theorem strongest_binding_wins:
  assumes "list_all (\<lambda>x. binding_rank x < binding_rank c) (before @ after)"
    and "au_capabilities (pb_authority c)"
  shows "case before @ [c] @ after of [] \<Rightarrow> False
         | b # bs \<Rightarrow>
             let m = foldl merge_with b bs in
             pb_source m = pb_source c \<and> pb_priority m = pb_priority c \<and> pb_policy m = pb_policy c \<and>
             pb_capabilities m = pb_capabilities c"
proof (cases before)
  case Nil
  have "dominated_by c c" using assms(2) by (simp add: dominated_by_def)
  from merge_all_dominated[OF this, of "after"] assms(1) Nil show ?thesis
    by (simp add: dominated_by_def Let_def)
next
  case (Cons b bs)
  have "binding_rank (foldl merge_with b bs) < binding_rank c"
    using assms(1) Cons by (intro merge_all_rank_below) auto
  from merge_all_dominated[OF merge_with_dominant[OF this assms(2)], of "after"] assms(1) Cons
  show ?thesis by (simp add: dominated_by_def Let_def)
qed

section \<open>Discovery\<close>

text \<open>
  \<open>supplements b b'\<close>: \<open>b'\<close> is the catalog binding \<open>b\<close> with capabilities and authority added.
\<close>

definition supplements :: "provider_binding \<Rightarrow> provider_binding \<Rightarrow> bool" where
  "supplements b b' \<longleftrightarrow>
     pb_source b' = pb_source b \<and> pb_priority b' = pb_priority b \<and> pb_policy b' = pb_policy b \<and>
     pb_provider_id b' = pb_provider_id b \<and> pb_capabilities b \<subseteq> pb_capabilities b' \<and>
     pb_upstream_model_id b' = pb_upstream_model_id b"

lemma supplements_refl [simp]: "supplements b b"
  by (simp add: supplements_def)

lemma supplements_trans: "supplements a b \<Longrightarrow> supplements b c \<Longrightarrow> supplements a c"
  by (auto simp: supplements_def)

lemma discovered_binding_upstream [simp]: "pb_upstream_model_id (discovered_binding p policy disc) = None"
  by (simp add: discovered_binding_def pb_with_authority_def pb_with_capabilities_def
      provider_binding_new_def Let_def)

lemma supplement_catalog_supplements:
  "supplements b (supplement_catalog disc (discovered_binding p policy disc) b)"
  by (auto simp: supplements_def supplement_catalog_def)

definition bound_in :: "registry_builder \<Rightarrow> model_id \<Rightarrow> provider_id \<Rightarrow> provider_binding option" where
  "bound_in rb m p = Option.bind (omap_get (rb_models rb) m) (\<lambda>d. omap_get (md_bindings d) p)"

lemma add_discovered_supplements:
  assumes "bound_in rb m q = Some b" "pb_source b \<noteq> Discovered"
  shows "\<exists>b'. bound_in (add_discovered p policy disc rb) m q = Some b' \<and> supplements b b'"
proof (cases "dm_id disc = m \<and> p = q")
  case True
  then show ?thesis
    using assms supplement_catalog_supplements[of b disc p policy]
    by (auto simp: bound_in_def add_discovered_def model_entry_def Let_def bind_eq_Some_conv)
next
  case False
  then have "bound_in (add_discovered p policy disc rb) m q = Some b"
    using assms by (auto simp: bound_in_def add_discovered_def model_entry_def Let_def bind_eq_Some_conv)
  then show ?thesis by auto
qed

fun is_discovered :: "contribution_item \<Rightarrow> bool" where
  "is_discovered (ItemDescriptor d) = False"
| "is_discovered (ItemDiscovered d) = True"

lemma apply_items_supplements:
  assumes "list_all is_discovered items" "bound_in rb m q = Some b" "pb_source b \<noteq> Discovered"
  shows "\<exists>b'. bound_in (snd (apply_items p policy items rb)) m q = Some b' \<and> supplements b b'"
  using assms
proof (induction p policy items rb arbitrary: b rule: apply_items.induct)
  case (3 p policy disc items rb)
  show ?case
  proof (cases "policy = PolicyClosed")
    case False
    obtain b1 where b1: "bound_in (add_discovered p policy disc rb) m q = Some b1" "supplements b b1"
      using add_discovered_supplements[OF "3.prems"(2,3)] by blast
    have "pb_source b1 \<noteq> Discovered" using b1(2) "3.prems"(3) by (simp add: supplements_def)
    from "3.IH"[OF False _ b1(1) this] "3.prems"(1) b1(2) False show ?thesis
      by (auto intro: supplements_trans)
  qed (use "3.prems" in simp)
qed auto

lemma bound_in_aliases:
  "bound_in (foldl (\<lambda>rb rule. add_alias_rule rule rb) rb rules) m q = bound_in rb m q"
  by (induction rules arbitrary: rb) (simp_all add: add_alias_rule_def add_alias_def bound_in_def)

lemma bound_in_register: "bound_in (register_provider p policy rb) m q = bound_in rb m q"
  by (simp add: register_provider_def bound_in_def)

text \<open>
  Discovery cannot weaken the catalog: whatever a provider's discovery contributes, and
  whether it is accepted or refused halfway, a binding that came from a catalog source keeps its
  source, priority, policy and upstream id, and keeps all its capabilities.
\<close>

theorem discovery_preserves_catalog:
  assumes "list_all is_discovered (pc_models c)"
    and "bound_in rb m q = Some b" and "pb_source b \<noteq> Discovered"
  shows "\<exists>b'. bound_in (snd (apply_contribution c rb)) m q = Some b' \<and> supplements b b'"
proof -
  define rb1 where "rb1 = (case pc_policy c of None \<Rightarrow> rb
      | Some policy \<Rightarrow> if omap_contains (rb_providers rb) (pc_provider_id c) then rb
                       else register_provider (pc_provider_id c) policy rb)"
  have b: "bound_in rb1 m q = Some b"
    using assms(2) by (simp add: rb1_def bound_in_register split: option.splits)
  show ?thesis
  proof (cases "omap_get (rb_providers rb1) (pc_provider_id c)")
    case None
    then have "apply_contribution c rb = (Inl (UnknownProvider (pc_provider_id c)), rb1)"
      by (simp add: apply_contribution_def rb1_def Let_def)
    with b show ?thesis by simp
  next
    case (Some policy)
    from apply_items_supplements[OF assms(1) b assms(3), of "pc_provider_id c" policy] Some show ?thesis
      by (auto simp: apply_contribution_def rb1_def[symmetric] Let_def bound_in_aliases split: prod.splits sum.splits)
  qed
qed

text \<open>
  A closed provider accepts no discovery: its contribution of discovered models is refused
  with the first model named, and no model is added or changed.
\<close>

theorem closed_provider_refuses_discovery:
  assumes "omap_get (rb_providers rb) (pc_provider_id c) = Some PolicyClosed"
    and "pc_models c = ItemDiscovered disc # items"
  shows "apply_contribution c rb =
           (Inl (UnauthorizedContribution (pc_provider_id c) PolicyClosed (dm_id disc)), rb)"
  using assms
  by (auto simp: apply_contribution_def Let_def omap_contains_def split: option.splits)

section \<open>Builders as machines\<close>

datatype builder_op =
    BRegister provider_id provider_policy
  | BModel model_descriptor
  | BBinding model_id provider_binding
  | BMerge model_id provider_binding
  | BContribution provider_contribution
  | BAlias model_alias_rule
  | BExclude model_id "provider_id option"

fun builder_step :: "registry_builder \<Rightarrow> builder_op \<Rightarrow> registry_builder" where
  "builder_step rb (BRegister p policy) = register_provider p policy rb"
| "builder_step rb (BModel d) = add_model d rb"
| "builder_step rb (BBinding m b) = snd (add_binding m b rb)"
| "builder_step rb (BMerge m b) = merge_binding m b rb"
| "builder_step rb (BContribution c) = snd (apply_contribution c rb)"
| "builder_step rb (BAlias rule) = add_alias_rule rule rb"
| "builder_step rb (BExclude m p) = add_exclusion m p rb"

definition models_keyed :: "(model_id, model_descriptor) omap \<Rightarrow> bool" where
  "models_keyed ms \<longleftrightarrow> omap_ok ms \<and> list_all (\<lambda>(m, d). md_id d = m) ms"

definition aliases_keyed :: "(model_id, model_alias_rule) omap \<Rightarrow> bool" where
  "aliases_keyed al \<longleftrightarrow> omap_ok al \<and> list_all (\<lambda>(k, rule). ar_alias rule = k) al"

definition builder_ok :: "registry_builder \<Rightarrow> bool" where
  "builder_ok rb \<longleftrightarrow>
     models_keyed (rb_models rb) \<and> aliases_keyed (rb_aliases rb) \<and> omap_ok (rb_providers rb) \<and>
     oset_ok (rb_exclusions rb)"

lemma models_keyed_insert:
  "models_keyed ms \<Longrightarrow> md_id d = m \<Longrightarrow> models_keyed (omap_insert m d ms)"
  using set_omap_insert_subset[of m d ms] by (auto simp: models_keyed_def list_all_iff)

lemma aliases_keyed_insert:
  "aliases_keyed al \<Longrightarrow> ar_alias rule = a \<Longrightarrow> aliases_keyed (omap_insert a rule al)"
  using set_omap_insert_subset[of a rule al] by (auto simp: aliases_keyed_def list_all_iff)

lemma models_keyed_get: "models_keyed ms \<Longrightarrow> omap_get ms m = Some d \<Longrightarrow> md_id d = m"
  by (auto simp: models_keyed_def list_all_iff dest!: omap_get_in_set)

lemma model_entry_id: "models_keyed (rb_models rb) \<Longrightarrow> md_id (model_entry m owner rb) = m"
  by (auto simp: model_entry_def model_descriptor_new_def dest: models_keyed_get split: option.splits)

lemma add_model_ok: "builder_ok rb \<Longrightarrow> builder_ok (add_model d rb)"
  by (auto simp: builder_ok_def add_model_def merge_descriptor_def intro!: models_keyed_insert
      dest: models_keyed_get split: option.splits)

lemma add_discovered_ok: "builder_ok rb \<Longrightarrow> builder_ok (add_discovered p policy disc rb)"
  by (simp add: builder_ok_def add_discovered_def Let_def models_keyed_insert model_entry_id)

lemma apply_items_ok: "builder_ok rb \<Longrightarrow> builder_ok (snd (apply_items p policy items rb))"
  by (induction p policy items rb rule: apply_items.induct) (auto simp: add_model_ok add_discovered_ok)

lemma add_alias_rule_ok: "builder_ok rb \<Longrightarrow> builder_ok (add_alias_rule rule rb)"
  by (simp add: builder_ok_def add_alias_rule_def add_alias_def aliases_keyed_insert)

lemma add_alias_rules_ok:
  "builder_ok rb \<Longrightarrow> builder_ok (foldl (\<lambda>rb rule. add_alias_rule rule rb) rb rules)"
  by (induction rules arbitrary: rb) (auto simp: add_alias_rule_ok)

lemma register_provider_ok: "builder_ok rb \<Longrightarrow> builder_ok (register_provider p policy rb)"
  by (simp add: builder_ok_def register_provider_def)

lemma apply_contribution_ok: "builder_ok rb \<Longrightarrow> builder_ok (snd (apply_contribution c rb))"
proof -
  assume ok: "builder_ok rb"
  define rb1 where "rb1 = (case pc_policy c of None \<Rightarrow> rb
      | Some policy \<Rightarrow> if omap_contains (rb_providers rb) (pc_provider_id c) then rb
                       else register_provider (pc_provider_id c) policy rb)"
  have rb1: "builder_ok rb1" using ok by (simp add: rb1_def register_provider_ok split: option.splits)
  have "builder_ok (snd (apply_items (pc_provider_id c) policy (pc_models c) rb1))" for policy
    by (rule apply_items_ok[OF rb1])
  then show ?thesis
    using rb1
    by (auto simp: apply_contribution_def rb1_def[symmetric] Let_def
        split: option.splits prod.splits sum.splits intro: add_alias_rules_ok)
       (metis add_alias_rules_ok snd_conv)+
qed

lemma builder_step_ok: "builder_ok rb \<Longrightarrow> builder_ok (builder_step rb c)"
proof (cases c)
  case (BBinding m b)
  assume "builder_ok rb"
  then show ?thesis using BBinding
    by (simp add: builder_ok_def add_binding_def Let_def models_keyed_insert model_entry_id)
next
  case (BMerge m b)
  assume "builder_ok rb"
  then show ?thesis using BMerge
    by (simp add: builder_ok_def merge_binding_def Let_def models_keyed_insert model_entry_id)
next
  case (BExclude m p)
  assume "builder_ok rb"
  then show ?thesis using BExclude by (simp add: builder_ok_def add_exclusion_def)
qed (simp_all add: register_provider_ok add_model_ok apply_contribution_ok add_alias_rule_ok)

interpretation builder_machine: invariant_machine "builder_new v source" builder_step builder_ok
proof unfold_locales
  show "builder_ok (builder_new v source)"
    by (simp add: builder_ok_def builder_new_def models_keyed_def aliases_keyed_def oset_ok_def)
qed (rule builder_step_ok)

lemma build_fields:
  assumes "build rb = Inr s"
  shows "rg_models s = rb_models rb" "rg_aliases s = rb_aliases rb" "rg_providers s = rb_providers rb"
    "try_each (check_built_alias rb) (rb_aliases rb) = Inr ()"
  using assms unfolding build_def rbind_eq_Inr by (auto split: if_splits)

text \<open>
  C33. A built snapshot is usable: however a builder was filled, the snapshot it builds stores
  every model and alias under its own id, every id resolves through its aliases, and the
  capability lookup of every provider's contribution returns.
\<close>

theorem built_snapshot_usable:
  assumes "build (foldl builder_step (builder_new v source) ops) = Inr s"
  shows "models_keyed (rg_models s) \<and> aliases_keyed (rg_aliases s) \<and>
         (\<exists>c. resolve_alias s m = Inr c) \<and>
         (\<exists>r. capability_profile (contribution_for_provider s p) model = Some r)"
proof -
  let ?rb = "foldl builder_step (builder_new v source) ops"
  have ok: "builder_ok ?rb" by (rule builder_machine.inv_reachable)
  note s = build_fields[OF assms]
  have walk: "\<exists>c. resolve_alias s x = Inr c" for x
  proof (cases "omap_get (rg_aliases s) x")
    case None
    then show ?thesis by (simp add: resolve_alias_def alias_walk_end)
  next
    case (Some rule)
    from s(4) omap_get_in_set[OF Some] have "check_built_alias ?rb (x, rule) = Inr ()"
      unfolding s(2) try_each_Inr by blast
    then show ?thesis
      using check_alias_walk[OF Some] by (auto simp: check_built_alias_def s(2) resolve_alias_def)
  qed
  have keys: "alias_keys_match s"
    using ok by (simp add: alias_keys_match_def builder_ok_def aliases_keyed_def s(2))
  from capability_profile_walk_returns[OF keys walk] ok walk show ?thesis
    by (simp add: builder_ok_def s)
qed

end
