(* ===== verification/Registry_Envelope.thy ===== *)
theory Registry_Envelope
  imports Registry_Builder
begin

text \<open>
  Signed catalogs, \<^verbatim>\<open>crates/registry/src/envelope.rs\<close>. Ed25519, base64 and the JSON codec are
  third-party code: they are the fields of \<open>catalog_codec\<close>, an argument of the definitions that
  call them. Byte strings are \<open>string\<close>s.
\<close>

section \<open>Envelopes and keys\<close>

definition SCHEMA_VERSION_V1 :: nat where "SCHEMA_VERSION_V1 = 1"
definition DEFAULT_CLOCK_SKEW_SECS :: nat where "DEFAULT_CLOCK_SKEW_SECS = 300"

definition EMBEDDED_PROD_KEY_ID_V1 :: string where
  "EMBEDDED_PROD_KEY_ID_V1 = ''mahoquot-prod-2026-v1''"

definition EMBEDDED_PROD_KEY_BYTES_V1 :: "nat list" where
  "EMBEDDED_PROD_KEY_BYTES_V1 =
     [41, 74, 254, 13, 1, 102, 184, 174, 64, 6, 45, 226, 177, 174, 215, 63, 254, 243, 39, 173, 238,
      180, 141, 174, 44, 84, 23, 241, 90, 168, 28, 74]"

definition TEST_KEY_ID_V1 :: string where "TEST_KEY_ID_V1 = ''test-ed25519-v1''"

definition TEST_KEY_BYTES_V1 :: "nat list" where
  "TEST_KEY_BYTES_V1 =
     [91, 148, 162, 51, 103, 29, 252, 144, 197, 138, 122, 175, 189, 227, 148, 187, 37, 179, 95, 102,
      183, 130, 214, 242, 29, 183, 6, 97, 59, 116, 173, 172]"

datatype catalog_verification_error =
    UnknownKeyId string
  | IncompatibleSchema nat
  | VersionDowngrade catalog_version "catalog_version option" "catalog_version option" catalog_version
  | FutureTimestamp nat nat nat
  | Expired nat nat
  | CanonicalizationMismatch
  | InvalidSignatureFormat string
  | SignatureVerificationFailed
  | MalformedJson string
  | EmptyCatalog
  | ZeroFallbackRoutableBindings
  | VersionMismatch catalog_version catalog_version
  | RegistryInvalid registry_error
  | EnvelopeSerializationError string

record catalog_envelope =
  schema_version :: nat
  catalog_version :: catalog_version
  key_id :: string
  generated_at :: nat
  expires_at :: "nat option"
  signature :: string

definition envelope_new ::
  "catalog_version \<Rightarrow> string \<Rightarrow> nat \<Rightarrow> nat option \<Rightarrow> string \<Rightarrow> catalog_envelope" where
  "envelope_new v kid g e sig =
     \<lparr>schema_version = SCHEMA_VERSION_V1, catalog_version = v, key_id = kid, generated_at = g,
      expires_at = e, signature = sig\<rparr>"

text \<open>
  The functions of the crates: parsing a public key, decoding and encoding base64, parsing a
  signature, verifying and signing, and parsing and printing JSON.
\<close>

record ('k, 'sk, 'v) catalog_codec =
  cc_key_from_bytes :: "nat list \<Rightarrow> 'k option"
  cc_b64_decode :: "string \<Rightarrow> string + string"
  cc_b64_encode :: "string \<Rightarrow> string"
  cc_signature_from_slice :: "string \<Rightarrow> string + string"
  cc_verify :: "'k \<Rightarrow> string \<Rightarrow> string \<Rightarrow> bool"
  cc_sign :: "'sk \<Rightarrow> string \<Rightarrow> string"
  cc_verifying_key :: "'sk \<Rightarrow> 'k"
  cc_json_parse :: "string \<Rightarrow> string + 'v"
  cc_json_print :: "'v \<Rightarrow> string + string"
  cc_snapshot_parse :: "string \<Rightarrow> string + registry_snapshot"

type_synonym 'k keyring = "(string, 'k) omap"

definition keyring_new :: "'k keyring" where "keyring_new = []"

definition add_key :: "string \<Rightarrow> 'k \<Rightarrow> 'k keyring \<Rightarrow> 'k keyring" where
  "add_key kid k kr = omap_insert kid k kr"

text \<open>\<open>debug\<close> is \<open>cfg(any(test, debug_assertions))\<close>.\<close>

definition with_test_key :: "('k, 'sk, 'v) catalog_codec \<Rightarrow> 'k keyring \<Rightarrow> 'k keyring" where
  "with_test_key cc kr =
     (case cc_key_from_bytes cc TEST_KEY_BYTES_V1 of None \<Rightarrow> kr | Some k \<Rightarrow> add_key TEST_KEY_ID_V1 k kr)"

definition embedded_default :: "('k, 'sk, 'v) catalog_codec \<Rightarrow> bool \<Rightarrow> 'k keyring" where
  "embedded_default cc debug =
     (let kr = (case cc_key_from_bytes cc EMBEDDED_PROD_KEY_BYTES_V1 of
                  None \<Rightarrow> keyring_new | Some k \<Rightarrow> add_key EMBEDDED_PROD_KEY_ID_V1 k keyring_new)
      in if debug then with_test_key cc kr else kr)"

section \<open>Signing and verifying\<close>

definition newline :: char where "newline = CHR 0x0A"

definition compute_signing_bytes ::
  "nat \<Rightarrow> catalog_version \<Rightarrow> nat \<Rightarrow> nat option \<Rightarrow> string \<Rightarrow> string \<Rightarrow> string" where
  "compute_signing_bytes sv cv g e kid payload =
     ''MAHOQUOT-MODEL-CATALOG-V1'' @ newline #
     ''schema_version:'' @ dec_of_nat sv @ newline #
     ''catalog_version:'' @ dec_of_nat cv @ newline #
     ''generated_at:'' @ dec_of_nat g @ newline #
     ''expires_at:'' @ (case e of Some x \<Rightarrow> dec_of_nat x | None \<Rightarrow> ''none'') @ newline #
     ''key_id:'' @ kid @ newline #
     ''canonical_payload:'' @ newline # payload"

definition canonicalize_json ::
  "('k, 'sk, 'v) catalog_codec \<Rightarrow> string \<Rightarrow> catalog_verification_error + string" where
  "canonicalize_json cc bytes =
     (case cc_json_parse cc bytes of
        Inl e \<Rightarrow> Inl (MalformedJson e)
      | Inr v \<Rightarrow> (case cc_json_print cc v of
                   Inl e \<Rightarrow> Inl (EnvelopeSerializationError e) | Inr out \<Rightarrow> Inr out))"

definition is_canonical_json ::
  "('k, 'sk, 'v) catalog_codec \<Rightarrow> string \<Rightarrow> catalog_verification_error + bool" where
  "is_canonical_json cc bytes = rbind (canonicalize_json cc bytes) (\<lambda>c. Inr (bytes = c))"

definition sign_catalog ::
  "('k, 'sk, 'v) catalog_codec \<Rightarrow> 'sk \<Rightarrow> string \<Rightarrow> catalog_version \<Rightarrow> nat \<Rightarrow> nat option \<Rightarrow> string \<Rightarrow>
   catalog_verification_error + catalog_envelope" where
  "sign_catalog cc sk kid cv g e payload =
     rbind (is_canonical_json cc payload) (\<lambda>canonical.
       if \<not> canonical then Inl CanonicalizationMismatch
       else
         let signing_bytes = compute_signing_bytes SCHEMA_VERSION_V1 cv g e kid payload
         in Inr (envelope_new cv kid g e (cc_b64_encode cc (cc_sign cc sk signing_bytes))))"

fun version_threshold :: "catalog_version option \<Rightarrow> catalog_version option \<Rightarrow> catalog_version option" where
  "version_threshold (Some a) (Some b) = Some (max a b)"
| "version_threshold (Some a) None = Some a"
| "version_threshold None (Some b) = Some b"
| "version_threshold None None = None"

definition has_routable_binding :: "registry_snapshot \<Rightarrow> bool" where
  "has_routable_binding s =
     list_ex (\<lambda>(m, d). list_ex (\<lambda>(p, _). \<not> excluded_for s m p \<and> \<not> globally_excluded s m) (md_bindings d))
       (rg_models s)"

text \<open>The checks, in the order of the code.\<close>

definition check_key ::
  "catalog_envelope \<Rightarrow> 'k keyring \<Rightarrow> catalog_verification_error + 'k" where
  "check_key env kr =
     (if schema_version env \<noteq> SCHEMA_VERSION_V1 then Inl (IncompatibleSchema (schema_version env))
      else (case omap_get kr (key_id env) of
              None \<Rightarrow> Inl (UnknownKeyId (key_id env)) | Some k \<Rightarrow> Inr k))"

definition check_version ::
  "catalog_envelope \<Rightarrow> catalog_version option \<Rightarrow> catalog_version option \<Rightarrow>
   catalog_verification_error + unit" where
  "check_version env act lkg =
     (case version_threshold act lkg of
        Some t \<Rightarrow> if catalog_version env \<le> t
                  then Inl (VersionDowngrade (catalog_version env) act lkg t) else Inr ()
      | None \<Rightarrow> Inr ())"

definition check_times :: "catalog_envelope \<Rightarrow> nat \<Rightarrow> nat \<Rightarrow> catalog_verification_error + unit" where
  "check_times env now skew =
     (if generated_at env > u64_saturating_add now skew
      then Inl (FutureTimestamp (generated_at env) now skew)
      else (case expires_at env of
              Some x \<Rightarrow> if x < now then Inl (Expired x now) else Inr ()
            | None \<Rightarrow> Inr ()))"

definition check_signature ::
  "('k, 'sk, 'v) catalog_codec \<Rightarrow> catalog_envelope \<Rightarrow> string \<Rightarrow> 'k \<Rightarrow>
   catalog_verification_error + unit" where
  "check_signature cc env payload k =
     (case cc_b64_decode cc (trim (signature env)) of
        Inl e \<Rightarrow> Inl (InvalidSignatureFormat e)
      | Inr sig_bytes \<Rightarrow>
          (case cc_signature_from_slice cc sig_bytes of
             Inl e \<Rightarrow> Inl (InvalidSignatureFormat e)
           | Inr sig \<Rightarrow>
               if cc_verify cc k
                    (compute_signing_bytes (schema_version env) (catalog_version env)
                       (generated_at env) (expires_at env) (key_id env) payload) sig
               then Inr () else Inl SignatureVerificationFailed))"

definition check_payload ::
  "('k, 'sk, 'v) catalog_codec \<Rightarrow> catalog_envelope \<Rightarrow> string \<Rightarrow>
   catalog_verification_error + registry_snapshot" where
  "check_payload cc env payload =
     rbind (is_canonical_json cc payload) (\<lambda>canonical.
       if \<not> canonical then Inl CanonicalizationMismatch
       else (case cc_snapshot_parse cc payload of
               Inl e \<Rightarrow> Inl (MalformedJson e)
             | Inr s \<Rightarrow>
                 if rg_version s \<noteq> catalog_version env
                 then Inl (VersionMismatch (catalog_version env) (rg_version s))
                 else if rg_models s = [] then Inl EmptyCatalog
                 else if \<not> has_routable_binding s then Inl ZeroFallbackRoutableBindings
                 else (case registry_validate s of
                         Inl e \<Rightarrow> Inl (RegistryInvalid e) | Inr _ \<Rightarrow> Inr s)))"

definition verify_catalog_envelope ::
  "('k, 'sk, 'v) catalog_codec \<Rightarrow> catalog_envelope \<Rightarrow> string \<Rightarrow> 'k keyring \<Rightarrow>
   catalog_version option \<Rightarrow> catalog_version option \<Rightarrow> nat \<Rightarrow> nat \<Rightarrow>
   catalog_verification_error + registry_snapshot" where
  "verify_catalog_envelope cc env payload kr act lkg now skew =
     rbind (check_key env kr) (\<lambda>k.
     rbind (check_version env act lkg) (\<lambda>_.
     rbind (check_times env now skew) (\<lambda>_.
     rbind (check_signature cc env payload k) (\<lambda>_.
       check_payload cc env payload))))"

section \<open>What a signature covers\<close>

lemma split_at_newline:
  "a @ newline # x = b @ newline # y \<Longrightarrow> newline \<notin> set a \<Longrightarrow> newline \<notin> set b \<Longrightarrow> a = b \<and> x = y"
proof (induction a arbitrary: b)
  case Nil
  then show ?case by (cases b) auto
next
  case (Cons c a)
  then show ?case by (cases b) auto
qed

lemma newline_not_digit [simp]: "newline \<notin> set (dec_of_nat n)"
  by (auto simp: newline_def dest: dec_of_nat_range)

lemma none_not_decimal: "dec_of_nat n \<noteq> ''none''"
proof
  assume "dec_of_nat n = ''none''"
  then have "CHR ''n'' \<in> set (dec_of_nat n)" by simp
  then show False by (auto dest: dec_of_nat_range)
qed

definition expiry_str :: "nat option \<Rightarrow> string" where
  "expiry_str e = (case e of Some x \<Rightarrow> dec_of_nat x | None \<Rightarrow> ''none'')"

lemma expiry_str_inject [simp]: "expiry_str a = expiry_str b \<longleftrightarrow> a = b"
  by (auto simp: expiry_str_def none_not_decimal none_not_decimal[symmetric] split: option.splits)

lemma newline_not_expiry [simp]: "newline \<notin> set (expiry_str e)"
  by (auto simp: expiry_str_def split: option.splits) (simp_all add: newline_def)

text \<open>
  C3. A signature covers every field: two signing inputs are equal only if schema version,
  catalog version, both timestamps, key id and payload are, provided the key ids have no line
  break. A signature cannot be moved to an envelope that differs anywhere.
\<close>

theorem signing_bytes_injective:
  assumes "compute_signing_bytes sv cv g e kid payload = compute_signing_bytes sv' cv' g' e' kid' payload'"
    and "newline \<notin> set kid" and "newline \<notin> set kid'"
  shows "sv = sv' \<and> cv = cv' \<and> g = g' \<and> e = e' \<and> kid = kid' \<and> payload = payload'"
proof -
  from assms(1) have 1: "dec_of_nat sv @ newline # ''catalog_version:'' @ dec_of_nat cv @ newline #
     ''generated_at:'' @ dec_of_nat g @ newline # ''expires_at:'' @ expiry_str e @ newline #
     ''key_id:'' @ kid @ newline # ''canonical_payload:'' @ newline # payload =
     dec_of_nat sv' @ newline # ''catalog_version:'' @ dec_of_nat cv' @ newline #
     ''generated_at:'' @ dec_of_nat g' @ newline # ''expires_at:'' @ expiry_str e' @ newline #
     ''key_id:'' @ kid' @ newline # ''canonical_payload:'' @ newline # payload'"
    by (simp add: compute_signing_bytes_def expiry_str_def)
  note 2 = split_at_newline[OF 1 newline_not_digit newline_not_digit]
  then have 3: "dec_of_nat cv @ newline # ''generated_at:'' @ dec_of_nat g @ newline #
      ''expires_at:'' @ expiry_str e @ newline # ''key_id:'' @ kid @ newline # ''canonical_payload:'' @ newline # payload =
      dec_of_nat cv' @ newline # ''generated_at:'' @ dec_of_nat g' @ newline #
      ''expires_at:'' @ expiry_str e' @ newline # ''key_id:'' @ kid' @ newline # ''canonical_payload:'' @ newline # payload'"
    by simp
  note 4 = split_at_newline[OF 3 newline_not_digit newline_not_digit]
  then have 5: "dec_of_nat g @ newline # ''expires_at:'' @ expiry_str e @ newline # ''key_id:'' @ kid @
      newline # ''canonical_payload:'' @ newline # payload =
      dec_of_nat g' @ newline # ''expires_at:'' @ expiry_str e' @ newline # ''key_id:'' @ kid' @
      newline # ''canonical_payload:'' @ newline # payload'" by simp
  note 6 = split_at_newline[OF 5 newline_not_digit newline_not_digit]
  then have 7: "expiry_str e @ newline # ''key_id:'' @ kid @ newline # ''canonical_payload:'' @ newline # payload =
      expiry_str e' @ newline # ''key_id:'' @ kid' @ newline # ''canonical_payload:'' @ newline # payload'" by simp
  note 8 = split_at_newline[OF 7 newline_not_expiry newline_not_expiry]
  then have 9: "kid @ newline # ''canonical_payload:'' @ newline # payload =
      kid' @ newline # ''canonical_payload:'' @ newline # payload'" by simp
  note 10 = split_at_newline[OF 9 assms(2,3)]
  from 2 4 6 8 10 show ?thesis by simp
qed

section \<open>What an accepted catalog guarantees\<close>

lemma version_threshold_newer:
  "check_version env act lkg = Inr () \<longleftrightarrow>
     (\<forall>v. act = Some v \<longrightarrow> v < catalog_version env) \<and> (\<forall>v. lkg = Some v \<longrightarrow> v < catalog_version env)"
  by (cases act; cases lkg) (auto simp: check_version_def)

lemma check_payload_Inr:
  "check_payload cc env payload = Inr s \<longleftrightarrow>
     is_canonical_json cc payload = Inr True \<and> cc_snapshot_parse cc payload = Inr s \<and>
     rg_version s = catalog_version env \<and> rg_models s \<noteq> [] \<and> has_routable_binding s \<and>
     registry_validate s = Inr ()"
  by (auto simp: check_payload_def split: sum.splits if_splits)

text \<open>
  What it means that an envelope is authentic for a payload: the keyring has the key it names,
  and the signature that is in the envelope, base64 decoded, verifies under that key over the
  signing bytes of the envelope's own fields and the payload.
\<close>

definition authentic :: "('k, 'sk, 'v) catalog_codec \<Rightarrow> 'k keyring \<Rightarrow> catalog_envelope \<Rightarrow> string \<Rightarrow> bool" where
  "authentic cc kr env payload \<longleftrightarrow>
     (\<exists>k bytes sig. omap_get kr (key_id env) = Some k \<and>
        cc_b64_decode cc (trim (signature env)) = Inr bytes \<and>
        cc_signature_from_slice cc bytes = Inr sig \<and>
        cc_verify cc k (compute_signing_bytes SCHEMA_VERSION_V1 (catalog_version env)
          (generated_at env) (expires_at env) (key_id env) payload) sig)"

lemma checked_signature_authentic:
  assumes "check_key env kr = Inr k" "check_signature cc env payload k = Inr ()"
  shows "authentic cc kr env payload"
proof -
  have "schema_version env = SCHEMA_VERSION_V1" "omap_get kr (key_id env) = Some k"
    using assms(1) by (auto simp: check_key_def split: if_splits option.splits)
  then show ?thesis
    using assms(2) by (auto simp: authentic_def check_signature_def split: sum.splits if_splits)
qed

text \<open>
  C34. An accepted catalog is authentic, fresh, newer and valid: the signature in its envelope
  verifies under a key of the keyring over the envelope's fields and exactly this payload, it is
  newer than the active and the last known good version, it is neither from the future nor
  expired, and the snapshot is the parsed payload, has the signed version, passes validation and
  has a routable binding.
\<close>

theorem accepted_catalog_is_trusted:
  assumes "verify_catalog_envelope cc env payload kr act lkg now skew = Inr s"
  shows "authentic cc kr env payload \<and>
         (\<forall>v. act = Some v \<or> lkg = Some v \<longrightarrow> v < rg_version s) \<and>
         generated_at env \<le> u64_saturating_add now skew \<and>
         (\<forall>x. expires_at env = Some x \<longrightarrow> now \<le> x) \<and>
         cc_snapshot_parse cc payload = Inr s \<and> rg_version s = catalog_version env \<and>
         has_routable_binding s \<and> registry_validate s = Inr ()"
proof -
  from assms obtain k where k: "check_key env kr = Inr k"
    and v: "check_version env act lkg = Inr ()" and t: "check_times env now skew = Inr ()"
    and sig: "check_signature cc env payload k = Inr ()" and p: "check_payload cc env payload = Inr s"
    unfolding verify_catalog_envelope_def rbind_eq_Inr by auto
  have "generated_at env \<le> u64_saturating_add now skew" "\<forall>x. expires_at env = Some x \<longrightarrow> now \<le> x"
    using t by (auto simp: check_times_def not_less split: if_splits option.splits)
  then show ?thesis
    using checked_signature_authentic[OF k sig] v p by (auto simp: version_threshold_newer check_payload_Inr)
qed

section \<open>Signing and verifying agree\<close>

text \<open>
  What the crates promise of a signing key: its public key verifies its signatures, a signature
  survives base64 and is accepted by the signature parser, and base64 text needs no trimming.
\<close>

definition codec_signs :: "('k, 'sk, 'v) catalog_codec \<Rightarrow> 'sk \<Rightarrow> bool" where
  "codec_signs cc sk \<longleftrightarrow>
     (\<forall>msg. cc_verify cc (cc_verifying_key cc sk) msg (cc_sign cc sk msg) \<and>
        trim (cc_b64_encode cc (cc_sign cc sk msg)) = cc_b64_encode cc (cc_sign cc sk msg) \<and>
        cc_b64_decode cc (cc_b64_encode cc (cc_sign cc sk msg)) = Inr (cc_sign cc sk msg) \<and>
        cc_signature_from_slice cc (cc_sign cc sk msg) = Inr (cc_sign cc sk msg))"

text \<open>
  A catalog that was signed is accepted: with the signer's public key in the keyring, an
  envelope of \<open>sign_catalog\<close> for a payload whose snapshot is valid and routable verifies while
  it is newer than the known versions, not from the future and not expired.
\<close>

theorem signed_catalog_verifies:
  assumes "codec_signs cc sk" and "sign_catalog cc sk kid cv g e payload = Inr env"
    and "omap_get kr kid = Some (cc_verifying_key cc sk)"
    and "\<And>v. act = Some v \<or> lkg = Some v \<Longrightarrow> v < cv"
    and "g \<le> u64_saturating_add now skew" and "\<And>x. e = Some x \<Longrightarrow> now \<le> x"
    and "cc_snapshot_parse cc payload = Inr s" and "rg_version s = cv"
    and "has_routable_binding s" and "registry_validate s = Inr ()"
  shows "verify_catalog_envelope cc env payload kr act lkg now skew = Inr s"
proof -
  from assms(2) have canon: "is_canonical_json cc payload = Inr True"
    and env: "env = envelope_new cv kid g e
        (cc_b64_encode cc (cc_sign cc sk (compute_signing_bytes SCHEMA_VERSION_V1 cv g e kid payload)))"
    by (auto simp: sign_catalog_def Let_def split: if_splits)
  have "check_key env kr = Inr (cc_verifying_key cc sk)"
    using assms(3) by (simp add: check_key_def env envelope_new_def)
  moreover have "check_version env act lkg = Inr ()"
    using assms(4) by (simp add: version_threshold_newer env envelope_new_def)
  moreover have "check_times env now skew = Inr ()"
    using assms(5,6) by (auto simp: check_times_def env envelope_new_def not_less split: option.splits)
  moreover have "check_signature cc env payload (cc_verifying_key cc sk) = Inr ()"
    using assms(1) by (simp add: check_signature_def env envelope_new_def codec_signs_def)
  moreover have "rg_models s \<noteq> []" using assms(9) by (auto simp: has_routable_binding_def)
  then have "check_payload cc env payload = Inr s"
    using canon assms(7-10) by (simp add: check_payload_Inr env envelope_new_def)
  ultimately show ?thesis by (simp add: verify_catalog_envelope_def)
qed

text \<open>A release build trusts the production key only.\<close>

lemma release_keyring: "omap_get (embedded_default cc False) kid = Some k \<Longrightarrow> kid = EMBEDDED_PROD_KEY_ID_V1"
  by (auto simp: embedded_default_def keyring_new_def add_key_def split: option.splits if_splits)

end
