(* ===== verification/Registry_Examples.thy ===== *)
theory Registry_Examples
  imports Registry_Builder
begin

text \<open>Concrete registries: each property of the registry theories applied to one, and the
  corner cases that the properties leave open.\<close>

section \<open>A small catalog\<close>

definition pid_a :: provider_id where "pid_a = ProviderId ''acme''"
definition pid_o :: provider_id where "pid_o = ProviderId ''openp''"
definition mid_m :: model_id where "mid_m = ModelId ''m1''"
definition mid_fast :: model_id where "mid_fast = ModelId ''fast''"

definition bind_a :: provider_binding where
  "bind_a = (provider_binding_new pid_a PolicyClosed RemoteSigned)\<lparr>pb_capabilities := {Chat}\<rparr>"

definition bind_o :: provider_binding where
  "bind_o = provider_binding_new pid_o PolicyOpen EmbeddedFallback"

definition model_m :: model_descriptor where
  "model_m = with_binding bind_o (with_binding bind_a (model_descriptor_new mid_m ''acme''))"

definition rule_fast :: model_alias_rule where
  "rule_fast = \<lparr>ar_alias = mid_fast, ar_target = mid_m, ar_provider_id = None\<rparr>"

definition catalog :: registry_snapshot where
  "catalog =
     \<lparr>rg_version = 1, rg_source = RemoteSigned, rg_models = [(mid_m, model_m)],
      rg_providers = [(pid_a, PolicyClosed), (pid_o, PolicyOpen)],
      rg_aliases = [(mid_fast, rule_fast)], rg_exclusions = []\<rparr>"

lemma catalog_valid: "registry_validate catalog = Inr ()"
  by code_simp

definition resolved_fast :: resolved_model where
  "resolved_fast =
     \<lparr>canonical_id = mid_m, rm_descriptor = Some model_m, eligible_bindings = [bind_a],
      rm_capabilities = {Chat}, rm_source = RemoteSigned\<rparr>"

lemma catalog_resolves: "registry_resolve catalog ''fast'' = Inr resolved_fast"
  by code_simp

theorem valid_snapshot_aliases_resolve_witness:
  "\<exists>c n. resolve_alias catalog mid_fast = Inr c \<and> alias_reaches (rg_aliases catalog) n mid_fast c \<and>
     n \<le> MAX_ALIAS_DEPTH \<and> omap_get (rg_aliases catalog) c = None"
  using valid_snapshot_aliases_resolve[OF catalog_valid, of mid_fast] by blast

theorem resolve_honours_exclusions_witness:
  "\<not> globally_excluded catalog mid_m \<and> \<not> excluded_for catalog mid_m pid_a"
  using resolve_honours_exclusions[OF catalog_resolves]
  by (simp add: resolved_fast_def bind_a_def provider_binding_new_def)

theorem open_provider_cannot_steal_witness:
  "claims catalog mid_m model_m bind_a \<and> bind_a \<in> set (omap_values (md_bindings model_m))"
proof -
  have c: "claims catalog mid_m model_m bind_a"
    by (auto simp: claims_def model_m_def with_binding_def model_descriptor_new_def excluded_for_def catalog_def
        bind_a_def bind_o_def provider_binding_new_def pid_a_def pid_o_def)
  have r: "rm_descriptor resolved_fast = Some model_m" "canonical_id resolved_fast = mid_m"
    "bind_a \<in> set (eligible_bindings resolved_fast)" "md_bindings model_m \<noteq> []"
    by (simp_all add: resolved_fast_def model_m_def with_binding_def model_descriptor_new_def)
  from open_provider_cannot_steal[OF catalog_resolves r(3)] c r show ?thesis by auto
qed

theorem resolved_bindings_ordered_witness:
  "sorted (map binding_order [bind_a]) \<and> bind_a \<in> set (omap_values (md_bindings model_m))"
proof -
  have "rm_descriptor resolved_fast = Some model_m" "md_bindings model_m \<noteq> []"
    by (simp_all add: resolved_fast_def model_m_def with_binding_def model_descriptor_new_def)
  from resolved_bindings_ordered[OF catalog_resolves this] show ?thesis by (simp add: resolved_fast_def)
qed

section \<open>Local settings\<close>

definition mid_quick :: model_id where "mid_quick = ModelId ''quick''"

definition rule_quick :: model_alias_rule where
  "rule_quick = \<lparr>ar_alias = mid_quick, ar_target = mid_fast, ar_provider_id = None\<rparr>"

definition composed :: registry_snapshot where
  "composed = catalog\<lparr>rg_source := LocalOverride,
     rg_aliases := [(mid_fast, rule_fast), (mid_quick, rule_quick)]\<rparr>"

lemma compose_quick: "compose_with_settings catalog [rule_quick] [] [] [] = Inr composed"
  by code_simp

theorem composed_aliases_end_in_models_witness:
  "\<exists>c. resolve_alias composed mid_quick = Inr c \<and> omap_contains (rg_models composed) c"
  by (rule composed_aliases_end_in_models[OF compose_quick]) code_simp

theorem no_silent_blackout_witness:
  "\<exists>m d b. omap_get (rg_models composed) m = Some d \<and> omap_get (md_bindings d) pid_a = Some b \<and>
     \<not> globally_excluded composed m \<and> \<not> excluded_for composed m pid_a"
proof -
  have "omap_ok (rg_models catalog)" "rg_exclusions catalog = []" "\<forall>d \<in> set []. \<not> omap_contains (rg_models catalog) (md_id d)"
    by (simp_all add: catalog_def omap_ok_def)
  moreover have "model_m \<in> set (omap_values (rg_models catalog) @ [])" by (simp add: catalog_def)
  moreover have "omap_contains (md_bindings model_m) pid_a" by code_simp
  ultimately show ?thesis
    using no_silent_blackout[OF catalog_valid _ _ _ _ compose_quick, of model_m pid_a] by auto
qed

text \<open>
  The blackout check looks at the local exclusions only. Together with an exclusion the catalog
  already has, accepted settings can leave a provider without any routable model.
\<close>

definition mid_n :: model_id where "mid_n = ModelId ''n1''"

definition catalog_excl :: registry_snapshot where
  "catalog_excl = catalog
     \<lparr>rg_models := [(mid_m, model_m),
                    (mid_n, with_binding bind_a (model_descriptor_new mid_n ''acme''))],
      rg_exclusions := [ModelExclusionRule mid_n (Some pid_a)]\<rparr>"

definition still_serves :: "registry_snapshot \<Rightarrow> provider_id \<Rightarrow> bool" where
  "still_serves s p =
     list_ex (\<lambda>(m, d). omap_contains (md_bindings d) p \<and> \<not> globally_excluded s m \<and> \<not> excluded_for s m p)
       (rg_models s)"

text \<open>
  The blackout check ignores the exclusions the snapshot already has: settings without any
  allowed blackout are accepted here although the composed snapshot has no routable model left
  for a provider that had one.
\<close>

theorem blackout_by_inherited_exclusion:
  "still_serves catalog_excl pid_a \<and>
   (case compose_with_settings catalog_excl [] [ModelExclusionRule mid_m (Some pid_a)] [] [] of
      Inl _ \<Rightarrow> False | Inr s' \<Rightarrow> \<not> still_serves s' pid_a)"
  by code_simp

text \<open>
  The check also counts models that a custom model of the same id replaces: here the custom model
  drops the binding of the provider, and the settings are accepted although it is left without any.
\<close>

lemma blackout_by_custom_override:
  "still_serves catalog pid_a \<and>
   (case compose_with_settings catalog [] [] [with_binding bind_o (model_descriptor_new mid_m ''me'')] [] of
      Inl _ \<Rightarrow> False | Inr s' \<Rightarrow> \<not> still_serves s' pid_a)"
  by code_simp

text \<open>
  A custom model for a new provider is accepted, but its provider is not registered in the
  composed snapshot, which then fails its own validation.
\<close>

theorem composed_custom_provider_unregistered:
  "case compose_with_settings catalog [] []
          [with_binding (provider_binding_new (ProviderId ''mine'') PolicyClosed LocalOverride)
             (model_descriptor_new (ModelId ''custom'') ''me'')] [] of
     Inl _ \<Rightarrow> False
   | Inr s' \<Rightarrow> registry_validate s' = Inl (UnknownProvider (ProviderId ''mine''))"
  by code_simp

section \<open>Capability lookup\<close>

lemma catalog_keys: "alias_keys_match catalog"
  by (simp add: alias_keys_match_def catalog_def omap_ok_def rule_fast_def)

theorem capability_profile_of_valid_returns_witness:
  "\<exists>r. capability_profile (contribution_for_provider catalog pid_a) ''fast'' = Some r"
  by (rule capability_profile_of_valid_returns[OF catalog_valid catalog_keys])

definition cyclic_rules :: registry_snapshot where
  "cyclic_rules =
     \<lparr>rg_version = 1, rg_source = RemoteSigned, rg_models = [], rg_providers = [(pid_o, PolicyOpen)],
      rg_aliases =
        [(ModelId ''x'', \<lparr>ar_alias = ModelId ''a'', ar_target = ModelId ''b'', ar_provider_id = Some pid_o\<rparr>),
         (ModelId ''y'', \<lparr>ar_alias = ModelId ''b'', ar_target = ModelId ''a'', ar_provider_id = Some pid_o\<rparr>)],
      rg_exclusions = []\<rparr>"

lemma cyclic_next:
  "alias_next (contribution_for_provider cyclic_rules pid_o) ''a'' = Some ''b''"
  "alias_next (contribution_for_provider cyclic_rules pid_o) ''b'' = Some ''a''"
  by code_simp+

text \<open>
  Validation does not compare an alias rule with the key it is stored under, and the
  capability lookup follows the rules: a snapshot that passes validation can send the lookup
  into an endless recursion.
\<close>

theorem valid_snapshot_lookup_diverges:
  "registry_validate cyclic_rules = Inr () \<and>
   capability_profile (contribution_for_provider cyclic_rules pid_o) ''a'' = None"
proof
  show "registry_validate cyclic_rules = Inr ()" by code_simp
  show "capability_profile (contribution_for_provider cyclic_rules pid_o) ''a'' = None"
    by (rule capability_profile_diverges[where P = "\<lambda>m. m = ''a'' \<or> m = ''b''"])
       (use cyclic_next in auto)
qed

section \<open>Builders\<close>

definition bind_discovered :: provider_binding where
  "bind_discovered = (provider_binding_new pid_a PolicyDiscovered LkgCache)\<lparr>pb_capabilities := {Tools}\<rparr>"

theorem strongest_binding_wins_witness:
  "pb_capabilities (foldl merge_with bind_discovered [bind_a, bind_discovered]) = {Chat}"
proof -
  have "list_all (\<lambda>x. binding_rank x < binding_rank bind_a) ([bind_discovered] @ [bind_discovered])"
    "au_capabilities (pb_authority bind_a)"
    by (simp_all add: binding_rank_def bind_a_def bind_discovered_def provider_binding_new_def AUTHORITY_ALL_def)
  from strongest_binding_wins[OF this] show ?thesis by (simp add: Let_def bind_a_def)
qed

definition builder_m :: registry_builder where
  "builder_m = add_model model_m (register_provider pid_a PolicyDiscovered (builder_new 1 RemoteSigned))"

definition found_m :: discovered_model where
  "found_m = (discovered_model_new mid_m)\<lparr>dm_capabilities := {Tools}, context_limit := Some 100\<rparr>"

theorem discovery_preserves_catalog_witness:
  "\<exists>b'. bound_in (snd (apply_contribution (from_discovered_models pid_a [found_m]) builder_m)) mid_m pid_a = Some b' \<and>
        supplements bind_a b'"
proof (rule discovery_preserves_catalog)
  show "list_all is_discovered (pc_models (from_discovered_models pid_a [found_m]))" by code_simp
  show "bound_in builder_m mid_m pid_a = Some bind_a" by code_simp
  show "pb_source bind_a \<noteq> Discovered" by code_simp
qed

definition builder_closed :: registry_builder where
  "builder_closed = add_model model_m (register_provider pid_a PolicyClosed (builder_new 1 RemoteSigned))"

theorem closed_provider_refuses_discovery_witness:
  "apply_contribution (from_discovered_models pid_a [found_m]) builder_closed =
     (Inl (UnauthorizedContribution pid_a PolicyClosed mid_m), builder_closed)"
proof -
  let ?c = "from_discovered_models pid_a [found_m]"
  have "omap_get (rb_providers builder_closed) (pc_provider_id ?c) = Some PolicyClosed" by code_simp
  moreover have "pc_models ?c = [ItemDiscovered found_m]" by (simp add: from_discovered_models_def)
  ultimately show ?thesis using closed_provider_refuses_discovery[of builder_closed ?c found_m "[]"]
    by (simp add: from_discovered_models_def found_m_def discovered_model_new_def)
qed

definition builder_ops :: "builder_op list" where
  "builder_ops = [BRegister pid_a PolicyClosed, BModel model_m, BAlias rule_fast]"

theorem built_snapshot_usable_witness:
  "\<exists>s. build (foldl builder_step (builder_new 1 RemoteSigned) builder_ops) = Inr s \<and>
       models_keyed (rg_models s) \<and> (\<exists>c. resolve_alias s mid_fast = Inr c)"
proof -
  have "build (foldl builder_step (builder_new 1 RemoteSigned) builder_ops) =
      Inr (catalog\<lparr>rg_providers := [(pid_a, PolicyClosed)]\<rparr>)" by code_simp
  with built_snapshot_usable[OF this, of mid_fast] show ?thesis by blast
qed

end
