(* ===== verification/Envelope_Examples.thy ===== *)
theory Envelope_Examples
  imports Registry_Envelope Registry_Examples
begin

text \<open>The properties of signed catalogs at a concrete codec and catalog.\<close>

definition demo_codec :: "(string, string, string) catalog_codec" where
  "demo_codec =
     \<lparr>cc_key_from_bytes = (\<lambda>_. None), cc_b64_decode = Inr, cc_b64_encode = (\<lambda>s. s),
      cc_signature_from_slice = Inr, cc_verify = (\<lambda>k msg sig. sig = k), cc_sign = (\<lambda>sk msg. sk),
      cc_verifying_key = (\<lambda>sk. sk), cc_json_parse = Inr, cc_json_print = Inr,
      cc_snapshot_parse = (\<lambda>_. Inr catalog)\<rparr>"

definition demo_envelope :: catalog_envelope where
  "demo_envelope = envelope_new 1 ''kid'' 100 (Some 900) ''key''"

lemma trim_key: "trim ''key'' = ''key''"
  by code_simp

lemma demo_signs: "codec_signs demo_codec ''key''"
  by (simp add: codec_signs_def demo_codec_def trim_key)

lemma demo_signed: "sign_catalog demo_codec ''key'' ''kid'' 1 100 (Some 900) ''{}'' = Inr demo_envelope"
  by (simp add: sign_catalog_def is_canonical_json_def canonicalize_json_def demo_codec_def
      demo_envelope_def)

lemma catalog_routable: "has_routable_binding catalog"
  by code_simp

lemma demo_accepted:
  "verify_catalog_envelope demo_codec demo_envelope ''{}'' [(''kid'', ''key'')] (Some 0) None 100 300 = Inr catalog"
proof -
  have "check_payload demo_codec demo_envelope ''{}'' = Inr catalog"
    using catalog_routable catalog_valid
    by (simp add: check_payload_Inr is_canonical_json_def canonicalize_json_def demo_codec_def
        demo_envelope_def envelope_new_def catalog_def)
  then show ?thesis
    by (simp add: verify_catalog_envelope_def check_key_def check_version_def check_times_def
        check_signature_def demo_envelope_def envelope_new_def demo_codec_def trim_key
        u64_saturating_add_def u64_max_def)
qed

theorem signing_bytes_injective_witness:
  "compute_signing_bytes 1 2 3 None ''k'' ''p'' \<noteq> compute_signing_bytes 1 2 3 (Some 4) ''k'' ''p''"
proof
  assume "compute_signing_bytes 1 2 3 None ''k'' ''p'' = compute_signing_bytes 1 2 3 (Some 4) ''k'' ''p''"
  from signing_bytes_injective[OF this] show False by (simp add: newline_def)
qed

theorem accepted_catalog_is_trusted_witness:
  "0 < rg_version catalog \<and> has_routable_binding catalog \<and> registry_validate catalog = Inr ()"
  using accepted_catalog_is_trusted[OF demo_accepted] by simp

theorem signed_catalog_verifies_witness:
  "verify_catalog_envelope demo_codec demo_envelope ''{}'' [(''kid'', ''key'')] (Some 0) None 100 300 = Inr catalog"
proof (rule signed_catalog_verifies[OF demo_signs demo_signed])
  show "omap_get [(''kid'', ''key'')] ''kid'' = Some (cc_verifying_key demo_codec ''key'')"
    by (simp add: demo_codec_def)
  show "100 \<le> u64_saturating_add 100 300" by (simp add: u64_saturating_add_def u64_max_def)
  show "cc_snapshot_parse demo_codec ''{}'' = Inr catalog" by (simp add: demo_codec_def)
  show "rg_version catalog = 1" by (simp add: catalog_def)
  show "has_routable_binding catalog" by (rule catalog_routable)
  show "registry_validate catalog = Inr ()" by (rule catalog_valid)
qed auto

end
