(* ===== verification/Claude_Denial.thy ===== *)
theory Claude_Denial
  imports Strings
begin

text \<open>
  Classification of upstream denials, \<^verbatim>\<open>crates/gateway/src/claude_denial.rs\<close>: a status and a
  message are sorted into enforcement, plain denial and everything else, and \<open>DeniedTracker\<close>
  promotes the second plain denial of an account inside ten minutes. A status (\<open>u16\<close>) is a
  \<open>nat\<close>; the tracker's map is an ordered map from account ids to unix seconds.
\<close>

section \<open>Classification\<close>

definition ENFORCEMENT_SIGNATURES :: "string list" where
  "ENFORCEMENT_SIGNATURES =
     [''only authorized for use with claude code'', ''has been disabled'', ''suspended'',
      ''terms of service'', ''usage policy'', ''organization has been'']"

definition DENIED_PROMOTION_WINDOW_SECS :: int where
  "DENIED_PROMOTION_WINDOW_SECS = 600"

datatype denial = Enforcement | Denied | Other

definition is_enforcement_text :: "string \<Rightarrow> bool" where
  "is_enforcement_text message =
     (let lowered = to_ascii_lowercase message
      in list_ex (\<lambda>signature. str_contains signature lowered) ENFORCEMENT_SIGNATURES)"

definition classify :: "nat \<Rightarrow> string \<Rightarrow> denial" where
  "classify status message =
     (if status \<in> {400, 401, 403} \<and> is_enforcement_text message then Enforcement
      else if status = 403 then Denied
      else Other)"

definition enforcement_reason :: "nat \<Rightarrow> string \<Rightarrow> string" where
  "enforcement_reason status message =
     (let lowered = to_ascii_lowercase message;
          signature =
            (case find (\<lambda>signature. str_contains signature lowered) ENFORCEMENT_SIGNATURES of
               Some signature \<Rightarrow> signature
             | None \<Rightarrow> ''repeated permission denial'')
      in dec_of_nat status @ '': '' @ signature)"

section \<open>Repeated denials\<close>

type_synonym denied_tracker = "(string, int) omap"

definition denied_within :: "denied_tracker \<Rightarrow> string \<Rightarrow> int \<Rightarrow> bool" where
  "denied_within t account now =
     (case omap_get t account of
        None \<Rightarrow> False
      | Some at \<Rightarrow> i64_sub now at \<le> DENIED_PROMOTION_WINDOW_SECS)"

definition record_denied :: "string \<Rightarrow> int \<Rightarrow> denied_tracker \<Rightarrow> bool \<times> denied_tracker" where
  "record_denied account now t =
     (let repeated = denied_within t account now
      in (repeated, if repeated then omap_remove account t else omap_insert account now t))"

text \<open>The answers to a sequence of denials, and the tracker after it.\<close>

fun denied_run :: "denied_tracker \<Rightarrow> (string \<times> int) list \<Rightarrow> bool list \<times> denied_tracker" where
  "denied_run t [] = ([], t)"
| "denied_run t ((a, now) # es) =
     (let (r, t') = record_denied a now t; (rs, t'') = denied_run t' es in (r # rs, t''))"

section \<open>What a stored reason can reveal\<close>

lemma enforcement_reason_vocabulary:
  "\<exists>signature \<in> set (''repeated permission denial'' # ENFORCEMENT_SIGNATURES).
     enforcement_reason status message = dec_of_nat status @ '': '' @ signature"
  unfolding enforcement_reason_def Let_def
  by (auto split: option.split dest: find_SomeD)

lemma is_enforcement_text_find:
  "is_enforcement_text message \<longleftrightarrow>
     find (\<lambda>s. str_contains s (to_ascii_lowercase message)) ENFORCEMENT_SIGNATURES \<noteq> None"
  by (auto simp: is_enforcement_text_def list_ex_iff find_None_iff)

section \<open>The tracker in terms of the denials seen\<close>

lemma denied_run_append:
  "denied_run t (es @ fs) =
     (let (rs, t') = denied_run t es; (rs', t'') = denied_run t' fs in (rs @ rs', t''))"
  by (induction t es rule: denied_run.induct) (auto simp: Let_def split: prod.splits)

lemma length_denied_run [simp]: "length (fst (denied_run t es)) = length es"
  by (induction t es rule: denied_run.induct) (auto simp: Let_def split: prod.splits)

lemma denied_run_snoc:
  "denied_run t (es @ [(a, now)]) =
     (fst (denied_run t es) @ [denied_within (snd (denied_run t es)) a now],
      snd (record_denied a now (snd (denied_run t es))))"
  by (simp add: denied_run_append record_denied_def Let_def split: prod.splits)

text \<open>
  The last denial of an account among the first ones: \<open>Some (i, at)\<close> when event \<open>i\<close> is the
  last of the account.
\<close>

definition last_denial :: "string \<Rightarrow> (string \<times> int) list \<Rightarrow> nat option" where
  "last_denial a es = map_option (\<lambda>i. length es - Suc i) (position (\<lambda>e. fst e = a) (rev es))"

lemma last_denial_Nil [simp]: "last_denial a [] = None"
  by (simp add: last_denial_def)

lemma last_denial_snoc:
  "last_denial a (es @ [e]) = (if fst e = a then Some (length es) else last_denial a es)"
  by (auto simp: last_denial_def option.map_comp comp_def)

lemma last_denial_less: "last_denial a es = Some i \<Longrightarrow> i < length es"
  by (auto simp: last_denial_def position_Some)

text \<open>The tracker remembers an account exactly when its last denial was not promoted.\<close>

lemma denied_run_tracks:
  "omap_get (snd (denied_run [] es)) a =
     (case last_denial a es of
        None \<Rightarrow> None
      | Some i \<Rightarrow> if fst (denied_run [] es) ! i then None else Some (snd (es ! i)))"
proof (induction es rule: rev_induct)
  case Nil
  then show ?case by simp
next
  case (snoc e es)
  obtain b now where e: "e = (b, now)" by fastforce
  show ?case
  proof (cases "b = a")
    case True
    then show ?thesis by (simp add: e denied_run_snoc last_denial_snoc nth_append record_denied_def Let_def)
  next
    case False
    then have "omap_get (snd (denied_run [] (es @ [e]))) a = omap_get (snd (denied_run [] es)) a"
      by (simp add: e denied_run_snoc record_denied_def Let_def)
    with False snoc.IH show ?thesis
      by (auto simp: e denied_run_snoc last_denial_snoc nth_append
          split: option.split dest: last_denial_less)
  qed
qed

lemma denied_run_take:
  "n \<le> length es \<Longrightarrow> denied_run t (take n es) = (take n (fst (denied_run t es)), snd (denied_run t (take n es)))"
proof -
  assume n: "n \<le> length es"
  have "denied_run t es = denied_run t (take n es @ drop n es)" by simp
  then have "fst (denied_run t es) =
      fst (denied_run t (take n es)) @ fst (denied_run (snd (denied_run t (take n es))) (drop n es))"
    unfolding denied_run_append by (simp add: Let_def split_beta)
  then have "take n (fst (denied_run t es)) = fst (denied_run t (take n es))" using n by simp
  then show ?thesis by (simp add: prod_eq_iff)
qed

lemma denied_run_nth:
  assumes "j < length es"
  shows "fst (denied_run t es) ! j =
           denied_within (snd (denied_run t (take j es))) (fst (es ! j)) (snd (es ! j))"
proof -
  have "fst (denied_run t es) ! j = fst (denied_run t (take (Suc j) es)) ! j"
    using denied_run_take[of "Suc j" es t] assms by (metis Suc_leI fst_conv lessI nth_take)
  also have "take (Suc j) es = take j es @ [(fst (es ! j), snd (es ! j))]"
    using assms by (simp add: take_Suc_conv_app_nth)
  finally show ?thesis using assms by (simp only: denied_run_snoc fst_conv) (simp add: nth_append)
qed

text \<open>
  A plain denial is promoted to enforcement exactly when the previous denial of the same
  account was not itself promoted and lies at most the promotion window back; denials of other
  accounts, in any interleaving, have no influence.
\<close>

theorem repeated_denial_promoted:
  assumes "j < length es"
  shows "fst (denied_run [] es) ! j \<longleftrightarrow>
    (case last_denial (fst (es ! j)) (take j es) of
       None \<Rightarrow> False
     | Some i \<Rightarrow> \<not> fst (denied_run [] es) ! i \<and>
                 i64_sub (snd (es ! j)) (snd (es ! i)) \<le> DENIED_PROMOTION_WINDOW_SECS)"
proof -
  have res: "fst (denied_run [] (take j es)) ! i = fst (denied_run [] es) ! i" if "i < j" for i
    using denied_run_take[of j es "[]"] assms that by (metis fst_conv less_imp_le nth_take)
  have less: "i < j" if "last_denial (fst (es ! j)) (take j es) = Some i" for i
    using last_denial_less[OF that] by simp
  show ?thesis
    unfolding denied_run_nth[OF assms] denied_within_def denied_run_tracks
    using res less by (auto split: option.split)
qed

theorem repeated_denial_promoted_witness:
  "fst (denied_run [] [(''a'', 0), (''b'', 100), (''a'', 600)]) ! 2 \<and>
   last_denial ''a'' [(''a'', 0), (''b'', 100)] = Some 0"
  using repeated_denial_promoted[of 2 "[(''a'', 0), (''b'', 100), (''a'', 600)]"]
  by (simp add: last_denial_def denied_within_def record_denied_def omap_remove_def i64_sub_def
      i64_wrap_def DENIED_PROMOTION_WINDOW_SECS_def less_char_def)

end
