(* ===== verification/Civil_Calendar.thy ===== *)
theory Civil_Calendar
  imports Prelude
begin

text \<open>
  The civil-calendar conversions of \<^verbatim>\<open>crates/gateway/src/claude_budget.rs\<close>, and the proof that
  they are the proleptic Gregorian calendar. Days and years are \<open>i64\<close> values. The only caller
  passes a day count of \<open>now.div_euclid(86_400)\<close>, which is below \<open>2 ^ 47\<close> in magnitude, where no
  intermediate result leaves \<open>i64\<close> (\<open>civil_no_overflow\<close>), so the arithmetic is that of \<open>int\<close>.
  Rust's \<open>/\<close> truncates; it is applied to non-negative numbers only, where it is \<open>div\<close>.
\<close>

section \<open>The conversions\<close>

definition civil_from_days :: "int \<Rightarrow> int \<times> int \<times> int" where
  "civil_from_days z0 =
     (let z = z0 + 719468;
          era = z div 146097;
          doe = z mod 146097;
          yoe = (doe - doe div 1460 + doe div 36524 - doe div 146096) div 365;
          y = yoe + era * 400;
          doy = doe - (365 * yoe + yoe div 4 - yoe div 100);
          mp = (5 * doy + 2) div 153;
          d = doy - (153 * mp + 2) div 5 + 1;
          m = (if mp < 10 then mp + 3 else mp - 9)
      in (if m \<le> 2 then y + 1 else y, m, d))"

definition days_from_civil :: "int \<Rightarrow> int \<Rightarrow> int \<Rightarrow> int" where
  "days_from_civil y0 m d =
     (let y = (if m \<le> 2 then y0 - 1 else y0);
          era = y div 400;
          yoe = y mod 400;
          doy = (153 * (if m > 2 then m - 3 else m + 9) + 2) div 5 + d - 1;
          doe = yoe * 365 + yoe div 4 - yoe div 100 + doy
      in era * 146097 + doe - 719468)"

section \<open>The calendar\<close>

text \<open>The Gregorian rules, stated on their own: month lengths and the day after a date.\<close>

definition leap_year :: "int \<Rightarrow> bool" where
  "leap_year y \<longleftrightarrow> 4 dvd y \<and> (\<not> 100 dvd y \<or> 400 dvd y)"

definition days_in_month :: "int \<Rightarrow> int \<Rightarrow> int" where
  "days_in_month y m =
     (if m = 2 then if leap_year y then 29 else 28
      else if m \<in> {4, 6, 9, 11} then 30 else 31)"

definition valid_date :: "int \<times> int \<times> int \<Rightarrow> bool" where
  "valid_date = (\<lambda>(y, m, d). 1 \<le> m \<and> m \<le> 12 \<and> 1 \<le> d \<and> d \<le> days_in_month y m)"

definition next_day :: "int \<times> int \<times> int \<Rightarrow> int \<times> int \<times> int" where
  "next_day = (\<lambda>(y, m, d).
     if d < days_in_month y m then (y, m, d + 1)
     else if m < 12 then (y, m + 1, 1)
     else (y + 1, 1, 1))"

section \<open>Years of an era\<close>

text \<open>
  An era is 400 years of March to February, numbered from 0. \<open>year_start y\<close> is the first day of
  year \<open>y\<close> of an era, \<open>year_end y\<close> the first day after it.
\<close>

definition year_start :: "int \<Rightarrow> int" where
  "year_start y = 365 * y + y div 4 - y div 100"

definition year_end :: "int \<Rightarrow> int" where
  "year_end y = year_start y + (if leap_year (y + 1) then 366 else 365)"

definition year_of_era :: "int \<Rightarrow> int" where
  "year_of_era doe = (doe - doe div 1460 + doe div 36524 - doe div 146096) div 365"

lemma div_Suc_le: "0 < k \<Longrightarrow> (x + 1) div k \<le> x div k + (1 :: int)"
proof -
  assume "0 < k"
  have "(x + 1) div k \<le> (x + k) div k" using \<open>0 < k\<close> by (intro zdiv_mono1) auto
  then show ?thesis using \<open>0 < k\<close> by (simp add: div_add_self2)
qed

lemma year_of_era_step:
  assumes "0 \<le> x" "x < 146096"
  shows "year_of_era x \<le> year_of_era (x + 1)"
proof -
  have a: "(x + 1) div 1460 \<le> x div 1460 + 1" "x div 36524 \<le> (x + 1) div 36524"
    by (simp_all add: div_Suc_le zdiv_mono1)
  have "x - x div 1460 + x div 36524 - x div 146096 \<le>
        (x + 1) - (x + 1) div 1460 + (x + 1) div 36524 - (x + 1) div 146096"
  proof (cases "x = 146095")
    case True
    then show ?thesis by simp
  next
    case False
    then have "(x + 1) div 146096 = 0" "x div 146096 = 0" using assms by simp_all
    then show ?thesis using a by linarith
  qed
  then show ?thesis unfolding year_of_era_def by (rule zdiv_mono1) simp
qed

lemma year_of_era_mono:
  assumes "0 \<le> x" "x \<le> y" "y \<le> 146096"
  shows "year_of_era x \<le> year_of_era y"
  using assms(2,3)
proof (induction y rule: int_ge_induct)
  case base
  then show ?case by simp
next
  case (step i)
  then show ?case using year_of_era_step[of i] assms(1) by simp
qed

text \<open>The formula is right at the first and the last day of every year, hence on all days.\<close>

lemma year_of_era_bounds_checked:
  "list_all (\<lambda>y. year_of_era (year_start y) = y \<and> year_of_era (year_end y - 1) = y \<and>
                 year_end y - 1 \<le> 146096) [0..399]"
  by code_simp

lemma year_of_era_at:
  assumes "0 \<le> y" "y < 400" "year_start y \<le> doe" "doe < year_end y"
  shows "year_of_era doe = y"
proof -
  have "y \<in> set [0..399]" using assms by simp
  then have b: "year_of_era (year_start y) = y" "year_of_era (year_end y - 1) = y" "year_end y - 1 \<le> 146096"
    using year_of_era_bounds_checked unfolding list_all_iff by blast+
  have "0 \<le> year_start y" using assms by (simp add: year_start_def)
  then show ?thesis
    using b year_of_era_mono[of "year_start y" doe] year_of_era_mono[of doe "year_end y - 1"] assms
    by simp
qed

lemma year_end_next: "0 \<le> y \<Longrightarrow> y < 399 \<Longrightarrow> year_end y = year_start (y + 1)"
proof -
  assume y: "0 \<le> y" "y < 399"
  have "list_all (\<lambda>y. year_end y = year_start (y + 1)) [0..398]" by code_simp
  then show ?thesis using y unfolding list_all_iff by simp
qed

lemma year_end_last: "year_end 399 = 146097"
  by code_simp

lemma day_in_some_year:
  assumes "0 \<le> doe" "doe < 146097"
  obtains y where "0 \<le> y" "y < 400" "year_start y \<le> doe" "doe < year_end y"
proof -
  have "\<exists>y. 0 \<le> y \<and> y \<le> n \<and> year_start y \<le> doe \<and> doe < year_end y"
    if "doe < year_end n" "0 \<le> n" "n \<le> 399" for n
    using that(2,1,3)
  proof (induction n rule: int_ge_induct)
    case base
    then show ?case using assms by (intro exI[of _ 0]) (simp add: year_start_def)
  next
    case (step i)
    show ?case
    proof (cases "doe < year_end i")
      case True
      then show ?thesis using step by (smt (verit))
    next
      case False
      then show ?thesis using step year_end_next[of i] by (intro exI[of _ "i + 1"]) simp
    qed
  qed
  from this[of 399] show thesis using assms year_end_last that by auto
qed

section \<open>Days of a year\<close>

definition month_day :: "int \<Rightarrow> int \<times> int" where
  "month_day doy =
     (let mp = (5 * doy + 2) div 153
      in (if mp < 10 then mp + 3 else mp - 9, doy - (153 * mp + 2) div 5 + 1))"

definition day_of_year :: "int \<Rightarrow> int \<Rightarrow> int" where
  "day_of_year m d = (153 * (if m > 2 then m - 3 else m + 9) + 2) div 5 + d - 1"

definition date_of :: "int \<Rightarrow> int \<Rightarrow> int \<times> int \<times> int" where
  "date_of y doy = (case month_day doy of (m, d) \<Rightarrow> (if m \<le> 2 then y + 1 else y, m, d))"

definition year_length :: "int \<Rightarrow> int" where
  "year_length y = (if leap_year (y + 1) then 366 else 365)"

lemma leap_year_era [simp]: "leap_year (y + 400 * era) = leap_year y"
proof -
  have "k dvd y + 400 * era \<longleftrightarrow> k dvd y" if "k dvd 400" for k :: int
    using that by (meson dvd_add_left_iff dvd_mult2)
  then show ?thesis by (simp add: leap_year_def)
qed

lemma year_length_era [simp]: "year_length (y + 400 * era) = year_length y"
proof -
  have "y + 400 * era + 1 = y + 1 + 400 * era" by simp
  then show ?thesis by (simp only: year_length_def leap_year_era)
qed

lemma era_split:
  assumes "0 \<le> x" "x < 146097"
  shows "(era * 146097 + x) div 146097 = era" "(era * 146097 + x) mod 146097 = (x :: int)"
  using assms by simp_all

lemma civil_from_days_year:
  "civil_from_days z0 =
     (let z = z0 + 719468; doe = z mod 146097; yoe = year_of_era doe
      in date_of (yoe + z div 146097 * 400) (doe - year_start yoe))"
  unfolding civil_from_days_def year_of_era_def year_start_def date_of_def month_day_def Let_def
  by (simp only: prod.case)

lemma civil_from_days_date:
  assumes "0 \<le> y" "y < 400" "0 \<le> doy" "doy < year_length y"
  shows "civil_from_days (era * 146097 + year_start y + doy - 719468) = date_of (y + 400 * era) doy"
proof -
  let ?doe = "year_start y + doy"
  have hi: "?doe < year_end y" using assms by (simp add: year_end_def year_length_def)
  have yoe: "year_of_era ?doe = y" using assms hi by (intro year_of_era_at) simp_all
  have "year_end y \<le> 146097"
  proof -
    have "y \<in> set [0..399]" using assms by simp
    then show ?thesis using year_of_era_bounds_checked unfolding list_all_iff by auto
  qed
  then have "?doe < 146097" "0 \<le> ?doe" using hi assms by (simp_all add: year_start_def)
  then have "(era * 146097 + year_start y + doy) div 146097 = era"
    "(era * 146097 + year_start y + doy) mod 146097 = ?doe"
    using era_split[of ?doe era] by (simp_all only: add.assoc)
  moreover have "era * 146097 + year_start y + doy - 719468 + 719468 = era * 146097 + year_start y + doy"
    by simp
  ultimately show ?thesis
    using yoe by (simp only: civil_from_days_year Let_def) (simp add: mult.commute)
qed

text \<open>Every day count is a day of a year of an era.\<close>

lemma day_decomposition:
  obtains era y doy where "z = era * 146097 + year_start y + doy - 719468"
    "0 \<le> y" "y < 400" "0 \<le> doy" "doy < year_length y"
proof -
  let ?z = "z + 719468"
  have "0 \<le> ?z mod 146097" "?z mod 146097 < 146097" by simp_all
  then obtain y where y: "0 \<le> y" "y < 400" "year_start y \<le> ?z mod 146097" "?z mod 146097 < year_end y"
    by (rule day_in_some_year)
  have "?z div 146097 * 146097 + ?z mod 146097 = ?z" by (rule div_mult_mod_eq)
  then show thesis
    using y that[of "?z div 146097" y "?z mod 146097 - year_start y"]
    by (simp add: year_end_def year_length_def)
qed

section \<open>Months\<close>

definition month_length :: "int \<Rightarrow> int" where
  "month_length m = (if m = 2 then 28 else if m \<in> {4, 6, 9, 11} then 30 else 31)"

lemma month_table:
  "list_all (\<lambda>doy. case (month_day doy, month_day (doy + 1)) of ((m, d), (m', d')) \<Rightarrow>
     1 \<le> d \<and> 1 \<le> m \<and> m \<le> 12 \<and> day_of_year m d = doy \<and> d \<le> month_length m \<and>
     (if m = 2 then d < 28 \<and> m' = 2 \<and> d' = d + 1
      else if d < month_length m then m' = m \<and> d' = d + 1
      else d' = 1 \<and> (if m = 12 then m' = 1 else m' = m + 1))) [0..363]"
  by code_simp

lemma month_table_end:
  "month_day 0 = (3, 1)" "month_day 364 = (2, 28)" "month_day 365 = (2, 29)"
  by code_simp+

lemma date_of_next:
  assumes "0 \<le> doy" "doy < 364"
  shows "date_of y (doy + 1) = next_day (date_of y doy)"
proof -
  obtain m d m' d' where md: "month_day doy = (m, d)" "month_day (doy + 1) = (m', d')" by fastforce
  have "doy \<in> set [0..363]" using assms by simp
  then have t: "1 \<le> d \<and> 1 \<le> m \<and> m \<le> 12 \<and> day_of_year m d = doy \<and> d \<le> month_length m \<and>
     (if m = 2 then d < 28 \<and> m' = 2 \<and> d' = d + 1
      else if d < month_length m then m' = m \<and> d' = d + 1
      else d' = 1 \<and> (if m = 12 then m' = 1 else m' = m + 1))"
    using month_table md unfolding list_all_iff by fastforce
  show ?thesis
  proof (cases "m = 2")
    case True
    with t md show ?thesis by (simp add: date_of_def next_day_def days_in_month_def)
  next
    case False
    then have "days_in_month y' m = month_length m" for y' by (simp add: days_in_month_def month_length_def)
    with False t md show ?thesis by (auto simp: date_of_def next_day_def split: if_splits)
  qed
qed

lemma date_of_last:
  "next_day (date_of y (year_length y - 1)) = date_of (y + 1) 0"
  "leap_year (y + 1) \<Longrightarrow> next_day (date_of y 364) = date_of y 365"
  by (auto simp: year_length_def date_of_def month_table_end next_day_def days_in_month_def)

lemma day_table:
  assumes "0 \<le> doy" "doy < year_length y"
  shows "valid_date (date_of y doy)" "case month_day doy of (m, d) \<Rightarrow> day_of_year m d = doy"
proof -
  obtain m d where md: "month_day doy = (m, d)" by fastforce
  consider "doy \<in> set [0..363]" | "doy = 364" | "doy = 365" "leap_year (y + 1)"
    using assms by (fastforce simp: year_length_def split: if_splits)
  then have "valid_date (date_of y doy) \<and> (case month_day doy of (m, d) \<Rightarrow> day_of_year m d = doy)"
  proof cases
    case 1
    then have "1 \<le> d \<and> 1 \<le> m \<and> m \<le> 12 \<and> day_of_year m d = doy \<and> d \<le> month_length m"
      using month_table md unfolding list_all_iff by fastforce
    moreover have "month_length m \<le> days_in_month y' m" for y'
      by (simp add: month_length_def days_in_month_def)
    ultimately show ?thesis using md by (fastforce simp: date_of_def valid_date_def intro: order_trans)
  qed (simp_all add: date_of_def month_table_end valid_date_def days_in_month_def day_of_year_def)
  then show "valid_date (date_of y doy)" "case month_day doy of (m, d) \<Rightarrow> day_of_year m d = doy"
    by simp_all
qed

section \<open>Round trip and succession\<close>

lemma days_from_civil_year:
  "days_from_civil y0 m d =
     (let y = (if m \<le> 2 then y0 - 1 else y0)
      in y div 400 * 146097 + year_start (y mod 400) + day_of_year m d - 719468)"
  unfolding days_from_civil_def day_of_year_def year_start_def Let_def by linarith

lemma days_from_civil_date_of:
  assumes "0 \<le> y" "y < 400" "0 \<le> doy" "doy < year_length y"
  shows "(case date_of (y + 400 * era) doy of (y', m, d) \<Rightarrow> days_from_civil y' m d) =
           era * 146097 + year_start y + doy - 719468"
proof -
  obtain m d where md: "month_day doy = (m, d)" by fastforce
  have "day_of_year m d = doy" using day_table(2)[of doy y] assms md by simp
  moreover have "(y + 400 * era) div 400 = era" "(y + 400 * era) mod 400 = y" using assms by simp_all
  ultimately show ?thesis
    using md by (simp add: date_of_def days_from_civil_year)
qed

lemma civil_roundtrip:
  "(case civil_from_days z of (y, m, d) \<Rightarrow> days_from_civil y m d) = z"
  "valid_date (civil_from_days z)"
proof -
  obtain era y doy where z: "z = era * 146097 + year_start y + doy - 719468"
    "0 \<le> y" "y < 400" "0 \<le> doy" "doy < year_length y" by (rule day_decomposition)
  then show "(case civil_from_days z of (y, m, d) \<Rightarrow> days_from_civil y m d) = z"
    by (simp only: civil_from_days_date days_from_civil_date_of)
  show "valid_date (civil_from_days z)"
    using z day_table(1)[of doy "y + 400 * era"] by (simp add: civil_from_days_date)
qed

lemma next_year_start:
  assumes "0 \<le> y" "y < 400"
  shows "civil_from_days (era * 146097 + year_start y + year_length y - 719468) = date_of (y + 400 * era + 1) 0"
proof (cases "y = 399")
  case True
  have *: "year_length 399 = 366" "year_start 399 = 145731" "year_start 0 = 0" "0 < year_length 0"
    by code_simp+
  then have "era * 146097 + year_start y + year_length y - 719468 =
      (era + 1) * 146097 + year_start 0 + 0 - 719468"
    using True by simp
  moreover have "y + 400 * era + 1 = 0 + 400 * (era + 1)" using True by simp
  ultimately show ?thesis using civil_from_days_date[of 0 0 "era + 1"] * by (simp add: add.commute)
next
  case False
  then have "era * 146097 + year_start y + year_length y - 719468 =
      era * 146097 + year_start (y + 1) + 0 - 719468"
    using year_end_next[of y] assms by (simp add: year_end_def year_length_def)
  moreover have "y + 400 * era + 1 = y + 1 + 400 * era" by simp
  moreover have "0 < year_length (y + 1)" by (simp add: year_length_def)
  ultimately show ?thesis
    using False assms civil_from_days_date[of "y + 1" 0 era] by (simp only:)
qed

lemma civil_successor: "civil_from_days (z + 1) = next_day (civil_from_days z)"
proof -
  obtain era y doy where z: "z = era * 146097 + year_start y + doy - 719468"
    "0 \<le> y" "y < 400" "0 \<le> doy" "doy < year_length y" by (rule day_decomposition)
  have here: "civil_from_days z = date_of (y + 400 * era) doy" using z by (simp add: civil_from_days_date)
  show ?thesis
  proof (cases "doy + 1 < year_length y")
    case True
    have eq: "z + 1 = era * 146097 + year_start y + (doy + 1) - 719468" using z(1) by simp
    have "civil_from_days (z + 1) = date_of (y + 400 * era) (doy + 1)"
      unfolding eq by (rule civil_from_days_date) (use z True in simp_all)
    moreover have "date_of (y + 400 * era) (doy + 1) = next_day (date_of (y + 400 * era) doy)"
    proof (cases "doy < 364")
      case True
      then show ?thesis using z date_of_next by simp
    next
      case False
      then have "doy = 364" "leap_year (y + 1)" using True by (auto simp: year_length_def split: if_splits)
      then show ?thesis
        using date_of_last(2)[of "y + 400 * era"] leap_year_era[of "y + 1" era]
        by (simp add: algebra_simps)
    qed
    ultimately show ?thesis using here by simp
  next
    case False
    then have doy: "doy = year_length y - 1" using z by simp
    then have eq: "z + 1 = era * 146097 + year_start y + year_length y - 719468" using z(1) by simp
    have "civil_from_days (z + 1) = date_of (y + 400 * era + 1) 0"
      unfolding eq by (rule next_year_start) (fact z(2,3))+
    also have "\<dots> = next_day (date_of (y + 400 * era) doy)"
      unfolding date_of_last(1)[symmetric] doy by simp
    finally show ?thesis unfolding here .
  qed
qed

section \<open>Ranges\<close>

lemma civil_no_overflow:
  assumes "\<bar>z\<bar> \<le> 2 ^ 47"
  shows "in_i64 (z + 719468)" "in_i64 ((z + 719468) div 146097 * 400 + 400)"
    "in_i64 ((z + 719468) div 146097 * 146097 + 146097)"
proof -
  let ?q = "(z + 719468) div 146097"
  have q: "?q * 146097 + (z + 719468) mod 146097 = z + 719468" by (rule div_mult_mod_eq)
  have m: "0 \<le> (z + 719468) mod 146097" "(z + 719468) mod 146097 < 146097" by simp_all
  have a: "z \<le> 140737488355328" "- 140737488355328 \<le> z" using assms by (simp_all add: abs_le_iff)
  have "- 140737488400000 \<le> ?q * 146097" "?q * 146097 \<le> 140737489200000" using q m a by linarith+
  then show "in_i64 (z + 719468)" "in_i64 (?q * 400 + 400)" "in_i64 (?q * 146097 + 146097)"
    using a unfolding in_i64_def i64_min_def i64_max_def by simp_all
qed

end
