(* ===== verification/Claude_Budget.thy ===== *)
theory Claude_Budget
  imports Civil_Calendar
begin

text \<open>
  Monthly budgets of API-key accounts, \<^verbatim>\<open>crates/gateway/src/claude_budget.rs\<close>: the weighted
  units, the month boundary and \<open>BudgetTracker\<close>, whose snapshot is \<open>None\<close> until the first
  successful read and after every failed one. The request history is the argument \<open>query\<close> of
  \<open>refresh_from_history\<close>: it answers a query for one account from a start time with the four
  token totals, or with an error.
\<close>

section \<open>Definitions\<close>

definition weighted_units :: "nat \<Rightarrow> nat \<Rightarrow> nat \<Rightarrow> nat \<Rightarrow> nat" where
  "weighted_units input output cache_write cache_read =
     u64_saturating_add (u64_saturating_add (u64_saturating_add input output) cache_write) (cache_read div 10)"

definition month_start_utc_ms :: "int \<Rightarrow> int" where
  "month_start_utc_ms now =
     (let days = now div 86400; (year, month, _) = civil_from_days days
      in i64_mul (i64_mul (days_from_civil year month 1) 86400) 1000)"

record budget_tracker =
  bt_usage :: "(string, nat) omap option"

definition budget_tracker_default :: budget_tracker where
  "budget_tracker_default = \<lparr>bt_usage = None\<rparr>"

definition is_over :: "(string, nat) omap \<Rightarrow> string \<Rightarrow> budget_tracker \<Rightarrow> bool" where
  "is_over budgets account bt =
     (case omap_get budgets account of
        None \<Rightarrow> False
      | Some limit \<Rightarrow>
          (case bt_usage bt of
             Some usage \<Rightarrow> limit \<le> (case omap_get usage account of Some u \<Rightarrow> u | None \<Rightarrow> 0)
           | None \<Rightarrow> True))"

definition budget_usage :: "string \<Rightarrow> budget_tracker \<Rightarrow> nat option" where
  "budget_usage account bt =
     map_option (\<lambda>usage. case omap_get usage account of Some u \<Rightarrow> u | None \<Rightarrow> 0) (bt_usage bt)"

definition read_usage :: "(string \<Rightarrow> 'e + nat) \<Rightarrow> (string, nat) omap \<Rightarrow> string \<Rightarrow> 'e + (string, nat) omap" where
  "read_usage read usage account =
     (case read account of Inl e \<Rightarrow> Inl e | Inr units \<Rightarrow> Inr (omap_insert account units usage))"

definition refresh_with :: "(string, nat) omap \<Rightarrow> (string \<Rightarrow> 'e + nat) \<Rightarrow> budget_tracker \<Rightarrow> budget_tracker" where
  "refresh_with budgets read bt =
     (case try_fold (read_usage read) [] (omap_keys budgets) of
        Inl _ \<Rightarrow> bt\<lparr>bt_usage := None\<rparr>
      | Inr usage \<Rightarrow> bt\<lparr>bt_usage := Some usage\<rparr>)"

record token_totals =
  input_tokens :: nat
  output_tokens :: nat
  cache_write_tokens :: nat
  cached_input_tokens :: nat

definition history_units :: "(int \<Rightarrow> string \<Rightarrow> 'e + token_totals) \<Rightarrow> int \<Rightarrow> string \<Rightarrow> 'e + nat" where
  "history_units query start_ms account =
     rbind (query start_ms account) (\<lambda>totals. Inr
       (weighted_units (input_tokens totals) (output_tokens totals) (cache_write_tokens totals)
          (cached_input_tokens totals)))"

definition refresh_from_history ::
  "(string, nat) omap \<Rightarrow> (int \<Rightarrow> string \<Rightarrow> 'e + token_totals) \<Rightarrow> int \<Rightarrow> budget_tracker \<Rightarrow> budget_tracker" where
  "refresh_from_history budgets query now bt =
     (if budgets = [] then bt\<lparr>bt_usage := Some []\<rparr>
      else let start_ms = month_start_utc_ms now
           in refresh_with budgets (history_units query start_ms) bt)"

section \<open>The start of the month\<close>

text \<open>Stepping back inside a month changes the day only.\<close>

lemma civil_step_back:
  assumes "civil_from_days z = (y, m, d)" "1 < d"
  shows "civil_from_days (z - 1) = (y, m, d - 1)"
proof -
  obtain y' m' d' where p: "civil_from_days (z - 1) = (y', m', d')" by (metis prod_cases3)
  have "next_day (y', m', d') = (y, m, d)" using civil_successor[of "z - 1"] assms p by simp
  then show ?thesis using assms p by (auto simp: next_day_def split: if_splits)
qed

lemma civil_month_back:
  assumes "civil_from_days z = (y, m, d)" "0 \<le> k" "k < d"
  shows "civil_from_days (z - k) = (y, m, d - k)"
  using assms(2,3)
proof (induction k rule: int_ge_induct)
  case base
  then show ?case using assms by simp
next
  case (step i)
  then have "civil_from_days (z - i) = (y, m, d - i)" by simp
  from civil_step_back[OF this] show ?case using step.prems by (simp add: algebra_simps)
qed

lemma month_first_day:
  assumes "civil_from_days z = (y, m, d)"
  shows "days_from_civil y m 1 = z - (d - 1)"
proof -
  have "1 \<le> d" using civil_roundtrip(2)[of z] assms by (simp add: valid_date_def)
  then have "civil_from_days (z - (d - 1)) = (y, m, 1)"
    using civil_month_back[OF assms, of "d - 1"] by simp
  with civil_roundtrip(1)[of "z - (d - 1)"] show ?thesis by simp
qed

lemma month_start_exact:
  assumes "\<bar>now\<bar> \<le> 2 ^ 52" and "civil_from_days (now div 86400) = (y, m, d)"
  shows "month_start_utc_ms now = (now div 86400 - (d - 1)) * 86400000"
proof -
  let ?z = "now div 86400"
  have d: "1 \<le> d" "d \<le> 31" using civil_roundtrip(2)[of ?z] assms(2)
    by (auto simp: valid_date_def days_in_month_def split: if_splits)
  have "?z * 86400 + now mod 86400 = now" by (rule div_mult_mod_eq)
  moreover have "0 \<le> now mod 86400" "now mod 86400 < 86400" by simp_all
  moreover have "now \<le> 4503599627370496" "- 4503599627370496 \<le> now"
    using assms(1) by (simp_all add: abs_le_iff)
  ultimately have z: "- 4503599627460000 \<le> ?z * 86400" "?z * 86400 \<le> 4503599627370496" by linarith+
  then have "in_i64 ((?z - (d - 1)) * 86400)" "in_i64 ((?z - (d - 1)) * 86400 * 1000)"
    using d unfolding in_i64_def i64_min_def i64_max_def by (simp_all add: left_diff_distrib)
  then show ?thesis
    using assms(2) by (simp add: month_start_utc_ms_def month_first_day i64_mul_exact)
qed

text \<open>
  C35. The calendar conversions are the proleptic Gregorian calendar: day 0 is 1 January 1970, the
  conversion of each day is the date after that of the day before, every result is a valid
  date, and converting it back gives the day.
\<close>

theorem civil_calendar_correct:
  "civil_from_days 0 = (1970, 1, 1) \<and> civil_from_days (z + 1) = next_day (civil_from_days z) \<and>
   valid_date (civil_from_days z) \<and> (case civil_from_days z of (y, m, d) \<Rightarrow> days_from_civil y m d) = z"
proof -
  have "civil_from_days 0 = (1970, 1, 1)" by code_simp
  with civil_successor[of z] civil_roundtrip[of z] show ?thesis by blast
qed

text \<open>
  The month boundary is the first instant of the calendar month of the given time: it is
  midnight of a first day, not after the time, and every day from it up to the time lies in
  the same month and year.
\<close>

theorem month_start_is_first_instant:
  assumes "\<bar>now\<bar> \<le> 2 ^ 52" and "civil_from_days (now div 86400) = (y, m, d)"
  shows "\<exists>first. month_start_utc_ms now = first * 86400000 \<and> month_start_utc_ms now \<le> now * 1000 \<and>
    civil_from_days first = (y, m, 1) \<and>
    (\<forall>t. month_start_utc_ms now \<le> t * 1000 \<and> t \<le> now \<longrightarrow>
       (\<exists>d'. civil_from_days (t div 86400) = (y, m, d')))"
proof -
  let ?z = "now div 86400" let ?first = "?z - (d - 1)"
  have d: "1 \<le> d" using civil_roundtrip(2)[of ?z] assms(2) by (simp add: valid_date_def)
  have start: "month_start_utc_ms now = ?first * 86400000" using assms by (rule month_start_exact)
  have "?z * 86400 \<le> now" using div_mult_mod_eq[of now 86400] pos_mod_sign[of 86400 now] by linarith
  then have "?first * 86400000 \<le> now * 1000" using d by (simp add: left_diff_distrib)
  moreover have "civil_from_days ?first = (y, m, 1)"
    using civil_month_back[OF assms(2), of "d - 1"] d by simp
  moreover have "\<exists>d'. civil_from_days (t div 86400) = (y, m, d')"
    if "?first * 86400000 \<le> t * 1000" "t \<le> now" for t
  proof -
    have "?first * 86400 \<le> t" using that(1) by simp
    then have "?first \<le> t div 86400" using zdiv_mono1[of "?first * 86400" t 86400] by simp
    moreover have "t div 86400 \<le> ?z" using that(2) by (simp add: zdiv_mono1)
    ultimately show ?thesis using civil_month_back[OF assms(2), of "?z - t div 86400"] by auto
  qed
  ultimately show ?thesis using start by (intro exI[of _ ?first]) auto
qed

theorem month_start_is_first_instant_witness:
  "\<exists>first. month_start_utc_ms 1709251199 = first * 86400000 \<and>
     month_start_utc_ms 1709251199 \<le> 1709251199 * 1000 \<and> civil_from_days first = (2024, 2, 1)"
proof -
  have "civil_from_days (1709251199 div 86400) = (2024, 2, 29)" by code_simp
  from month_start_is_first_instant[OF _ this] show ?thesis by auto
qed

section \<open>Budgets fail closed\<close>

lemma try_fold_read_usage:
  assumes "try_fold (read_usage read) usage accounts = Inr usage'"
  shows "omap_get usage' a =
           (if a \<in> set accounts then (case read a of Inr units \<Rightarrow> Some units | Inl _ \<Rightarrow> None) else omap_get usage a)"
  using assms
proof (induction accounts arbitrary: usage)
  case Nil
  then show ?case by simp
next
  case (Cons b accounts)
  from Cons.prems obtain units where "read b = Inr units"
    and rest: "try_fold (read_usage read) (omap_insert b units usage) accounts = Inr usage'"
    by (cases "read b") (simp_all add: read_usage_def[of read usage b])
  with Cons.IH[OF rest] show ?case by auto
qed

lemma try_fold_read_usage_fails:
  "(\<exists>e. try_fold (read_usage read) usage accounts = Inl e) \<longleftrightarrow> (\<exists>a \<in> set accounts. \<exists>e. read a = Inl e)"
proof (induction accounts arbitrary: usage)
  case Nil
  then show ?case by simp
next
  case (Cons b accounts)
  then show ?case by (cases "read b") (simp_all add: read_usage_def[of read usage b])
qed

lemma refresh_with_usage:
  "bt_usage (refresh_with budgets read bt) = None \<longleftrightarrow> (\<exists>a \<in> fst ` set budgets. \<exists>e. read a = Inl e)"
  using try_fold_read_usage_fails[of read "[]" "omap_keys budgets"]
  by (auto simp: refresh_with_def split: sum.splits)

lemma is_over_after_refresh:
  "is_over budgets a (refresh_from_history budgets query now bt) \<longleftrightarrow>
     (\<exists>limit. omap_get budgets a = Some limit \<and>
        ((\<exists>b \<in> fst ` set budgets. \<exists>e. query (month_start_utc_ms now) b = Inl e) \<or>
         (\<exists>t. query (month_start_utc_ms now) a = Inr t \<and>
            limit \<le> weighted_units (input_tokens t) (output_tokens t) (cache_write_tokens t)
              (cached_input_tokens t))))"
proof -
  let ?read = "history_units query (month_start_utc_ms now)"
  let ?bt = "refresh_with budgets ?read bt"
  have fail: "(\<exists>e. ?read b = Inl e) \<longleftrightarrow> (\<exists>e. query (month_start_utc_ms now) b = Inl e)" for b
    by (cases "query (month_start_utc_ms now) b") (auto simp: history_units_def)
  have some: "omap_get usage a = (case ?read a of Inr units \<Rightarrow> Some units | Inl _ \<Rightarrow> None)"
    if "bt_usage ?bt = Some usage" "omap_contains budgets a" for usage
    using that try_fold_read_usage[of ?read "[]" "omap_keys budgets" _ a]
    by (auto simp: refresh_with_def omap_contains_iff split: sum.splits)
  show ?thesis
  proof (cases "omap_get budgets a")
    case None
    then show ?thesis by (simp add: is_over_def)
  next
    case (Some limit)
    then have ne: "budgets \<noteq> []" and c: "omap_contains budgets a" by (auto simp: omap_contains_def)
    have "is_over budgets a ?bt \<longleftrightarrow>
        bt_usage ?bt = None \<or> (\<exists>u. ?read a = Inr u \<and> limit \<le> u)"
    proof (cases "bt_usage ?bt")
      case None
      then show ?thesis using Some by (simp add: is_over_def)
    next
      case (Some usage)
      have "\<exists>u. ?read a = Inr u"
        using Some refresh_with_usage[of budgets ?read bt] c
        by (cases "?read a") (auto simp: omap_contains_iff)
      then show ?thesis using Some some[OF Some c] \<open>omap_get budgets a = Some limit\<close>
        by (auto simp: is_over_def)
    qed
    then show ?thesis
      using Some ne refresh_with_usage[of budgets ?read bt] fail
      by (auto simp: refresh_from_history_def history_units_def)
  qed
qed


end
