(* ===== verification/Affinity_Store.thy ===== *)
theory Affinity_Store
  imports Strings "HOL-Library.Word"
begin

unbundle bit_operations_syntax

text \<open>
  Durable session bindings, \<^verbatim>\<open>crates/gateway/src/affinity_store.rs\<close>. Keys are \<open>u64\<close> digests
  (\<open>64 word\<close>), times unix seconds (\<open>i64\<close>). The store's file is opaque text: \<open>to_vec\<close> and
  \<open>from_slice\<close> stand for the JSON library and turn an association list of key strings and bindings
  into text and back; \<open>aff_codec\<close> says that reading what was written gives the same entries, in
  some order. A write goes to a temporary file that is then renamed, so a failed write leaves
  the old file; whether a write succeeds is the argument \<open>io\<close>.
\<close>

section \<open>Digests\<close>

definition fnv1a64 :: "string \<Rightarrow> 64 word" where
  "fnv1a64 bytes =
     foldl (\<lambda>hash byte. (hash XOR of_nat (of_char byte)) * 0x00000100000001b3) 0xcbf29ce484222325 bytes"

definition digest :: "string \<Rightarrow> string \<Rightarrow> 64 word" where
  "digest tag material = fnv1a64 (tag @ [CHR 0x00] @ material)"

text \<open>The published test vectors of the hash.\<close>

lemma fnv1a64_vectors:
  "fnv1a64 [] = 0xcbf29ce484222325" "fnv1a64 ''a'' = 0xaf63dc4c8601ec8c"
  "fnv1a64 ''foobar'' = 0x85944171f73967e8"
  by code_simp+

section \<open>Hexadecimal keys\<close>

definition hex_digit :: "nat \<Rightarrow> char" where
  "hex_digit n = (if n < 10 then char_of (48 + n) else char_of (87 + n))"

fun hex_of :: "nat \<Rightarrow> nat \<Rightarrow> string" where
  "hex_of 0 n = []"
| "hex_of (Suc k) n = hex_of k (n div 16) @ [hex_digit (n mod 16)]"

definition format_key :: "64 word \<Rightarrow> string" where
  "format_key key = hex_of 16 (unat key)"

definition hex_value :: "char \<Rightarrow> nat option" where
  "hex_value c =
     (let n = of_char c :: nat
      in if 48 \<le> n \<and> n \<le> 57 then Some (n - 48)
         else if 97 \<le> n \<and> n \<le> 102 then Some (n - 87)
         else if 65 \<le> n \<and> n \<le> 70 then Some (n - 55)
         else None)"

fun parse_hex :: "nat \<Rightarrow> string \<Rightarrow> nat option" where
  "parse_hex acc [] = Some acc"
| "parse_hex acc (c # cs) =
     (case hex_value c of
        None \<Rightarrow> None
      | Some d \<Rightarrow> if u64_max < acc * 16 + d then None else parse_hex (acc * 16 + d) cs)"

text \<open>\<open>u64::from_str_radix(_, 16)\<close>: one leading plus sign is allowed, the empty string is not.\<close>

definition from_str_radix16 :: "string \<Rightarrow> (64 word) option" where
  "from_str_radix16 s =
     (case s of
        [] \<Rightarrow> None
      | c # cs \<Rightarrow>
          map_option of_nat (parse_hex 0 (if c = CHR ''+'' \<and> cs \<noteq> [] then cs else s)))"

section \<open>The store\<close>

definition BINDING_TTL_SECS :: int where "BINDING_TTL_SECS = 6 * 3600"
definition MAX_BINDINGS :: nat where "MAX_BINDINGS = 20000"

record aff_binding =
  account_id :: string
  last_used_unix :: int

record 'f affinity_store =
  af_path :: bool
  af_map :: "(64 word, aff_binding) omap"
  af_dirty :: bool
  af_file :: "'f option"

definition aff_live :: "int \<Rightarrow> aff_binding \<Rightarrow> bool" where
  "aff_live now b \<longleftrightarrow> i64_sub now (last_used_unix b) \<le> BINDING_TTL_SECS"

definition cutoff_age :: "(64 word, aff_binding) omap \<Rightarrow> int" where
  "cutoff_age m =
     (let ages = sort (map last_used_unix (omap_values m)) in ages ! (length ages - MAX_BINDINGS))"

definition aff_trim :: "int \<Rightarrow> (64 word, aff_binding) omap \<Rightarrow> (64 word, aff_binding) omap" where
  "aff_trim now m0 =
     (let m = omap_retain (\<lambda>_. aff_live now) m0
      in if MAX_BINDINGS < length m
         then omap_retain (\<lambda>_ b. cutoff_age m \<le> last_used_unix b) m
         else m)"

definition parse_entries :: "(string \<times> aff_binding) list \<Rightarrow> (64 word, aff_binding) omap" where
  "parse_entries raw =
     omap_extend [] (List.map_filter (\<lambda>(key, b). map_option (\<lambda>k. (k, b)) (from_str_radix16 key)) raw)"

definition aff_load ::
  "('f \<Rightarrow> (string \<times> aff_binding) list option) \<Rightarrow> 'f option \<Rightarrow> int \<Rightarrow> 'f affinity_store" where
  "aff_load from_slice content now =
     (let m = (case Option.bind content from_slice of None \<Rightarrow> [] | Some raw \<Rightarrow> parse_entries raw)
      in \<lparr>af_path = True, af_map = aff_trim now m, af_dirty = False, af_file = content\<rparr>)"

definition aff_in_memory :: "'f affinity_store" where
  "aff_in_memory = \<lparr>af_path = False, af_map = [], af_dirty = False, af_file = None\<rparr>"

definition aff_get :: "64 word \<Rightarrow> int \<Rightarrow> 'f affinity_store \<Rightarrow> string option" where
  "aff_get key now s =
     (case omap_get (af_map s) key of
        None \<Rightarrow> None
      | Some b \<Rightarrow> if aff_live now b then Some (account_id b) else None)"

definition aff_put :: "64 word \<Rightarrow> string \<Rightarrow> int \<Rightarrow> 'f affinity_store \<Rightarrow> 'f affinity_store" where
  "aff_put key account now s =
     (let m = omap_insert key \<lparr>account_id = account, last_used_unix = now\<rparr> (af_map s);
          m' = (if MAX_BINDINGS < length m then aff_trim now m else m)
      in s\<lparr>af_map := m', af_dirty := True\<rparr>)"

definition aff_counts :: "int \<Rightarrow> 'f affinity_store \<Rightarrow> (string, nat) omap" where
  "aff_counts now s =
     foldl (\<lambda>counts b.
         if aff_live now b
         then omap_insert (account_id b)
                ((case omap_get counts (account_id b) of Some n \<Rightarrow> n | None \<Rightarrow> 0) + 1) counts
         else counts) [] (omap_values (af_map s))"

definition aff_len :: "'f affinity_store \<Rightarrow> nat" where
  "aff_len s = length (af_map s)"

definition aff_is_empty :: "'f affinity_store \<Rightarrow> bool" where
  "aff_is_empty s \<longleftrightarrow> aff_len s = 0"

definition snapshot_if_dirty ::
  "((string \<times> aff_binding) list \<Rightarrow> 'f option) \<Rightarrow> int \<Rightarrow> 'f affinity_store \<Rightarrow> 'f option \<times> 'f affinity_store" where
  "snapshot_if_dirty to_vec now s =
     (if \<not> af_path s \<or> \<not> af_dirty s then (None, s)
      else let m = aff_trim now (af_map s)
           in (to_vec (map (\<lambda>(key, b). (format_key key, b)) m), s\<lparr>af_map := m, af_dirty := False\<rparr>))"

definition flush_blocking ::
  "((string \<times> aff_binding) list \<Rightarrow> 'f option) \<Rightarrow> bool \<Rightarrow> int \<Rightarrow> 'f affinity_store \<Rightarrow>
   (unit + unit) \<times> 'f affinity_store" where
  "flush_blocking to_vec io now s =
     (case snapshot_if_dirty to_vec now s of
        (None, s') \<Rightarrow> (Inr (), s')
      | (Some bytes, s') \<Rightarrow> if io then (Inr (), s'\<lparr>af_file := Some bytes\<rparr>) else (Inl (), s'))"

section \<open>Keys survive the file\<close>

lemma hex_value_digit [simp]: "d < 16 \<Longrightarrow> hex_value (hex_digit d) = Some d"
  by (auto simp: hex_value_def hex_digit_def)

lemma parse_hex_append:
  "parse_hex acc (xs @ ys) = Option.bind (parse_hex acc xs) (\<lambda>a. parse_hex a ys)"
  by (induction xs arbitrary: acc) (auto split: option.splits)

lemma parse_hex_of: "n < 16 ^ k \<Longrightarrow> n \<le> u64_max \<Longrightarrow> parse_hex 0 (hex_of k n) = Some n"
proof (induction k arbitrary: n)
  case 0
  then show ?case by simp
next
  case (Suc k)
  have "n div 16 < 16 ^ k" using Suc.prems(1) by (simp add: less_mult_imp_div_less mult.commute)
  moreover have "n div 16 \<le> u64_max" using Suc.prems(2) by simp
  ultimately have "parse_hex 0 (hex_of k (n div 16)) = Some (n div 16)" by (rule Suc.IH)
  then show ?case using Suc.prems(2) by (simp add: parse_hex_append mult.commute)
qed

lemma hex_of_digits: "c \<in> set (hex_of k n) \<Longrightarrow> hex_value c \<noteq> None"
  by (induction k arbitrary: n) auto

lemma hex_value_plus: "hex_value (CHR ''+'') = None"
  by code_simp

lemma from_str_radix16_format [simp]: "from_str_radix16 (format_key key) = Some key"
proof -
  have "format_key key \<noteq> []"
    using hex_of.simps(2)[of 15 "unat key"] by (simp add: format_key_def del: hex_of.simps)
  then obtain c cs where h: "format_key key = c # cs" by (cases "format_key key") simp_all
  have "c \<noteq> CHR ''+''" using hex_of_digits[of c 16 "unat key"] h hex_value_plus by (auto simp: format_key_def)
  moreover have "unat key < 2 ^ 64" using unsigned_less[of key] by simp
  then have "parse_hex 0 (format_key key) = Some (unat key)"
    unfolding format_key_def by (intro parse_hex_of) (simp_all add: u64_max_def)
  ultimately show ?thesis using h by (simp add: from_str_radix16_def)
qed

lemma format_key_inject [simp]: "format_key a = format_key b \<longleftrightarrow> a = b"
  by (metis from_str_radix16_format option.inject)

section \<open>Trimming\<close>

lemma filter_take_drop: "filter P xs = filter P (take i xs) @ filter P (drop i xs)"
  by (metis append_take_drop_id filter_append)

lemma sorted_count_above:
  assumes "sorted xs" "i < length xs"
  shows "length (filter (\<lambda>x. xs ! i < x) xs) < length xs - i"
proof -
  have none: "filter (\<lambda>x. xs ! i < x) (take (Suc i) xs) = []"
  proof -
    have "x \<le> xs ! i" if "x \<in> set (take (Suc i) xs)" for x
      using that assms by (auto simp: in_set_conv_nth less_Suc_eq_le intro: sorted_nth_mono)
    then show ?thesis by (auto simp: filter_empty_conv not_less)
  qed
  have "filter (\<lambda>x. xs ! i < x) xs = filter (\<lambda>x. xs ! i < x) (drop (Suc i) xs)"
    using filter_take_drop[of "\<lambda>x. xs ! i < x" xs "Suc i"] unfolding none append_Nil .
  also have "length \<dots> \<le> length (drop (Suc i) xs)" by (rule length_filter_le)
  finally show ?thesis using assms(2) by simp
qed

lemma sorted_nth_le_of_few:
  assumes "sorted xs" "i < length xs" "length (filter (\<lambda>x. c < x) xs) < length xs - i"
  shows "xs ! i \<le> (c :: 'a :: linorder)"
proof (rule ccontr)
  assume c: "\<not> xs ! i \<le> c"
  have "xs ! i \<le> x" if "x \<in> set (drop i xs)" for x
    using that assms(1) by (auto simp: in_set_conv_nth less_diff_conv add.commute intro!: sorted_nth_mono)
  with c have "c < x" if "x \<in> set (drop i xs)" for x
    using that by (meson less_le_trans not_le)
  then have "filter (\<lambda>x. c < x) (drop i xs) = drop i xs" by (simp add: filter_id_conv)
  then have "length (filter (\<lambda>x. c < x) xs) \<ge> length (drop i xs)"
    using filter_take_drop[of "\<lambda>x. c < x" xs i] by simp
  then show False using assms(3) by simp
qed

definition newer :: "int \<Rightarrow> (64 word, aff_binding) omap \<Rightarrow> nat" where
  "newer c m = length (filter (\<lambda>b. c < last_used_unix b) (omap_values m))"

lemma newer_sorted: "length (filter (\<lambda>x. c < x) (sort (map last_used_unix (omap_values m)))) = newer c m"
proof -
  have "length (filter (\<lambda>x. c < x) (sort (map last_used_unix (omap_values m)))) =
      size (filter_mset (\<lambda>x. c < x) (mset (map last_used_unix (omap_values m))))"
    by (metis mset_filter mset_sort size_mset)
  also have "\<dots> = length (filter (\<lambda>x. c < x) (map last_used_unix (omap_values m)))"
    by (metis mset_filter size_mset)
  finally show ?thesis by (simp add: newer_def filter_map comp_def)
qed

lemma newer_filter_le: "newer c (omap_retain P m) \<le> newer c m"
  by (induction m) (auto simp: newer_def omap_retain_def)

lemma MAX_BINDINGS_pos: "0 < MAX_BINDINGS"
  by (simp add: MAX_BINDINGS_def)

lemma newer_cutoff:
  assumes "MAX_BINDINGS < length m"
  shows "newer (cutoff_age m) m < MAX_BINDINGS"
proof -
  let ?ages = "sort (map last_used_unix (omap_values m))"
  have "length ?ages = length m" by simp
  then have "length (filter (\<lambda>x. ?ages ! (length ?ages - MAX_BINDINGS) < x) ?ages) <
      length ?ages - (length ?ages - MAX_BINDINGS)"
    using assms MAX_BINDINGS_pos by (intro sorted_count_above) simp_all
  then show ?thesis using assms unfolding newer_sorted cutoff_age_def Let_def by simp
qed

lemma cutoff_le_of_few:
  assumes "MAX_BINDINGS < length m" "newer c m < MAX_BINDINGS"
  shows "cutoff_age m \<le> c"
proof -
  let ?ages = "sort (map last_used_unix (omap_values m))"
  have "?ages ! (length ?ages - MAX_BINDINGS) \<le> c"
  proof (rule sorted_nth_le_of_few)
    show "length ?ages - MAX_BINDINGS < length ?ages" using assms(1) MAX_BINDINGS_pos by simp
    show "length (filter (\<lambda>x. c < x) ?ages) < length ?ages - (length ?ages - MAX_BINDINGS)"
      unfolding newer_sorted using assms by simp
  qed simp
  then show ?thesis by (simp add: cutoff_age_def Let_def)
qed

text \<open>
  What trimming guarantees: expired bindings are gone, and whenever something unexpired was
  dropped, everything kept is newer than it and fewer than the maximum are newer than the
  oldest kept one.
\<close>

definition few_above :: "(64 word, aff_binding) omap \<Rightarrow> bool" where
  "few_above m \<longleftrightarrow> length m \<le> MAX_BINDINGS \<or>
     (\<exists>c. newer c m < MAX_BINDINGS \<and> (\<forall>b \<in> set (omap_values m). c \<le> last_used_unix b))"

lemma few_above_trim: "few_above (aff_trim now m)"
proof -
  let ?m = "omap_retain (\<lambda>_. aff_live now) m"
  show ?thesis
  proof (cases "MAX_BINDINGS < length ?m")
    case True
    then have eq: "aff_trim now m = omap_retain (\<lambda>_ b. cutoff_age ?m \<le> last_used_unix b) ?m"
      by (simp add: aff_trim_def Let_def)
    have "newer (cutoff_age ?m) (aff_trim now m) < MAX_BINDINGS"
      unfolding eq using newer_filter_le newer_cutoff[OF True] by (rule le_less_trans)
    moreover have "\<forall>b \<in> set (omap_values (aff_trim now m)). cutoff_age ?m \<le> last_used_unix b"
      unfolding eq by (auto simp: set_omap_retain)
    ultimately show ?thesis unfolding few_above_def by blast
  next
    case False
    then show ?thesis by (simp add: aff_trim_def Let_def few_above_def)
  qed
qed

text \<open>Trimming such a map again only drops what has expired.\<close>

lemma aff_trim_few_above:
  assumes "few_above m"
  shows "aff_trim now m = omap_retain (\<lambda>_. aff_live now) m"
proof -
  let ?m = "omap_retain (\<lambda>_. aff_live now) m"
  have len: "length ?m \<le> length m" by (simp add: omap_retain_def)
  have "omap_retain (\<lambda>_ b. cutoff_age ?m \<le> last_used_unix b) ?m = ?m" if big: "MAX_BINDINGS < length ?m"
  proof -
    obtain c where c: "newer c m < MAX_BINDINGS" "\<forall>b \<in> set (omap_values m). c \<le> last_used_unix b"
      using assms big len by (auto simp: few_above_def)
    have "cutoff_age ?m \<le> c"
      using big by (rule cutoff_le_of_few) (rule le_less_trans[OF newer_filter_le c(1)])
    then show ?thesis using c(2) by (intro omap_retain_id) (force simp: set_omap_retain)
  qed
  then show ?thesis by (simp add: aff_trim_def Let_def)
qed

section \<open>Restarts\<close>

definition aff_codec ::
  "((string \<times> aff_binding) list \<Rightarrow> 'f option) \<Rightarrow> ('f \<Rightarrow> (string \<times> aff_binding) list option) \<Rightarrow> bool" where
  "aff_codec to_vec from_slice \<longleftrightarrow>
     (\<forall>raw. distinct (map fst raw) \<longrightarrow>
        (\<exists>bytes raw'. to_vec raw = Some bytes \<and> from_slice bytes = Some raw' \<and> mset raw' = mset raw))"

lemma mset_map_filter: "mset xs = mset ys \<Longrightarrow> mset (List.map_filter f xs) = mset (List.map_filter f ys)"
  unfolding List.map_filter_def mset_map mset_filter by simp

lemma parse_formatted:
  "List.map_filter (\<lambda>(key, b). map_option (\<lambda>k. (k, b)) (from_str_radix16 key))
     (map (\<lambda>(key, b). (format_key key, b)) m) = m"
  by (induction m) (auto simp: map_filter_simps)

lemma omap_extend_mset:
  assumes "omap_ok m" "mset es = mset m"
  shows "omap_extend [] es = m"
proof -
  have "distinct (map fst es)"
    using omap_ok_distinct[OF assms(1)] assms(2) by (metis mset_eq_imp_distinct_iff mset_map)
  then have "omap_get (omap_extend [] es) = omap_get m"
    using omap_ok_distinct[OF assms(1)] mset_eq_setD[OF assms(2)]
    unfolding omap_get_collect[OF \<open>distinct (map fst es)\<close>] by (intro map_of_inject_set[THEN iffD2])
  then show ?thesis using assms(1) by (intro omap_ext) simp_all
qed

lemma parse_entries_format:
  assumes "omap_ok m" and "mset raw = mset (map (\<lambda>(key, b). (format_key key, b)) m)"
  shows "parse_entries raw = m"
  unfolding parse_entries_def
  by (rule omap_extend_mset[OF assms(1)]) (simp only: mset_map_filter[OF assms(2)] parse_formatted)

lemma omap_ok_trim [simp, intro]: "omap_ok m \<Longrightarrow> omap_ok (aff_trim now m)"
  by (simp add: aff_trim_def Let_def)

text \<open>A store whose times are plausible: not negative, and not after the present one.\<close>

definition aff_ok :: "int \<Rightarrow> 'f affinity_store \<Rightarrow> bool" where
  "aff_ok now s \<longleftrightarrow> omap_ok (af_map s) \<and>
     (\<forall>b \<in> set (omap_values (af_map s)). 0 \<le> last_used_unix b \<and> last_used_unix b \<le> now)"

lemma aff_live_mono:
  assumes "aff_live t' b" "0 \<le> last_used_unix b" "last_used_unix b \<le> i64_max"
    and "0 \<le> t" "t \<le> t'" "t' \<le> i64_max"
  shows "aff_live t b"
proof -
  have "in_i64 (t - last_used_unix b)" "in_i64 (t' - last_used_unix b)"
    using assms unfolding in_i64_def i64_min_def i64_max_def by simp_all
  then show ?thesis using assms by (simp add: aff_live_def i64_sub_exact)
qed

lemma flush_dirty:
  assumes "aff_codec to_vec from_slice" "omap_ok (af_map s)" "af_path s" "af_dirty s"
  obtains bytes raw where "flush_blocking to_vec True t s =
      (Inr (), s\<lparr>af_map := aff_trim t (af_map s), af_dirty := False, af_file := Some bytes\<rparr>)"
    "from_slice bytes = Some raw" "parse_entries raw = aff_trim t (af_map s)"
proof -
  let ?m = "aff_trim t (af_map s)"
  let ?raw = "map (\<lambda>(key, b). (format_key key, b)) ?m"
  have "distinct (map fst ?raw)"
    using omap_ok_distinct[OF omap_ok_trim[OF assms(2)], of t]
    by (auto simp: distinct_map inj_on_def comp_def split_beta) 
  then obtain bytes raw where "to_vec ?raw = Some bytes" "from_slice bytes = Some raw" "mset raw = mset ?raw"
    using assms(1) unfolding aff_codec_def by blast
  then show thesis
    using assms parse_entries_format[of ?m raw] omap_ok_trim[OF assms(2), of t]
    by (intro that[of bytes raw]) (simp_all add: flush_blocking_def snapshot_if_dirty_def Let_def)
qed

lemma aff_get_retained:
  assumes "omap_ok m" "\<And>b. b \<in> set (omap_values m) \<Longrightarrow> aff_live t'' b \<Longrightarrow> aff_live t' b"
  shows "(case omap_get (omap_retain (\<lambda>_. aff_live t') m) key of
            None \<Rightarrow> None | Some b \<Rightarrow> if aff_live t'' b then Some (account_id b) else None) =
         (case omap_get m key of
            None \<Rightarrow> None | Some b \<Rightarrow> if aff_live t'' b then Some (account_id b) else None)"
proof (cases "omap_get m key")
  case None
  then show ?thesis by (simp add: omap_get_retain omap_ok_distinct[OF assms(1)])
next
  case (Some b)
  then have "b \<in> set (omap_values m)" by (force dest: omap_get_in_set)
  with Some assms(2)[of b] show ?thesis by (auto simp: omap_get_retain omap_ok_distinct[OF assms(1)])
qed

text \<open>
  C37. A restart loses no session binding: when a changed store is flushed and the file is
  loaded later, every lookup from then on answers as the flushed store would have, and also as
  the store did before the flush unless the table had outgrown its limit.
\<close>

theorem restart_keeps_bindings:
  assumes "aff_codec to_vec from_slice" and "aff_ok t s" and "af_path s" "af_dirty s"
    and "0 \<le> t" "t \<le> t'" "t' \<le> t''" "t'' \<le> i64_max"
  shows "fst (flush_blocking to_vec True t s) = Inr () \<and>
    aff_get key t'' (aff_load from_slice (af_file (snd (flush_blocking to_vec True t s))) t') =
      aff_get key t'' (snd (flush_blocking to_vec True t s)) \<and>
    (aff_len s \<le> MAX_BINDINGS \<longrightarrow> aff_get key t'' (snd (flush_blocking to_vec True t s)) = aff_get key t'' s)"
proof -
  let ?m = "aff_trim t (af_map s)"
  have ok: "omap_ok (af_map s)" using assms(2) by (simp add: aff_ok_def)
  obtain bytes raw where fl: "flush_blocking to_vec True t s =
      (Inr (), s\<lparr>af_map := ?m, af_dirty := False, af_file := Some bytes\<rparr>)"
    and raw: "from_slice bytes = Some raw" "parse_entries raw = ?m"
    using flush_dirty[OF assms(1) ok assms(3,4)] by blast
  have sub: "set ?m \<subseteq> set (af_map s)" by (auto simp: aff_trim_def Let_def omap_retain_def)
  have live: "aff_live u b" if "b \<in> set (omap_values (af_map s))" "aff_live t'' b" "u \<in> {t, t'}" for u b
    using that assms by (intro aff_live_mono[of t'' b u]) (auto simp: aff_ok_def intro: order_trans)
  have "aff_trim t' ?m = omap_retain (\<lambda>_. aff_live t') ?m" by (rule aff_trim_few_above[OF few_above_trim])
  then have "aff_get key t'' (aff_load from_slice (Some bytes) t') = aff_get key t'' (s\<lparr>af_map := ?m\<rparr>)"
    using aff_get_retained[OF omap_ok_trim[OF ok], of t t'' t' key] sub live raw
    by (simp add: aff_get_def aff_load_def) blast
  moreover have "aff_get key t'' (s\<lparr>af_map := ?m\<rparr>) = aff_get key t'' s" if "aff_len s \<le> MAX_BINDINGS"
  proof -
    have "?m = omap_retain (\<lambda>_. aff_live t) (af_map s)"
      using that by (intro aff_trim_few_above) (simp add: few_above_def aff_len_def)
    then show ?thesis using aff_get_retained[OF ok, of t'' t key] live by (simp add: aff_get_def)
  qed
  ultimately show ?thesis using fl by (simp add: aff_get_def)
qed

theorem restart_keeps_bindings_witness:
  "aff_get 7 2000 (aff_load Some
     (af_file (snd (flush_blocking Some True 1000 (aff_put 7 ''acct'' 1000 (aff_load Some None 900))))) 1500) =
   Some ''acct''"
proof -
  let ?s = "aff_put 7 ''acct'' 1000 (aff_load Some None 900)"
  have "aff_codec Some Some" by (auto simp: aff_codec_def)
  moreover have "aff_ok 1000 ?s" "af_path ?s" "af_dirty ?s" "aff_len ?s \<le> MAX_BINDINGS"
    by (simp_all add: aff_ok_def aff_put_def aff_load_def aff_trim_def omap_retain_def aff_len_def
        MAX_BINDINGS_def omap_ok_def Let_def)
  moreover have "aff_get 7 2000 ?s = Some ''acct''"
    by (simp add: aff_get_def aff_put_def aff_load_def aff_trim_def omap_retain_def aff_live_def
        MAX_BINDINGS_def Let_def i64_sub_def i64_wrap_def BINDING_TTL_SECS_def)
  ultimately show ?thesis
    using restart_keeps_bindings[of Some Some 1000 ?s 1500 2000 7] by (simp add: i64_max_def)
qed

section \<open>Operations\<close>

lemma aff_put_get:
  assumes "aff_ok now s"
  shows "aff_get key now (aff_put key account now s) = Some account"
proof -
  let ?b = "\<lparr>account_id = account, last_used_unix = now\<rparr>"
  let ?m = "omap_insert key ?b (af_map s)"
  let ?r = "omap_retain (\<lambda>_. aff_live now) ?m"
  have ok: "omap_ok ?m" using assms(1) by (simp add: aff_ok_def)
  have live: "aff_live now ?b" by (simp add: aff_live_def i64_sub_def i64_wrap_def BINDING_TTL_SECS_def)
  have r: "omap_get ?r key = Some ?b" using live by (intro omap_get_retain_id omap_ok_distinct ok) simp_all
  have newest: "last_used_unix b \<le> now" if "(k, b) \<in> set ?r" for k b
    using that set_omap_insert_subset[of key ?b "af_map s"] assms(1)
    by (force simp: set_omap_retain aff_ok_def)
  have "cutoff_age ?r \<le> now" if "MAX_BINDINGS < length ?r"
  proof -
    have "newer now ?r = 0" using newest by (force simp: newer_def filter_empty_conv)
    then show ?thesis using that MAX_BINDINGS_pos by (intro cutoff_le_of_few) simp_all
  qed
  then have "omap_get (aff_trim now ?m) key = Some ?b"
    using r omap_get_retain_id[OF omap_ok_distinct[OF omap_ok_retain[OF ok]] r]
    by (simp add: aff_trim_def Let_def)
  then show ?thesis using live by (simp add: aff_put_def aff_get_def Let_def)
qed

text \<open>A failed write is not retried: the dirty flag is cleared before the write.\<close>

lemma failed_flush_not_retried:
  "af_file (snd (flush_blocking to_vec True t' (snd (flush_blocking to_vec False t s)))) = af_file s"
  by (auto simp: flush_blocking_def snapshot_if_dirty_def Let_def split: option.split)

text \<open>Bindings of the cutoff age are all kept, so equal times exceed the limit.\<close>

lemma trim_keeps_ties:
  assumes "length m = n" "MAX_BINDINGS < n" "\<And>b. b \<in> set (omap_values m) \<Longrightarrow> last_used_unix b = t"
  shows "aff_trim t m = m"
proof -
  have "aff_live t b" if "b \<in> set (omap_values m)" for b
    using assms(3)[OF that] by (simp add: aff_live_def i64_sub_def i64_wrap_def BINDING_TTL_SECS_def)
  then have r: "omap_retain (\<lambda>_. aff_live t) m = m" by (intro omap_retain_id) force
  have "newer t m = 0" using assms(3) by (force simp: newer_def filter_empty_conv)
  then have "cutoff_age m \<le> t" using assms(1,2) MAX_BINDINGS_pos by (intro cutoff_le_of_few) simp_all
  then have "omap_retain (\<lambda>_ b. cutoff_age m \<le> last_used_unix b) m = m"
    using assms(3) by (intro omap_retain_id) force
  with r show ?thesis by (simp add: aff_trim_def)
qed

lemma aff_counts_live:
  "(case omap_get (aff_counts now s) a of Some n \<Rightarrow> n | None \<Rightarrow> 0) =
     length (filter (\<lambda>b. aff_live now b \<and> account_id b = a) (omap_values (af_map s)))"
proof -
  let ?step = "\<lambda>counts b. if aff_live now b
     then omap_insert (account_id b)
            ((case omap_get counts (account_id b) of Some n \<Rightarrow> n | None \<Rightarrow> 0) + 1) counts
     else counts"
  have "(case omap_get (foldl ?step counts bs) a of Some n \<Rightarrow> n | None \<Rightarrow> 0) =
      (case omap_get counts a of Some n \<Rightarrow> n | None \<Rightarrow> 0) +
      length (filter (\<lambda>b. aff_live now b \<and> account_id b = a) bs)" for counts bs
    by (induction bs arbitrary: counts) auto
  from this[of "[]"] show ?thesis by (simp add: aff_counts_def)
qed

end
