(* ===== verification/Claude_Reset_Order.thy ===== *)
theory Claude_Reset_Order
  imports Usage
begin

text \<open>
  The order in which new sessions are offered to Claude subscription accounts,
  \<^verbatim>\<open>crates/gateway/src/claude_reset_order.rs\<close>: accounts are ranked by the reset of their active
  five-hour window, the ranks are cached, and the slots that these accounts hold in a candidate
  list are reordered by rank with nearly spent accounts last.
\<close>

section \<open>Definitions\<close>

definition REFRESH_INTERVAL_SECS :: int where "REFRESH_INTERVAL_SECS = 30 * 60"
definition NEW_SESSION_MIN_REMAINING_PERCENT :: rat where "NEW_SESSION_MIN_REMAINING_PERCENT = 10"

definition is_claude_subscription :: "account_member \<Rightarrow> bool" where
  "is_claude_subscription m \<longleftrightarrow> am_kind m = Claude \<and> relay_api_key m = None"

definition active_five_hour_reset :: "account_member \<Rightarrow> int \<Rightarrow> int option" where
  "active_five_hour_reset m now =
     (case qw_reset_at_unix (am_primary m) of
        Some reset \<Rightarrow> if now < reset then Some reset else None
      | None \<Rightarrow> None)"

definition window_nearly_spent :: "int \<Rightarrow> quota_window \<Rightarrow> bool" where
  "window_nearly_spent now w =
     (let live = (case qw_reset_at_unix w of None \<Rightarrow> True | Some reset \<Rightarrow> now < reset)
      in live \<and> (case used_percent w of
                    None \<Rightarrow> False
                  | Some used \<Rightarrow> f64_less (f64_sub_from 100 used) NEW_SESSION_MIN_REMAINING_PERCENT))"

definition is_nearly_spent :: "account_member \<Rightarrow> int \<Rightarrow> bool" where
  "is_nearly_spent m now = list_ex (window_nearly_spent now) [am_primary m, am_secondary m]"

definition keyed_members :: "account_member list \<Rightarrow> int \<Rightarrow> (int \<times> nat \<times> string) list" where
  "keyed_members members now =
     map (\<lambda>(index, m).
            ((case active_five_hour_reset m now of Some r \<Rightarrow> r | None \<Rightarrow> i64_max), index, am_id m))
         (filter (\<lambda>(_, m). is_claude_subscription m) (enumerated members))"

definition rank_by_five_hour_reset :: "account_member list \<Rightarrow> int \<Rightarrow> (string, nat) omap" where
  "rank_by_five_hour_reset members now =
     omap_extend [] (map (\<lambda>(rank, _, _, ident). (ident, rank)) (enumerated (sort (keyed_members members now))))"

type_synonym cached_ranks = "(int \<times> (string, nat) omap) option"

definition ranks_valid_until :: "account_member list \<Rightarrow> int \<Rightarrow> int" where
  "ranks_valid_until members now =
     (let next_check = i64_saturating_add now REFRESH_INTERVAL_SECS;
          resets = List.map_filter (\<lambda>m. active_five_hour_reset m now) (filter is_claude_subscription members)
      in case min_by_key (\<lambda>r. r) resets of None \<Rightarrow> next_check | Some reset \<Rightarrow> min reset next_check)"

definition claude_ranks ::
  "account_member list \<Rightarrow> int \<Rightarrow> cached_ranks \<Rightarrow> (string, nat) omap \<times> cached_ranks" where
  "claude_ranks members now cached =
     (let fresh =
        (let ranks = rank_by_five_hour_reset members now
         in (ranks, Some (ranks_valid_until members now, ranks)))
      in case cached of
           Some (valid_until, ranks) \<Rightarrow> if now < valid_until then (ranks, cached) else fresh
         | None \<Rightarrow> fresh)"

definition claude_slot :: "account_member list \<Rightarrow> nat \<Rightarrow> bool" where
  "claude_slot members index \<longleftrightarrow> index < length members \<and> is_claude_subscription (members ! index)"

definition slot_key :: "account_member list \<Rightarrow> (string, nat) omap \<Rightarrow> int \<Rightarrow> nat \<Rightarrow> bool \<times> nat" where
  "slot_key members ranks now index =
     (let m = members ! index
      in (is_nearly_spent m now, case omap_get ranks (am_id m) of Some r \<Rightarrow> r | None \<Rightarrow> u64_max))"

definition reorder_claude_slots ::
  "nat list \<Rightarrow> account_member list \<Rightarrow> (string, nat) omap \<Rightarrow> int \<Rightarrow> nat list" where
  "reorder_claude_slots ordered members ranks now =
     (let slots = map fst (filter (\<lambda>(_, index). claude_slot members index) (enumerated ordered));
          claude = sort_key (slot_key members ranks now) (map (\<lambda>slot. ordered ! slot) slots)
      in foldl (\<lambda>xs (slot, index). xs[slot := index]) ordered (zip slots claude))"

section \<open>Writing slots back\<close>

text \<open>The positions of a list that satisfy \<open>P\<close>, filled with the elements of another one.\<close>

fun fill :: "('a \<Rightarrow> bool) \<Rightarrow> 'a list \<Rightarrow> 'a list \<Rightarrow> 'a list" where
  "fill P [] ys = []"
| "fill P (x # xs) ys = (if P x then hd ys # fill P xs (tl ys) else x # fill P xs ys)"

definition slots_from :: "('a \<Rightarrow> bool) \<Rightarrow> nat \<Rightarrow> 'a list \<Rightarrow> nat list" where
  "slots_from P k xs = map fst (filter (\<lambda>(_, x). P x) (zip [k..<k + length xs] xs))"

lemma slots_from_Nil [simp]: "slots_from P k [] = []"
  by (simp add: slots_from_def)

lemma slots_from_Cons [simp]:
  "slots_from P k (x # xs) = (if P x then k # slots_from P (Suc k) xs else slots_from P (Suc k) xs)"
proof -
  have "[k..<k + length (x # xs)] = k # [Suc k..<Suc k + length xs]" by (simp add: upt_rec)
  then show ?thesis unfolding slots_from_def by (simp del: upt_Suc)
qed

lemma slots_from_nth: "map (\<lambda>i. (pre @ xs) ! i) (slots_from P (length pre) xs) = filter P xs"
proof (induction xs arbitrary: pre)
  case Nil
  then show ?case by simp
next
  case (Cons x xs)
  from Cons.IH[of "pre @ [x]"] show ?case by (simp add: nth_append)
qed

lemma write_back_fill:
  "length ys = length (filter P xs) \<Longrightarrow>
   foldl (\<lambda>xs (slot, y). xs[slot := y]) (pre @ xs) (zip (slots_from P (length pre) xs) ys) = pre @ fill P xs ys"
proof (induction xs arbitrary: pre ys)
  case Nil
  then show ?case by simp
next
  case (Cons x xs)
  show ?case
  proof (cases "P x")
    case True
    then obtain z zs where "ys = z # zs" "length zs = length (filter P xs)"
      using Cons.prems by (cases ys) auto
    with True Cons.IH[of zs "pre @ [z]"] show ?thesis by (simp add: list_update_append)
  next
    case False
    with Cons.IH[of ys "pre @ [x]"] Cons.prems show ?thesis by simp
  qed
qed

lemma fill_filter:
  assumes "length ys = length (filter P xs)" "list_all P ys"
  shows "filter P (fill P xs ys) = ys" "length (fill P xs ys) = length xs"
    "i < length xs \<Longrightarrow> P (fill P xs ys ! i) = P (xs ! i)"
    "i < length xs \<Longrightarrow> \<not> P (xs ! i) \<Longrightarrow> fill P xs ys ! i = xs ! i"
proof -
  have "filter P (fill P xs ys) = ys \<and> length (fill P xs ys) = length xs \<and>
    (\<forall>i < length xs. P (fill P xs ys ! i) = P (xs ! i) \<and> (\<not> P (xs ! i) \<longrightarrow> fill P xs ys ! i = xs ! i))"
    using assms
  proof (induction P xs ys rule: fill.induct)
    case (2 P x xs ys)
    then show ?case by (cases ys) (auto simp: nth_Cons split: nat.splits)
  qed simp
  then show "filter P (fill P xs ys) = ys" "length (fill P xs ys) = length xs"
    "i < length xs \<Longrightarrow> P (fill P xs ys ! i) = P (xs ! i)"
    "i < length xs \<Longrightarrow> \<not> P (xs ! i) \<Longrightarrow> fill P xs ys ! i = xs ! i" by blast+
qed

lemma reorder_fill:
  "reorder_claude_slots ordered members ranks now =
     fill (claude_slot members) ordered
       (sort_key (slot_key members ranks now) (filter (claude_slot members) ordered))"
proof -
  let ?P = "claude_slot members"
  have slots: "map fst (filter (\<lambda>(_, index). ?P index) (enumerated ordered)) = slots_from ?P 0 ordered"
    by (simp add: slots_from_def enumerated_def)
  have vals: "map (\<lambda>slot. ordered ! slot) (slots_from ?P 0 ordered) = filter ?P ordered"
    using slots_from_nth[of "[]" ordered ?P] by simp
  show ?thesis
    using write_back_fill[of "sort_key (slot_key members ranks now) (filter ?P ordered)" ?P ordered "[]"]
    by (simp add: reorder_claude_slots_def Let_def slots vals)
qed

lemma reorder_parts:
  "filter (claude_slot members) (reorder_claude_slots ordered members ranks now) =
     sort_key (slot_key members ranks now) (filter (claude_slot members) ordered)"
  "length (reorder_claude_slots ordered members ranks now) = length ordered"
  "i < length ordered \<Longrightarrow> claude_slot members (reorder_claude_slots ordered members ranks now ! i) =
     claude_slot members (ordered ! i)"
  "i < length ordered \<Longrightarrow> \<not> claude_slot members (ordered ! i) \<Longrightarrow>
     reorder_claude_slots ordered members ranks now ! i = ordered ! i"
  unfolding reorder_fill by (rule fill_filter; simp add: list_all_iff)+

lemma filter_nth_eq:
  assumes "length xs = length ys" "\<And>i. i < length xs \<Longrightarrow> P (xs ! i) = P (ys ! i)"
    "\<And>i. i < length xs \<Longrightarrow> P (ys ! i) \<Longrightarrow> xs ! i = ys ! i"
  shows "filter P xs = filter P ys"
  using assms
proof (induction xs ys rule: list_induct2)
  case (Cons x xs y ys)
  have "filter P xs = filter P ys"
  proof (rule Cons.IH)
    fix i assume "i < length xs"
    then show "P (xs ! i) = P (ys ! i)" "P (ys ! i) \<Longrightarrow> xs ! i = ys ! i"
      using Cons.prems(1)[of "Suc i"] Cons.prems(2)[of "Suc i"] by simp_all
  qed
  moreover have "P x = P y" "P y \<Longrightarrow> x = y" using Cons.prems(1)[of 0] Cons.prems(2)[of 0] by simp_all
  ultimately show ?case by auto
qed simp

lemma mset_reorder: "mset (reorder_claude_slots ordered members ranks now) = mset ordered"
proof -
  let ?r = "reorder_claude_slots ordered members ranks now" and ?P = "claude_slot members"
  have "filter (\<lambda>x. \<not> ?P x) ?r = filter (\<lambda>x. \<not> ?P x) ordered"
    by (rule filter_nth_eq) (simp_all add: reorder_parts)
  moreover have "mset (filter ?P ?r) = mset (filter ?P ordered)" by (simp add: reorder_parts(1) mset_sort)
  moreover have "mset xs = mset (filter ?P xs) + mset (filter (\<lambda>x. \<not> ?P x) xs)" for xs
    by (simp add: multiset_partition[symmetric])
  ultimately show ?thesis by metis
qed

section \<open>Ranks\<close>

definition reset_or_never :: "int \<Rightarrow> account_member \<Rightarrow> int" where
  "reset_or_never now m = (case active_five_hour_reset m now of Some r \<Rightarrow> r | None \<Rightarrow> i64_max)"

lemma keyed_members_mem:
  "(r, i, ident) \<in> set (keyed_members members now) \<longleftrightarrow>
     claude_slot members i \<and> r = reset_or_never now (members ! i) \<and> ident = am_id (members ! i)"
  by (auto simp: keyed_members_def enumerated_mem claude_slot_def reset_or_never_def image_iff
      split: option.split)

lemma distinct_keyed_members: "distinct (keyed_members members now)"
proof -
  have "map (fst \<circ> snd) (keyed_members members now) =
      map fst (filter (\<lambda>(_, m). is_claude_subscription m) (enumerated members))"
    by (auto simp: keyed_members_def)
  moreover have "distinct (map fst (enumerated members))" by (simp add: enumerated_def)
  ultimately have "distinct (map (fst \<circ> snd) (keyed_members members now))"
    by (simp add: distinct_map_filter)
  then show ?thesis unfolding distinct_map by blast
qed

lemma rank_of_nth:
  assumes "distinct (map am_id members)" "k < length (keyed_members members now)"
    and "sort (keyed_members members now) ! k = (r, i, ident)"
  shows "omap_get (rank_by_five_hour_reset members now) ident = Some k"
proof -
  let ?S = "sort (keyed_members members now)"
  let ?es = "map (\<lambda>(rank, _, _, ident). (ident, rank)) (enumerated ?S)"
  have "map fst ?es = map (snd \<circ> snd) ?S"
    by (rule nth_equalityI) (simp_all add: enumerated_def split_beta)
  moreover have "distinct (map (snd \<circ> snd) ?S)"
  proof -
    have "inj_on (snd \<circ> snd) (set ?S)"
    proof (rule inj_onI)
      fix x y assume xy: "x \<in> set ?S" "y \<in> set ?S" "(snd \<circ> snd) x = (snd \<circ> snd) y"
      obtain r i a r' i' a' where e: "x = (r, i, a)" "y = (r', i', a')" by (metis prod_cases3)
      with xy have "claude_slot members i" "claude_slot members i'" "am_id (members ! i) = am_id (members ! i')"
        "r = reset_or_never now (members ! i)" "r' = reset_or_never now (members ! i')" "a = a'"
        by (auto simp: keyed_members_mem)
      moreover from this have "i = i'"
        using assms(1) nth_eq_iff_index_eq[OF assms(1), of i i'] by (simp add: claude_slot_def)
      ultimately show "x = y" using e by simp
    qed
    then show ?thesis by (simp add: distinct_map distinct_keyed_members)
  qed
  ultimately have "distinct (map fst ?es)" by simp
  moreover have "(k, r, i, ident) \<in> set (enumerated ?S)" using assms(2,3) by (simp add: enumerated_mem)
  then have "(ident, k) \<in> set ?es" by (auto simp: image_iff intro!: bexI[of _ "(k, r, i, ident)"])
  ultimately show ?thesis
    unfolding rank_by_five_hour_reset_def by (simp only: omap_get_collect map_of_is_SomeI)
qed

lemma rank_order:
  assumes "distinct (map am_id members)" "claude_slot members i" "claude_slot members j"
  shows "\<exists>a b. omap_get (rank_by_five_hour_reset members now) (am_id (members ! i)) = Some a \<and>
               omap_get (rank_by_five_hour_reset members now) (am_id (members ! j)) = Some b \<and>
               (a \<le> b \<longrightarrow> (reset_or_never now (members ! i), i) \<le> (reset_or_never now (members ! j), j))"
proof -
  let ?S = "sort (keyed_members members now)"
  let ?k = "\<lambda>i. (reset_or_never now (members ! i), i, am_id (members ! i))"
  have "?k i \<in> set ?S" "?k j \<in> set ?S" using assms(2,3) by (simp_all add: keyed_members_mem)
  then obtain a b where ab: "a < length ?S" "?S ! a = ?k i" "b < length ?S" "?S ! b = ?k j"
    by (meson in_set_conv_nth)
  have "?k i \<le> ?k j" if "a \<le> b"
    using sorted_nth_mono[of ?S a b] ab that by simp
  then have "(reset_or_never now (members ! i), i) \<le> (reset_or_never now (members ! j), j)" if "a \<le> b"
    using that by (auto simp: less_eq_prod_def)
  moreover have "omap_get (rank_by_five_hour_reset members now) (am_id (members ! i)) = Some a"
    "omap_get (rank_by_five_hour_reset members now) (am_id (members ! j)) = Some b"
    using rank_of_nth[OF assms(1), of a now] rank_of_nth[OF assms(1), of b now] ab by simp_all
  ultimately show ?thesis by blast
qed

section \<open>The order for new sessions\<close>

definition new_session_key :: "account_member list \<Rightarrow> int \<Rightarrow> nat \<Rightarrow> bool \<times> int \<times> nat" where
  "new_session_key members now i =
     (is_nearly_spent (members ! i) now, reset_or_never now (members ! i), i)"

lemma sorted_map_rel:
  assumes "sorted (map f xs)" "\<And>x y. x \<in> set xs \<Longrightarrow> y \<in> set xs \<Longrightarrow> f x \<le> f y \<Longrightarrow> g x \<le> g y"
  shows "sorted (map g xs)"
  using assms sorted_wrt_mono_rel[of xs "\<lambda>x y. f x \<le> f y" "\<lambda>x y. g x \<le> g y"]
  unfolding sorted_map by blast

text \<open>
  Reordering moves only the slots of Claude subscription accounts, loses and duplicates
  nothing, and with freshly computed ranks offers those accounts in order: nearly spent ones
  last, then by the reset of the active five-hour window (accounts without one after those with
  one), then in pool order.
\<close>

theorem new_session_order:
  assumes "distinct (map am_id members)"
    and "r = reorder_claude_slots ordered members (fst (claude_ranks members now None)) now"
  shows "mset r = mset ordered \<and>
    (\<forall>i < length ordered. \<not> claude_slot members (ordered ! i) \<longrightarrow> r ! i = ordered ! i) \<and>
    sorted (map (new_session_key members now) (filter (claude_slot members) r))"
proof -
  let ?ranks = "rank_by_five_hour_reset members now"
  have r: "r = reorder_claude_slots ordered members ?ranks now"
    using assms(2) by (simp add: claude_ranks_def Let_def)
  have "sorted (map (slot_key members ?ranks now) (filter (claude_slot members) r))"
    unfolding r reorder_parts(1) by simp
  moreover have "new_session_key members now i \<le> new_session_key members now j"
    if "claude_slot members i" "claude_slot members j"
      "slot_key members ?ranks now i \<le> slot_key members ?ranks now j" for i j
    using rank_order[OF assms(1) that(1,2), of now] that(3)
    by (auto simp: slot_key_def new_session_key_def Let_def less_eq_prod_def split: option.splits)
  ultimately have "sorted (map (new_session_key members now) (filter (claude_slot members) r))"
    by (rule sorted_map_rel) simp_all
  then show ?thesis using mset_reorder reorder_parts(4) r by metis
qed

definition member_of_kind :: "provider_kind \<Rightarrow> string \<Rightarrow> int \<Rightarrow> account_member" where
  "member_of_kind kind ident reset =
     \<lparr>am_id = ident, am_kind = kind, relay_api_key = None, am_health = Available,
      am_primary = quota_window_default\<lparr>qw_reset_at_unix := Some reset\<rparr>,
      am_secondary = quota_window_default\<rparr>"

theorem new_session_order_witness:
  "let members = [member_of_kind Claude ''a'' 9000, member_of_kind Codex ''b'' 8000,
                  member_of_kind Claude ''c'' 5000];
       r = reorder_claude_slots [0, 1, 2] members (fst (claude_ranks members 1000 None)) 1000
   in mset r = mset [0, 1, 2] \<and> r ! 1 = 1 \<and>
      sorted (map (new_session_key members 1000) (filter (claude_slot members) r))"
proof -
  let ?ms = "[member_of_kind Claude ''a'' 9000, member_of_kind Codex ''b'' 8000,
                  member_of_kind Claude ''c'' 5000]"
  have "distinct (map am_id ?ms)" by (simp add: member_of_kind_def)
  from new_session_order[OF this refl, of "[0, 1, 2]" 1000]
  show ?thesis
    by (auto simp: Let_def claude_slot_def is_claude_subscription_def member_of_kind_def dest!: spec[of _ 1])
qed

section \<open>The cache\<close>

lemma ranks_valid_until_bound:
  assumes "m \<in> set members" "is_claude_subscription m" "active_five_hour_reset m now = Some r"
  shows "ranks_valid_until members now \<le> r"
proof -
  let ?resets = "List.map_filter (\<lambda>m. active_five_hour_reset m now) (filter is_claude_subscription members)"
  have mem: "r \<in> set ?resets" using assms by (force simp: List.map_filter_def)
  then obtain x where x: "min_by_key (\<lambda>r. r) ?resets = Some x"
    by (cases "min_by_key (\<lambda>r. r) ?resets") auto
  have "x \<le> r" using min_by_key_Some[OF x] mem by simp
  with x show ?thesis by (simp add: ranks_valid_until_def Let_def min.coboundedI1)
qed

lemma ranks_valid_until_interval: "ranks_valid_until members now \<le> i64_saturating_add now REFRESH_INTERVAL_SECS"
  by (simp add: ranks_valid_until_def Let_def split: option.split)

text \<open>
  Cached ranks were computed from the pool of some call, and are handed out only while no window
  they rank has reset and the refresh interval has not passed.
\<close>

definition cache_ok :: "cached_ranks \<Rightarrow> bool" where
  "cache_ok c = (case c of None \<Rightarrow> True
     | Some (valid_until, ranks) \<Rightarrow>
         (\<exists>members t. ranks = rank_by_five_hour_reset members t \<and> valid_until = ranks_valid_until members t))"

lemma cache_ok_ranks: "cache_ok c \<Longrightarrow> cache_ok (snd (claude_ranks members now c))"
  by (auto simp: cache_ok_def claude_ranks_def Let_def split: option.splits)

interpretation rank_cache: invariant_machine None
  "\<lambda>c (members, now). snd (claude_ranks members now c)" cache_ok
  by unfold_locales (auto simp: cache_ok_ranks cache_ok_def[of None])

lemma served_ranks_fresh:
  assumes "c = foldl (\<lambda>c (members, now). snd (claude_ranks members now c)) None calls"
  shows "\<exists>ms t. fst (claude_ranks members now c) = rank_by_five_hour_reset ms t \<and>
    (ms = members \<and> t = now \<or>
     now < i64_saturating_add t REFRESH_INTERVAL_SECS \<and>
     (\<forall>m \<in> set ms. is_claude_subscription m \<longrightarrow>
        (\<forall>reset. active_five_hour_reset m t = Some reset \<longrightarrow> now < reset)))"
proof -
  have ok: "cache_ok c" unfolding assms by (rule rank_cache.inv_reachable)
  show ?thesis
  proof (cases "\<exists>valid_until ranks. c = Some (valid_until, ranks) \<and> now < valid_until")
    case True
    then obtain valid_until ranks where c: "c = Some (valid_until, ranks)" "now < valid_until" by blast
    then obtain ms t where ms: "ranks = rank_by_five_hour_reset ms t" "valid_until = ranks_valid_until ms t"
      using ok by (auto simp: cache_ok_def)
    have "now < reset" if "m \<in> set ms" "is_claude_subscription m" "active_five_hour_reset m t = Some reset"
      for m reset using ranks_valid_until_bound[OF that] c(2) ms(2) by simp
    moreover have "now < i64_saturating_add t REFRESH_INTERVAL_SECS"
      using ranks_valid_until_interval[of ms t] c(2) ms(2) by simp
    ultimately show ?thesis using c ms(1) by (auto simp: claude_ranks_def)
  next
    case False
    then have "fst (claude_ranks members now c) = rank_by_five_hour_reset members now"
      by (auto simp: claude_ranks_def Let_def split: option.split)
    then show ?thesis by blast
  qed
qed

end
