(* ===== verification/Store_Paths.thy ===== *)
theory Store_Paths
  imports Strings
begin

text \<open>
  Storage keys, \<^verbatim>\<open>crates/registry/src/store.rs\<close>: \<open>normalize_key\<close> over the components of a Unix path
  as \<open>Path::components\<close> yields them, joining a key to a root directory, and the URLs of the object
  store. Error values keep the constructor of \<open>StoreError\<close> and the fixed part of the message.
\<close>

section \<open>Splitting and joining\<close>

text \<open>\<open>str::split(d)\<close>\<close>

fun split_on :: "char \<Rightarrow> string \<Rightarrow> string list" where
  "split_on d [] = [[]]"
| "split_on d (c # cs) =
     (if c = d then [] # split_on d cs
      else case split_on d cs of [] \<Rightarrow> [[c]] | p # ps \<Rightarrow> (c # p) # ps)"

text \<open>\<open>join(sep)\<close>\<close>

fun join_with :: "string \<Rightarrow> string list \<Rightarrow> string" where
  "join_with sep [] = []"
| "join_with sep [x] = x"
| "join_with sep (x # y # xs) = x @ sep @ join_with sep (y # xs)"

abbreviation slash :: char where "slash \<equiv> CHR ''/''"

lemma split_on_nonempty [simp]: "split_on d s \<noteq> []"
  by (cases s) (auto split: list.split)

lemma split_on_no_sep: "d \<notin> set p \<Longrightarrow> split_on d p = [p]"
  by (induction p) auto

lemma split_on_append_sep: "d \<notin> set p \<Longrightarrow> split_on d (p @ d # s) = p # split_on d s"
  by (induction p) auto

lemma split_on_pieces: "p \<in> set (split_on d s) \<Longrightarrow> d \<notin> set p"
  by (induction s arbitrary: p) (auto split: list.splits if_splits)

lemma split_join:
  "ps \<noteq> [] \<Longrightarrow> list_all (\<lambda>p. d \<notin> set p) ps \<Longrightarrow> split_on d (join_with [d] ps) = ps"
proof (induction ps rule: induct_list012)
  case (3 x y zs)
  then show ?case by (simp add: split_on_append_sep)
qed (auto simp: split_on_no_sep)

lemma join_split: "join_with [d] (split_on d s) = s"
proof (induction s)
  case (Cons c cs)
  obtain p ps where "split_on d cs = p # ps" by (cases "split_on d cs") auto
  with Cons show ?case by (cases ps) auto
qed simp

lemma join_with_inject:
  assumes "join_with [d] ps = join_with [d] qs" "ps \<noteq> []" "qs \<noteq> []"
    and "list_all (\<lambda>p. d \<notin> set p) ps" "list_all (\<lambda>p. d \<notin> set p) qs"
  shows "ps = qs"
  using assms split_join by metis

section \<open>Path components\<close>

datatype path_component = RootDir | CurDir | ParentDir | NormalPart string

definition component_of :: "string \<Rightarrow> path_component" where
  "component_of p = (if p = ''..'' then ParentDir else NormalPart p)"

definition path_components :: "string \<Rightarrow> path_component list" where
  "path_components s =
     (let pieces = split_on slash s
      in (if starts_with [slash] s then [RootDir] else if hd pieces = ''.'' then [CurDir] else []) @
         map component_of (filter (\<lambda>p. p \<noteq> [] \<and> p \<noteq> ''.'') pieces))"

definition is_normal :: "path_component \<Rightarrow> bool" where
  "is_normal c = (case c of NormalPart _ \<Rightarrow> True | _ \<Rightarrow> False)"

definition part_text :: "path_component \<Rightarrow> string" where
  "part_text c =
     (case c of NormalPart p \<Rightarrow> p | RootDir \<Rightarrow> ''/'' | CurDir \<Rightarrow> ''.'' | ParentDir \<Rightarrow> ''..'')"

text \<open>\<open>Path::join\<close>\<close>

definition path_join :: "string \<Rightarrow> string \<Rightarrow> string" where
  "path_join root key =
     (if starts_with [slash] key then key
      else if root = [] \<or> last root = slash then root @ key
      else root @ [slash] @ key)"

section \<open>Keys\<close>

datatype store_error =
    InvalidConfig string
  | Unavailable string
  | Conflict string
  | StoreIo string
  | Serialization string
  | Database string
  | Network string

definition normalize_key :: "string \<Rightarrow> store_error + string" where
  "normalize_key value =
     (if trim value = [] \<or> list_ex (\<lambda>c. \<not> is_normal c) (path_components value)
      then Inl (InvalidConfig ''unsafe storage key'')
      else Inr (join_with [slash] (map part_text (path_components value))))"

definition normalize_prefix :: "string \<Rightarrow> store_error + string" where
  "normalize_prefix pre = (if pre = [] then Inr [] else normalize_key pre)"

section \<open>Keys cannot leave their directory\<close>

definition plain_part :: "string \<Rightarrow> bool" where
  "plain_part p \<longleftrightarrow> p \<noteq> [] \<and> p \<noteq> ''.'' \<and> p \<noteq> ''..'' \<and> slash \<notin> set p"

lemma path_components_pieces:
  assumes "list_all is_normal (path_components s)"
  obtains ps where "path_components s = map NormalPart ps" "list_all plain_part ps"
    "ps = filter (\<lambda>p. p \<noteq> [] \<and> p \<noteq> ''.'') (split_on slash s)"
proof -
  let ?ps = "filter (\<lambda>p. p \<noteq> [] \<and> p \<noteq> ''.'') (split_on slash s)"
  have eq: "path_components s = map component_of ?ps"
    using assms by (auto simp: path_components_def Let_def is_normal_def split: if_splits)
  have "p \<noteq> ''..''" if "p \<in> set ?ps" for p
    using assms that unfolding eq list_all_iff by (fastforce simp: is_normal_def component_of_def)
  then have "map component_of ?ps = map NormalPart ?ps" "list_all plain_part ?ps"
    by (auto simp: component_of_def list_all_iff plain_part_def dest: split_on_pieces)
  with eq that show thesis by simp
qed

lemma path_components_plain:
  assumes "ps \<noteq> []" "list_all plain_part ps"
  shows "path_components (join_with [slash] ps) = map NormalPart ps"
proof -
  have split: "split_on slash (join_with [slash] ps) = ps"
    using assms by (intro split_join) (auto simp: list_all_iff plain_part_def)
  obtain p ps' where ps: "ps = p # ps'" using assms(1) by (cases ps) auto
  have "p \<noteq> []" "slash \<notin> set p" using assms(2) ps by (auto simp: plain_part_def)
  then obtain c cs where p: "p = c # cs" "c \<noteq> slash" by (cases p) auto
  then have "\<not> starts_with [slash] (join_with [slash] ps)" using ps by (cases ps') (auto simp: starts_with_def)
  moreover have "filter (\<lambda>p. p \<noteq> [] \<and> p \<noteq> ''.'') ps = ps" "map component_of ps = map NormalPart ps"
    using assms(2) by (auto simp: list_all_iff plain_part_def component_of_def filter_id_conv)
  moreover have "hd ps \<noteq> ''.''" using assms(2) ps by (simp add: plain_part_def)
  ultimately show ?thesis by (simp add: path_components_def Let_def split)
qed


lemma normalize_key_Inr:
  assumes "normalize_key k = Inr k'"
  obtains ps where "ps \<noteq> []" "list_all plain_part ps" "k' = join_with [slash] ps"
    "ps = filter (\<lambda>p. p \<noteq> [] \<and> p \<noteq> ''.'') (split_on slash k)"
proof -
  have n: "list_all is_normal (path_components k)"
    and k': "k' = join_with [slash] (map part_text (path_components k))" and ne: "trim k \<noteq> []"
    using assms by (auto simp: normalize_key_def list_ex_iff list_all_iff split: if_splits)
  obtain ps where ps: "path_components k = map NormalPart ps" "list_all plain_part ps"
      "ps = filter (\<lambda>p. p \<noteq> [] \<and> p \<noteq> ''.'') (split_on slash k)"
    using path_components_pieces[OF n] by blast
  have "ps \<noteq> []"
  proof
    assume "ps = []"
    then have pc: "path_components k = []" using ps by simp
    then have "\<not> starts_with [slash] k" "hd (split_on slash k) \<noteq> ''.''"
      by (auto simp: path_components_def Let_def split: if_splits)
    moreover from \<open>ps = []\<close> ps(3) have "\<forall>p \<in> set (split_on slash k). p = [] \<or> p = ''.''"
      by (auto simp: filter_empty_conv)
    then have "hd (split_on slash k) = [] \<or> hd (split_on slash k) = ''.''"
      by (simp add: list.set_sel(1))
    ultimately have "k = []" by (cases k) (auto simp: starts_with_def split: if_splits list.splits)
    then show False using ne by (simp add: trim_def trim_start.simps trim_end.simps strip_ws_def strip_ws_end_def
          find_None_iff ws_encodings_def)
  qed
  moreover have "k' = join_with [slash] ps" using k' ps(1) by (simp add: part_text_def comp_def)
  ultimately show thesis using ps that by blast
qed

text \<open>
  A normalized key is a canonical relative path: normalizing it again changes nothing, unless it
  consists of blanks, which a second normalization refuses.
\<close>

lemma normalize_key_again:
  assumes "normalize_key k = Inr k'"
  shows "normalize_key k' = (if trim k' = [] then Inl (InvalidConfig ''unsafe storage key'') else Inr k')"
proof -
  obtain ps where ps: "ps \<noteq> []" "list_all plain_part ps" "k' = join_with [slash] ps"
    using normalize_key_Inr[OF assms] by blast
  have "path_components k' = map NormalPart ps" unfolding ps(3) by (rule path_components_plain[OF ps(1,2)])
  then show ?thesis using ps(3) by (auto simp: normalize_key_def list_ex_iff is_normal_def part_text_def comp_def)
qed

lemma normalize_key_blank: "normalize_key '' /'' = Inr '' ''" "normalize_key '' '' = Inl (InvalidConfig ''unsafe storage key'')"
  by code_simp+

lemma split_on_append: "split_on d (a @ d # b) = split_on d a @ split_on d b"
  by (induction a) (auto split: list.splits)

lemma starts_with_append: "a \<noteq> [] \<Longrightarrow> starts_with [c] (a @ b) = starts_with [c] a"
  by (cases a) (auto simp: starts_with_def)

lemma path_components_append:
  assumes "list_all plain_part ps" "split_on slash key = ps"
  shows "path_components (root @ [slash] @ key) = path_components (root @ [slash]) @ map NormalPart ps"
proof -
  have key: "filter (\<lambda>p. p \<noteq> [] \<and> p \<noteq> ''.'') (split_on slash key) = ps"
    "map component_of ps = map NormalPart ps"
    using assms by (auto simp: list_all_iff plain_part_def component_of_def filter_id_conv)
  have "starts_with [slash] (root @ slash # key) = starts_with [slash] (root @ [slash])"
    by (cases root) (auto simp: starts_with_def)
  then show ?thesis by (simp add: path_components_def Let_def split_on_append key)
qed

lemma path_components_trailing:
  assumes "root \<noteq> []"
  shows "path_components (root @ [slash]) = path_components root"
proof -
  have "starts_with [slash] (root @ [slash]) = starts_with [slash] root" using assms by (simp add: starts_with_append)
  then show ?thesis by (simp add: path_components_def Let_def split_on_append)
qed

lemma path_join_plain:
  assumes "ps \<noteq> []" "list_all plain_part ps"
  shows "path_components (path_join root (join_with [slash] ps)) = path_components root @ map NormalPart ps"
proof -
  let ?key = "join_with [slash] ps"
  have split: "split_on slash ?key = ps"
    using assms by (intro split_join) (auto simp: list_all_iff plain_part_def)
  have plain: "path_components ?key = map NormalPart ps" by (rule path_components_plain[OF assms])
  then have rel: "\<not> starts_with [slash] ?key" by (auto simp: path_components_def Let_def split: if_splits)
  consider "root = []" | r where "root = r @ [slash]" "root \<noteq> []" | "root \<noteq> []" "last root \<noteq> slash"
    by (metis append_butlast_last_id)
  then show ?thesis
  proof cases
    case 1
    then show ?thesis using rel plain by (simp add: path_join_def path_components_def starts_with_def)
  next
    case 2
    then show ?thesis using rel path_components_append[OF assms(2) split, of r] by (simp add: path_join_def)
  next
    case 3
    then show ?thesis
      using rel path_components_append[OF assms(2) split, of root] path_components_trailing[of root]
      by (simp add: path_join_def)
  qed
qed

text \<open>
  C38. A storage key cannot leave its directory: for every key that is accepted, whatever the
  caller passed, the path of its file is the root directory followed by ordinary names, none of
  them empty, a dot or a double dot; and different normalized keys have different paths.
\<close>

theorem accepted_key_confined:
  assumes "normalize_key k = Inr k'"
  shows "\<exists>ps. ps \<noteq> [] \<and> list_all plain_part ps \<and>
    path_components (path_join root k') = path_components root @ map NormalPart ps \<and>
    (\<forall>h h'. normalize_key h = Inr h' \<and> path_components (path_join root h') = path_components (path_join root k') \<longrightarrow>
       h' = k')"
proof -
  obtain ps where ps: "ps \<noteq> []" "list_all plain_part ps" "k' = join_with [slash] ps"
    using normalize_key_Inr[OF assms] by blast
  have "h' = k'" if h: "normalize_key h = Inr h'" and
    same: "path_components (path_join root h') = path_components (path_join root k')" for h h'
  proof -
    obtain qs where qs: "qs \<noteq> []" "list_all plain_part qs" "h' = join_with [slash] qs"
      using normalize_key_Inr[OF h] by blast
    have "map NormalPart qs = map NormalPart ps"
      using same path_join_plain[OF ps(1,2), of root] path_join_plain[OF qs(1,2), of root]
      unfolding ps(3) qs(3) by simp
    then have "qs = ps" by (simp add: inj_map_eq_map inj_def)
    with ps qs show ?thesis by simp
  qed
  then show ?thesis using ps path_join_plain[OF ps(1,2), of root] by blast
qed

theorem accepted_key_confined_witness:
  "\<exists>ps. ps \<noteq> [] \<and> list_all plain_part ps \<and>
     path_components (path_join ''/var/spool'' ''auths/a.json'') =
     [RootDir, NormalPart ''var'', NormalPart ''spool''] @ map NormalPart ps"
proof -
  have "normalize_key ''auths//./a.json/'' = Inr ''auths/a.json''" by code_simp
  moreover have "path_components ''/var/spool'' = [RootDir, NormalPart ''var'', NormalPart ''spool'']" by code_simp
  ultimately show ?thesis using accepted_key_confined[of "''auths//./a.json/''" _ "''/var/spool''"] by metis
qed

end
