(* ===== verification/Store_Backends.thy ===== *)
theory Store_Backends
  imports Store_Paths
begin

text \<open>
  The storage interface of \<^verbatim>\<open>crates/registry/src/store.rs\<close> and its two self-contained providers,
  \<open>MemoryStore\<close> and \<open>LocalStore\<close>.

  A directory tree is a \<open>disk\<close>: its files by their path below the root, its directories, the
  process id (temporary files carry it in their extension), and the faults that the coming
  writes meet, one per write; an exhausted list means no more faults. Reading and removing fail
  for structural reasons only: a directory where a file is expected, or a file where a
  directory is.
\<close>

section \<open>Directory trees\<close>

datatype write_fault = NoFault | OpenFails | WriteFails string | RenameFails

record disk =
  dk_files :: "(string, string) omap"
  dk_dirs :: "string oset"
  dk_pid :: nat
  dk_faults :: "write_fault list"

definition disk_new :: "nat \<Rightarrow> write_fault list \<Rightarrow> disk" where
  "disk_new pid faults = \<lparr>dk_files = [], dk_dirs = [], dk_pid = pid, dk_faults = faults\<rparr>"

definition ancestors :: "string \<Rightarrow> string list" where
  "ancestors key =
     (let ps = split_on slash key in map (\<lambda>n. join_with [slash] (take n ps)) [1..<length ps])"

definition under_file :: "disk \<Rightarrow> string \<Rightarrow> bool" where
  "under_file d key = list_ex (omap_contains (dk_files d)) (ancestors key)"

definition io_error :: "store_error" where
  "io_error = StoreIo ''storage I/O''"

text \<open>\<open>fs::read\<close> with \<open>NotFound\<close> as \<open>None\<close>, and \<open>fs::remove_file\<close> with \<open>NotFound\<close> as success\<close>

definition read_file :: "string \<Rightarrow> disk \<Rightarrow> store_error + string option" where
  "read_file key d =
     (case omap_get (dk_files d) key of
        Some data \<Rightarrow> Inr (Some data)
      | None \<Rightarrow> if key \<in> set (dk_dirs d) \<or> under_file d key then Inl io_error else Inr None)"

definition remove_file :: "string \<Rightarrow> disk \<Rightarrow> (store_error + unit) \<times> disk" where
  "remove_file key d =
     (if omap_contains (dk_files d) key then (Inr (), d\<lparr>dk_files := omap_remove key (dk_files d)\<rparr>)
      else if key \<in> set (dk_dirs d) \<or> under_file d key then (Inl io_error, d)
      else (Inr (), d))"

text \<open>\<open>fs::create_dir_all\<close> of the parent of a key\<close>

definition create_parents :: "string \<Rightarrow> disk \<Rightarrow> (store_error + unit) \<times> disk" where
  "create_parents key d =
     (if under_file d key then (Inl io_error, d)
      else (Inr (), d\<lparr>dk_dirs := oset_extend (dk_dirs d) (ancestors key)\<rparr>))"

text \<open>\<open>Path::with_extension\<close>: the text from the last dot on, unless it starts the name, is replaced.\<close>

definition file_stem :: "string \<Rightarrow> string" where
  "file_stem name =
     (let after = takeWhile (\<lambda>c. c \<noteq> CHR ''.'') (rev name);
          stem = take (length name - length after - 1) name
      in if CHR ''.'' \<in> set name \<and> stem \<noteq> [] then stem else name)"

definition with_extension :: "string \<Rightarrow> string \<Rightarrow> string" where
  "with_extension key ext =
     (let ps = split_on slash key
      in join_with [slash] (butlast ps @ [file_stem (last ps) @ ''.'' @ ext]))"

definition temp_extension :: "nat \<Rightarrow> string" where
  "temp_extension pid = ''tmp-'' @ dec_of_nat pid"

definition temp_path :: "nat \<Rightarrow> string \<Rightarrow> string" where
  "temp_path pid key = with_extension key (temp_extension pid)"

definition next_fault :: "disk \<Rightarrow> write_fault" where
  "next_fault d = (case dk_faults d of [] \<Rightarrow> NoFault | f # _ \<Rightarrow> f)"

text \<open>Writing a temporary file and renaming it; a failure may leave the temporary file.\<close>

definition atomic_write :: "string \<Rightarrow> string \<Rightarrow> disk \<Rightarrow> (store_error + unit) \<times> disk" where
  "atomic_write key value d0 =
     (let temp = temp_path (dk_pid d0) key;
          fault = next_fault d0;
          d = d0\<lparr>dk_faults := tl (dk_faults d0)\<rparr>;
          leave = (\<lambda>content. d\<lparr>dk_files := omap_insert temp content (dk_files d)\<rparr>)
      in if fault = OpenFails \<or> temp \<in> set (dk_dirs d) then (Inl io_error, d)
         else case fault of
                WriteFails part \<Rightarrow> (Inl io_error, leave part)
              | _ \<Rightarrow>
                if fault = RenameFails \<or> key \<in> set (dk_dirs d) then (Inl io_error, leave value)
                else (Inr (), d\<lparr>dk_files := omap_insert key value (omap_remove temp (dk_files d))\<rparr>))"

section \<open>The interface\<close>

record 'b storage_backend =
  op_equivalent :: "string \<Rightarrow> string \<Rightarrow> string \<Rightarrow> bool"
  op_get :: "string \<Rightarrow> 'b \<Rightarrow> (store_error + string option) \<times> 'b"
  op_put :: "string \<Rightarrow> string \<Rightarrow> 'b \<Rightarrow> (store_error + unit) \<times> 'b"
  op_delete :: "string \<Rightarrow> 'b \<Rightarrow> (store_error + unit) \<times> 'b"
  op_list :: "string \<Rightarrow> 'b \<Rightarrow> (store_error + string list) \<times> 'b"

definition same_bytes :: "string \<Rightarrow> string \<Rightarrow> string \<Rightarrow> bool" where
  "same_bytes key left right \<longleftrightarrow> left = right"

section \<open>The local store\<close>

definition local_get :: "string \<Rightarrow> disk \<Rightarrow> (store_error + string option) \<times> disk" where
  "local_get key d = (rbind (normalize_key key) (\<lambda>k. read_file k d), d)"

definition local_put :: "string \<Rightarrow> string \<Rightarrow> disk \<Rightarrow> (store_error + unit) \<times> disk" where
  "local_put key value d =
     (case normalize_key key of
        Inl e \<Rightarrow> (Inl e, d)
      | Inr k \<Rightarrow>
          (case create_parents k d of
             (Inl e, d') \<Rightarrow> (Inl e, d')
           | (Inr _, d') \<Rightarrow> atomic_write k value d'))"

definition local_delete :: "string \<Rightarrow> disk \<Rightarrow> (store_error + unit) \<times> disk" where
  "local_delete key d =
     (case normalize_key key of Inl e \<Rightarrow> (Inl e, d) | Inr k \<Rightarrow> remove_file k d)"

definition walk_keys :: "disk \<Rightarrow> string list" where
  "walk_keys d = map (replace_char (CHR 0x5C) slash) (omap_keys (dk_files d))"

definition local_list :: "string \<Rightarrow> disk \<Rightarrow> (store_error + string list) \<times> disk" where
  "local_list pre d =
     (rbind (normalize_prefix pre) (\<lambda>p. Inr (sort (filter (starts_with p) (walk_keys d)))), d)"

definition local_store :: "disk storage_backend" where
  "local_store =
     \<lparr>op_equivalent = same_bytes, op_get = local_get, op_put = local_put, op_delete = local_delete,
      op_list = local_list\<rparr>"

section \<open>The memory store\<close>

type_synonym memory = "(string, string) omap"

definition memory_get :: "string \<Rightarrow> memory \<Rightarrow> (store_error + string option) \<times> memory" where
  "memory_get key records = (Inr (omap_get records key), records)"

definition memory_put :: "string \<Rightarrow> string \<Rightarrow> memory \<Rightarrow> (store_error + unit) \<times> memory" where
  "memory_put key value records =
     (case normalize_key key of
        Inl e \<Rightarrow> (Inl e, records)
      | Inr k \<Rightarrow> (Inr (), omap_insert k value records))"

definition memory_delete :: "string \<Rightarrow> memory \<Rightarrow> (store_error + unit) \<times> memory" where
  "memory_delete key records =
     (case normalize_key key of Inl e \<Rightarrow> (Inl e, records) | Inr k \<Rightarrow> (Inr (), omap_remove k records))"

definition memory_list :: "string \<Rightarrow> memory \<Rightarrow> (store_error + string list) \<times> memory" where
  "memory_list pre records =
     (rbind (normalize_prefix pre) (\<lambda>p. Inr (filter (starts_with p) (omap_keys records))), records)"

definition memory_store :: "memory storage_backend" where
  "memory_store =
     \<lparr>op_equivalent = same_bytes, op_get = memory_get, op_put = memory_put, op_delete = memory_delete,
      op_list = memory_list\<rparr>"

section \<open>The contract\<close>

text \<open>
  What a provider promises: it holds a finite map of the admissible keys, an operation that
  succeeds acts on it as on a map, an operation that fails leaves it alone, and what it stores
  is equivalent to what it was given.
\<close>

locale key_value_store =
  fixes ops :: "'b storage_backend" and inv :: "'b \<Rightarrow> bool" and content :: "'b \<Rightarrow> string \<rightharpoonup> string"
    and admissible :: "string \<Rightarrow> bool"
  assumes admissible_normal: "admissible k \<Longrightarrow> normalize_key k = Inr k"
    and content_admissible: "content b k \<noteq> None \<Longrightarrow> admissible k"
    and equivalent_stored: "inv b \<Longrightarrow> content b k = Some v \<Longrightarrow> op_equivalent ops k v v"
    and get_keeps: "inv b \<Longrightarrow> op_get ops k b = (r, b') \<Longrightarrow> inv b' \<and> content b' = content b"
    and get_law: "inv b \<Longrightarrow> admissible k \<Longrightarrow> op_get ops k b = (Inr x, b') \<Longrightarrow> x = content b k"
    and put_law: "inv b \<Longrightarrow> admissible k \<Longrightarrow> op_put ops k v b = (Inr u, b') \<Longrightarrow>
        inv b' \<and> (\<exists>w. content b' = (content b)(k \<mapsto> w) \<and> op_equivalent ops k w v)"
    and put_fails: "inv b \<Longrightarrow> admissible k \<Longrightarrow> op_put ops k v b = (Inl e, b') \<Longrightarrow>
        inv b' \<and> content b' = content b"
    and delete_law: "inv b \<Longrightarrow> admissible k \<Longrightarrow> op_delete ops k b = (Inr u, b') \<Longrightarrow>
        inv b' \<and> content b' = (content b)(k := None)"
    and delete_fails: "inv b \<Longrightarrow> admissible k \<Longrightarrow> op_delete ops k b = (Inl e, b') \<Longrightarrow>
        inv b' \<and> content b' = content b"
    and list_law: "inv b \<Longrightarrow> normalize_prefix p = Inr p \<Longrightarrow> op_list ops p b = (ks, b') \<Longrightarrow>
        inv b' \<and> content b' = content b \<and>
        (\<forall>l. ks = Inr l \<longrightarrow> (\<forall>k. content b k \<noteq> None \<and> starts_with p k \<longrightarrow> k \<in> set l))"

section \<open>The memory store keeps the contract\<close>

definition memory_inv :: "memory \<Rightarrow> bool" where
  "memory_inv m \<longleftrightarrow> omap_ok m"

definition canonical_key :: "string \<Rightarrow> bool" where
  "canonical_key k \<longleftrightarrow> normalize_key k = Inr k"

definition memory_content :: "memory \<Rightarrow> string \<rightharpoonup> string" where
  "memory_content m k = (if canonical_key k then omap_get m k else None)"

interpretation memory_kv: key_value_store memory_store memory_inv memory_content canonical_key
proof
  fix b b' :: memory and k v :: string and r x and u :: unit and e
  show "memory_inv b \<Longrightarrow> op_get memory_store k b = (r, b') \<Longrightarrow>
      memory_inv b' \<and> memory_content b' = memory_content b"
    by (auto simp: memory_store_def memory_get_def)
  show "memory_inv b \<Longrightarrow> canonical_key k \<Longrightarrow> op_get memory_store k b = (Inr x, b') \<Longrightarrow> x = memory_content b k"
    by (auto simp: memory_store_def memory_get_def memory_content_def)
  show "memory_inv b \<Longrightarrow> canonical_key k \<Longrightarrow> op_put memory_store k v b = (Inr u, b') \<Longrightarrow>
      memory_inv b' \<and> (\<exists>w. memory_content b' = (memory_content b)(k \<mapsto> w) \<and> op_equivalent memory_store k w v)"
    by (auto simp: memory_store_def memory_put_def memory_content_def memory_inv_def canonical_key_def
        same_bytes_def fun_eq_iff)
  show "memory_inv b \<Longrightarrow> canonical_key k \<Longrightarrow> op_put memory_store k v b = (Inl e, b') \<Longrightarrow>
      memory_inv b' \<and> memory_content b' = memory_content b"
    by (auto simp: memory_store_def memory_put_def canonical_key_def)
  show "memory_inv b \<Longrightarrow> canonical_key k \<Longrightarrow> op_delete memory_store k b = (Inr u, b') \<Longrightarrow>
      memory_inv b' \<and> memory_content b' = (memory_content b)(k := None)"
    by (auto simp: memory_store_def memory_delete_def memory_content_def memory_inv_def canonical_key_def fun_eq_iff)
  show "memory_inv b \<Longrightarrow> canonical_key k \<Longrightarrow> op_delete memory_store k b = (Inl e, b') \<Longrightarrow>
      memory_inv b' \<and> memory_content b' = memory_content b"
    by (auto simp: memory_store_def memory_delete_def canonical_key_def)
next
  fix b b' :: memory and p ks
  have "k \<in> set (omap_keys b)" if "memory_content b k = Some x" for k x
    using that omap_get_key[of b k] by (simp add: memory_content_def split: if_splits)
  then show "memory_inv b \<Longrightarrow> normalize_prefix p = Inr p \<Longrightarrow> op_list memory_store p b = (ks, b') \<Longrightarrow>
      memory_inv b' \<and> memory_content b' = memory_content b \<and>
      (\<forall>l. ks = Inr l \<longrightarrow> (\<forall>k. memory_content b k \<noteq> None \<and> starts_with p k \<longrightarrow> k \<in> set l))"
    by (auto simp: memory_store_def memory_list_def simp del: set_map)
qed (auto simp: canonical_key_def memory_content_def memory_store_def same_bytes_def split: if_splits)

section \<open>The local store keeps the contract\<close>

definition local_admissible :: "nat \<Rightarrow> string \<Rightarrow> bool" where
  "local_admissible pid k \<longleftrightarrow>
     canonical_key k \<and> CHR 0x5C \<notin> set k \<and> \<not> suffix (''.'' @ temp_extension pid) k"

definition local_inv :: "nat \<Rightarrow> disk \<Rightarrow> bool" where
  "local_inv pid d \<longleftrightarrow> omap_ok (dk_files d) \<and> dk_pid d = pid"

definition local_content :: "nat \<Rightarrow> disk \<Rightarrow> string \<rightharpoonup> string" where
  "local_content pid d k = (if local_admissible pid k then omap_get (dk_files d) k else None)"

lemma suffix_join_last: "ps \<noteq> [] \<Longrightarrow> suffix (last ps) (join_with sep ps)"
proof (induction ps rule: induct_list012)
  case (3 x y zs)
  then have "suffix (last (y # zs)) (join_with sep (y # zs))" by simp
  then show ?case by (simp add: suffix_appendI)
qed simp_all

lemma temp_path_suffix: "suffix (''.'' @ temp_extension pid) (temp_path pid key)"
proof -
  let ?ps = "butlast (split_on slash key) @ [file_stem (last (split_on slash key)) @ ''.'' @ temp_extension pid]"
  have "suffix (last ?ps) (join_with [slash] ?ps)" by (rule suffix_join_last) simp
  then have "suffix (file_stem (last (split_on slash key)) @ ''.'' @ temp_extension pid) (temp_path pid key)"
    by (simp add: temp_path_def with_extension_def Let_def)
  then show ?thesis using suffix_appendD by blast
qed

lemma temp_path_inadmissible [simp]: "\<not> local_admissible pid (temp_path pid key)"
  using temp_path_suffix by (simp add: local_admissible_def)

text \<open>A write touches the key it is for and its temporary file, nothing else.\<close>

lemma atomic_write_effect:
  assumes "atomic_write key value d = (r, d')" "omap_ok (dk_files d)"
  shows "omap_ok (dk_files d')" "dk_pid d' = dk_pid d" "dk_dirs d' = dk_dirs d"
    "k \<noteq> temp_path (dk_pid d) key \<Longrightarrow> omap_get (dk_files d') k =
       (if r = Inr () \<and> k = key then Some value else omap_get (dk_files d) k)"
  using assms
  by (auto simp: atomic_write_def Let_def split: if_splits write_fault.splits)

lemma create_parents_effect:
  assumes "create_parents key d = (r, d')"
  shows "dk_files d' = dk_files d" "dk_pid d' = dk_pid d" "dk_faults d' = dk_faults d"
  using assms by (auto simp: create_parents_def split: if_splits)

lemma local_put_effect:
  assumes "local_put key value d = (r, d')" "local_inv pid d" "local_admissible pid key"
  shows "local_inv pid d' \<and> local_content pid d' =
     (if r = Inr () then (local_content pid d)(key \<mapsto> value) else local_content pid d)"
proof -
  have norm: "normalize_key key = Inr key" using assms(3) by (simp add: local_admissible_def canonical_key_def)
  obtain r1 d1 where c: "create_parents key d = (r1, d1)" by fastforce
  note c1 = create_parents_effect[OF c]
  show ?thesis
  proof (cases r1)
    case (Inl e)
    then show ?thesis using assms c c1 norm by (auto simp: local_put_def local_inv_def local_content_def)
  next
    case (Inr u)
    then have w: "atomic_write key value d1 = (r, d')" using assms(1) c norm by (simp add: local_put_def)
    have ok: "omap_ok (dk_files d1)" using assms(2) c1 by (simp add: local_inv_def)
    have pid: "dk_pid d1 = pid" using assms(2) c1 by (simp add: local_inv_def)
    have "local_content pid d' k =
        (if r = Inr () then (local_content pid d)(key \<mapsto> value) else local_content pid d) k" for k
    proof (cases "local_admissible pid k")
      case True
      then have "k \<noteq> temp_path (dk_pid d1) key" using pid by auto
      from atomic_write_effect(4)[OF w ok this] True c1(1) show ?thesis by (simp add: local_content_def)
    next
      case False
      then show ?thesis using assms(3) by (auto simp: local_content_def)
    qed
    then show ?thesis
      using atomic_write_effect(1,2)[OF w ok] pid by (auto simp: local_inv_def fun_eq_iff)
  qed
qed

lemma remove_file_effect:
  assumes "remove_file key d = (r, d')" "omap_ok (dk_files d)"
  shows "omap_ok (dk_files d')" "dk_pid d' = dk_pid d"
    "omap_get (dk_files d') k = (if r = Inr () \<and> k = key then None else omap_get (dk_files d) k)"
  using assms by (auto simp: remove_file_def omap_contains_def split: if_splits)

lemma replace_char_id: "a \<notin> set s \<Longrightarrow> replace_char a b s = s"
  unfolding replace_char_def by (rule map_idI) auto

interpretation local_kv: key_value_store local_store "local_inv pid" "local_content pid" "local_admissible pid"
  for pid :: nat
proof
  fix b b' :: disk and k v :: string and r x and u :: unit and e
  show "local_inv pid b \<Longrightarrow> op_get local_store k b = (r, b') \<Longrightarrow>
      local_inv pid b' \<and> local_content pid b' = local_content pid b"
    by (auto simp: local_store_def local_get_def)
  show "local_inv pid b \<Longrightarrow> local_admissible pid k \<Longrightarrow> op_get local_store k b = (Inr x, b') \<Longrightarrow>
      x = local_content pid b k"
    by (auto simp: local_store_def local_get_def local_content_def local_admissible_def canonical_key_def
        read_file_def split: option.splits if_splits)
  show "local_inv pid b \<Longrightarrow> local_admissible pid k \<Longrightarrow> op_put local_store k v b = (Inr u, b') \<Longrightarrow>
      local_inv pid b' \<and>
      (\<exists>w. local_content pid b' = (local_content pid b)(k \<mapsto> w) \<and> op_equivalent local_store k w v)"
    using local_put_effect[of k v b "Inr u" b' pid] by (auto simp: local_store_def same_bytes_def)
  show "local_inv pid b \<Longrightarrow> local_admissible pid k \<Longrightarrow> op_put local_store k v b = (Inl e, b') \<Longrightarrow>
      local_inv pid b' \<and> local_content pid b' = local_content pid b"
    using local_put_effect[of k v b "Inl e" b' pid] by (auto simp: local_store_def)
  show "local_inv pid b \<Longrightarrow> local_admissible pid k \<Longrightarrow> op_delete local_store k b = (Inr u, b') \<Longrightarrow>
      local_inv pid b' \<and> local_content pid b' = (local_content pid b)(k := None)"
    using remove_file_effect[of k b "Inr u" b']
    by (auto simp: local_store_def local_delete_def local_inv_def local_content_def local_admissible_def
        canonical_key_def fun_eq_iff)
  show "local_inv pid b \<Longrightarrow> local_admissible pid k \<Longrightarrow> op_delete local_store k b = (Inl e, b') \<Longrightarrow>
      local_inv pid b' \<and> local_content pid b' = local_content pid b"
    using remove_file_effect[of k b "Inl e" b']
    by (auto simp: local_store_def local_delete_def local_inv_def local_content_def local_admissible_def
        canonical_key_def fun_eq_iff)
next
  fix b b' :: disk and p ks
  have "k \<in> set (walk_keys b)" if "local_content pid b k = Some x" for k x
    using that by (force simp: local_content_def walk_keys_def local_admissible_def replace_char_id image_iff
        split: if_splits dest: omap_get_in_set)
  then show "local_inv pid b \<Longrightarrow> normalize_prefix p = Inr p \<Longrightarrow> op_list local_store p b = (ks, b') \<Longrightarrow>
      local_inv pid b' \<and> local_content pid b' = local_content pid b \<and>
      (\<forall>l. ks = Inr l \<longrightarrow> (\<forall>k. local_content pid b k \<noteq> None \<and> starts_with p k \<longrightarrow> k \<in> set l))"
    by (auto simp: local_store_def local_list_def)
qed (auto simp: local_admissible_def canonical_key_def local_content_def local_store_def same_bytes_def
    split: if_splits)

end
