(* ===== verification/Store_Object.thy ===== *)
theory Store_Object
  imports Store_Backends "HOL-Library.Char_ord"
begin

text \<open>
  \<open>ObjectStore\<close> of \<^verbatim>\<open>crates/registry/src/store.rs\<close>: keys and URLs, the request signature, and the
  four operations. Third-party code is the record \<open>object_env\<close>: parsing a URL into the parts that
  the signature uses, adding query pairs to a URL, HMAC and SHA-256 (hexadecimal digests), the
  clock as the two date strings, parsing a listing, and the server, which answers a method, URL,
  headers and body with a status and a body or a transport error. The server keeps its own
  state.
\<close>

section \<open>Percent encoding\<close>

definition hex_upper :: "nat \<Rightarrow> char" where
  "hex_upper n = (if n < 10 then char_of (48 + n) else char_of (55 + n))"

definition unreserved :: "char \<Rightarrow> bool" where
  "unreserved c =
     (let n = of_char c :: nat
      in 65 \<le> n \<and> n \<le> 90 \<or> 97 \<le> n \<and> n \<le> 122 \<or> 48 \<le> n \<and> n \<le> 57 \<or> c \<in> {CHR ''-'', CHR ''_'', CHR ''.'', CHR ''~''})"

definition encode_byte :: "char \<Rightarrow> string" where
  "encode_byte c =
     (if unreserved c then [c]
      else let n = of_char c :: nat in [CHR ''%'', hex_upper (n div 16), hex_upper (n mod 16)])"

definition urlencoding :: "string \<Rightarrow> string" where
  "urlencoding input = concat (map encode_byte input)"

section \<open>The store and its URLs\<close>

record object_store =
  os_endpoint :: string
  os_bucket :: string
  os_access_key :: string
  os_secret_key :: string
  os_prefix :: string
  os_region :: string

definition trim_start_char :: "char \<Rightarrow> string \<Rightarrow> string" where
  "trim_start_char c s = dropWhile (\<lambda>x. x = c) s"

definition trim_end_char :: "char \<Rightarrow> string \<Rightarrow> string" where
  "trim_end_char c s = rev (dropWhile (\<lambda>x. x = c) (rev s))"

definition object_store_new ::
  "string option \<Rightarrow> string \<Rightarrow> string \<Rightarrow> string \<Rightarrow> string \<Rightarrow> string \<Rightarrow> store_error + object_store" where
  "object_store_new region endpoint bucket access_key secret_key pre =
     (if trim endpoint = [] then Inl (InvalidConfig ''endpoint is required'')
      else if trim bucket = [] then Inl (InvalidConfig ''bucket is required'')
      else if trim access_key = [] then Inl (InvalidConfig ''access key is required'')
      else if trim secret_key = [] then Inl (InvalidConfig ''secret key is required'')
      else Inr
        \<lparr>os_endpoint =
           (if \<not> starts_with ''http://'' endpoint \<and> \<not> starts_with ''https://'' endpoint
            then ''http://'' @ endpoint else endpoint),
         os_bucket = bucket, os_access_key = access_key, os_secret_key = secret_key,
         os_prefix = trim_end_char slash (trim_start_char slash pre),
         os_region = (case region of Some r \<Rightarrow> r | None \<Rightarrow> ''us-east-1'')\<rparr>)"

definition resolve_key :: "object_store \<Rightarrow> string \<Rightarrow> string" where
  "resolve_key os key = (if os_prefix os = [] then key else os_prefix os @ ''/'' @ key)"

definition object_url :: "object_store \<Rightarrow> string \<Rightarrow> string" where
  "object_url os object_key =
     (let base = trim_end_char slash (os_endpoint os);
          key = join_with [slash] (map urlencoding (split_on slash (trim_start_char slash object_key)))
      in base @ ''/'' @ urlencoding (os_bucket os) @ ''/'' @ key)"

section \<open>Third-party code\<close>

record url_parts =
  up_host :: "string option"
  up_port :: "nat option"
  up_path :: string
  up_query :: "(string \<times> string) list"

record list_page =
  is_truncated :: bool
  next_continuation_token :: "string option"
  page_keys :: "string list"

record 's object_env =
  oe_url_parse :: "string \<Rightarrow> url_parts option"
  oe_append_pairs :: "string \<Rightarrow> (string \<times> string) list \<Rightarrow> string option"
  oe_hmac :: "string \<Rightarrow> string \<Rightarrow> string option"
  oe_hex :: "string \<Rightarrow> string"
  oe_sha256_hex :: "string \<Rightarrow> string"
  oe_amz_date :: string
  oe_date_stamp :: string
  oe_parse_listing :: "string \<Rightarrow> list_page option"
  oe_send :: "string \<Rightarrow> string \<Rightarrow> (string \<times> string) list \<Rightarrow> string \<Rightarrow> 's \<Rightarrow> (unit + nat \<times> string) \<times> 's"

section \<open>Request signatures\<close>

definition base_headers :: "'s object_env \<Rightarrow> url_parts \<Rightarrow> string \<Rightarrow> (string \<times> string) list" where
  "base_headers env url payload_hash =
     (let host = (case up_host url of Some h \<Rightarrow> h | None \<Rightarrow> ''localhost'');
          port = (case up_port url of Some p \<Rightarrow> '':'' @ dec_of_nat p | None \<Rightarrow> [])
      in [(''x-amz-date'', oe_amz_date env), (''x-amz-content-sha256'', payload_hash), (''host'', host @ port)])"

definition canonical_query :: "(string \<times> string) list \<Rightarrow> string" where
  "canonical_query pairs =
     join_with ''&'' (map (\<lambda>(k, v). urlencoding k @ ''='' @ urlencoding v) (sort_key fst pairs))"

definition header_line :: "string \<times> string \<Rightarrow> string" where
  "header_line h = to_ascii_lowercase (fst h) @ '':'' @ snd h @ [CHR 0x0A]"

definition canonical_request ::
  "string \<Rightarrow> url_parts \<Rightarrow> (string \<times> string) list \<Rightarrow> string \<Rightarrow> string" where
  "canonical_request http_method url sorted_headers payload_hash =
     join_with [CHR 0x0A]
       [http_method, up_path url, canonical_query (up_query url),
        concat (map header_line sorted_headers),
        join_with '';'' (map (\<lambda>h. to_ascii_lowercase (fst h)) sorted_headers),
        payload_hash]"

definition signing_key :: "'s object_env \<Rightarrow> object_store \<Rightarrow> string option" where
  "signing_key env os =
     Option.bind (oe_hmac env (''AWS4'' @ os_secret_key os) (oe_date_stamp env)) (\<lambda>k_date.
     Option.bind (oe_hmac env k_date (os_region os)) (\<lambda>k_region.
     Option.bind (oe_hmac env k_region ''s3'') (\<lambda>k_service.
     oe_hmac env k_service ''aws4_request'')))"

definition sign_request ::
  "'s object_env \<Rightarrow> object_store \<Rightarrow> string \<Rightarrow> string \<Rightarrow> string \<Rightarrow> store_error + (string \<times> string) list" where
  "sign_request env os http_method url_str payload_hash =
     (case oe_url_parse env url_str of
        None \<Rightarrow> Inl (InvalidConfig ''url'')
      | Some url \<Rightarrow>
          let headers = base_headers env url payload_hash;
              sorted_headers = sort_key (\<lambda>h. to_ascii_lowercase (fst h)) headers;
              signed_headers = join_with '';'' (map (\<lambda>h. to_ascii_lowercase (fst h)) sorted_headers);
              scope = oe_date_stamp env @ ''/'' @ os_region os @ ''/s3/aws4_request'';
              hash = oe_sha256_hex env (canonical_request http_method url sorted_headers payload_hash);
              string_to_sign =
                join_with [CHR 0x0A] [''AWS4-HMAC-SHA256'', oe_amz_date env, scope, hash]
          in case Option.bind (signing_key env os) (\<lambda>k. oe_hmac env k string_to_sign) of
               None \<Rightarrow> Inl (Serialization ''hmac'')
             | Some signature \<Rightarrow>
                 Inr (headers @
                   [(''authorization'',
                     ''AWS4-HMAC-SHA256 Credential='' @ os_access_key os @ ''/'' @ scope @
                     '', SignedHeaders='' @ signed_headers @ '', Signature='' @ oe_hex env signature)]))"

section \<open>Operations\<close>

definition successful_object_response :: "nat \<times> string \<Rightarrow> store_error + string" where
  "successful_object_response response =
     (case response of (status, body) \<Rightarrow>
        if 200 \<le> status \<and> status < 300 then Inr body else Inl (Network ''object store returned HTTP''))"

definition object_request ::
  "'s object_env \<Rightarrow> object_store \<Rightarrow> string \<Rightarrow> string \<Rightarrow> string \<Rightarrow> 's \<Rightarrow> (store_error + nat \<times> string) \<times> 's" where
  "object_request env os http_method url_str body s =
     (case sign_request env os http_method url_str (oe_sha256_hex env body) of
        Inl e \<Rightarrow> (Inl e, s)
      | Inr headers \<Rightarrow>
          (case oe_send env http_method url_str headers body s of
             (Inl _, s') \<Rightarrow> (Inl (Network ''send''), s')
           | (Inr response, s') \<Rightarrow> (Inr response, s')))"

definition object_get ::
  "'s object_env \<Rightarrow> object_store \<Rightarrow> string \<Rightarrow> 's \<Rightarrow> (store_error + string option) \<times> 's" where
  "object_get env os key s =
     (case normalize_key key of
        Inl e \<Rightarrow> (Inl e, s)
      | Inr k \<Rightarrow>
          (case object_request env os ''GET'' (object_url os (resolve_key os k)) [] s of
             (Inl e, s') \<Rightarrow> (Inl e, s')
           | (Inr response, s') \<Rightarrow>
               (if fst response = 404 then Inr None
                else rbind (successful_object_response response) (\<lambda>body. Inr (Some body)), s')))"

definition object_put ::
  "'s object_env \<Rightarrow> object_store \<Rightarrow> string \<Rightarrow> string \<Rightarrow> 's \<Rightarrow> (store_error + unit) \<times> 's" where
  "object_put env os key value s =
     (case normalize_key key of
        Inl e \<Rightarrow> (Inl e, s)
      | Inr k \<Rightarrow>
          (case object_request env os ''PUT'' (object_url os (resolve_key os k)) value s of
             (Inl e, s') \<Rightarrow> (Inl e, s')
           | (Inr response, s') \<Rightarrow> (rbind (successful_object_response response) (\<lambda>_. Inr ()), s')))"

definition object_delete ::
  "'s object_env \<Rightarrow> object_store \<Rightarrow> string \<Rightarrow> 's \<Rightarrow> (store_error + unit) \<times> 's" where
  "object_delete env os key s =
     (case normalize_key key of
        Inl e \<Rightarrow> (Inl e, s)
      | Inr k \<Rightarrow>
          (case object_request env os ''DELETE'' (object_url os (resolve_key os k)) [] s of
             (Inl e, s') \<Rightarrow> (Inl e, s')
           | (Inr response, s') \<Rightarrow> (rbind (successful_object_response response) (\<lambda>_. Inr ()), s')))"

definition list_url :: "'s object_env \<Rightarrow> object_store \<Rightarrow> string \<Rightarrow> store_error + string" where
  "list_url env os pre =
     (case oe_append_pairs env (trim_end_char slash (os_endpoint os) @ ''/'' @ os_bucket os)
             ([(''list-type'', ''2'')] @ (if pre = [] then [] else [(''prefix'', pre)])) of
        None \<Rightarrow> Inl (InvalidConfig ''url'')
      | Some url \<Rightarrow> Inr url)"

definition page_url ::
  "'s object_env \<Rightarrow> object_store \<Rightarrow> string \<Rightarrow> string option \<Rightarrow> store_error + string" where
  "page_url env os full_prefix continuation =
     rbind (list_url env os full_prefix) (\<lambda>url.
       case oe_append_pairs env url
              (case continuation of None \<Rightarrow> [] | Some token \<Rightarrow> [(''continuation-token'', token)]) of
         None \<Rightarrow> Inl (Serialization ''url'')
       | Some u \<Rightarrow> Inr u)"

definition fetch_page ::
  "'s object_env \<Rightarrow> object_store \<Rightarrow> string \<Rightarrow> string option \<Rightarrow> 's \<Rightarrow> (store_error + list_page) \<times> 's" where
  "fetch_page env os full_prefix continuation s =
     (case page_url env os full_prefix continuation of
        Inl e \<Rightarrow> (Inl e, s)
      | Inr url \<Rightarrow>
          (case object_request env os ''GET'' url [] s of
             (Inl e, s') \<Rightarrow> (Inl e, s')
           | (Inr response, s') \<Rightarrow>
               (rbind (successful_object_response response) (\<lambda>xml.
                  case oe_parse_listing env xml of
                    None \<Rightarrow> Inl (Serialization ''listing'')
                  | Some page \<Rightarrow> Inr page), s')))"

definition entry_key :: "object_store \<Rightarrow> string \<Rightarrow> string \<Rightarrow> store_error + string" where
  "entry_key os full_prefix entry =
     (if \<not> starts_with full_prefix entry then Inl (Serialization ''S3 key outside requested prefix'')
      else rbind
        (if os_prefix os = [] then Inr entry
         else case strip_prefix (os_prefix os @ ''/'') entry of
                None \<Rightarrow> Inl (Serialization ''S3 key outside store prefix'')
              | Some rest \<Rightarrow> Inr rest)
        normalize_key)"

definition collect_page :: "object_store \<Rightarrow> string \<Rightarrow> string list \<Rightarrow> string list \<Rightarrow> store_error + string list" where
  "collect_page os full_prefix found entries =
     try_fold (\<lambda>found entry. rbind (entry_key os full_prefix entry) (\<lambda>k. Inr (found @ [k]))) found entries"

text \<open>The token of the next page, or the reason there is none.\<close>

definition next_token :: "list_page \<Rightarrow> string list \<Rightarrow> store_error + string" where
  "next_token page seen =
     (case next_continuation_token page of
        None \<Rightarrow> Inl (Serialization ''S3 continuation token missing'')
      | Some token \<Rightarrow>
          if token = [] then Inl (Serialization ''S3 continuation token missing'')
          else if token \<in> set seen then Inl (Serialization ''S3 continuation token repeated'')
          else Inr token)"

partial_function (option) list_pages ::
  "'s object_env \<Rightarrow> object_store \<Rightarrow> string \<Rightarrow> string list \<Rightarrow> string list \<Rightarrow> string option \<Rightarrow> 's \<Rightarrow>
   ((store_error + string list) \<times> 's) option" where
  "list_pages env os full_prefix found seen continuation s =
     (case fetch_page env os full_prefix continuation s of
        (Inl e, s') \<Rightarrow> Some (Inl e, s')
      | (Inr page, s') \<Rightarrow>
          (case collect_page os full_prefix found (page_keys page) of
             Inl e \<Rightarrow> Some (Inl e, s')
           | Inr found' \<Rightarrow>
               if \<not> is_truncated page then Some (Inr found', s')
               else (case next_token page seen of
                       Inl e \<Rightarrow> Some (Inl e, s')
                     | Inr token \<Rightarrow> list_pages env os full_prefix found' (token # seen) (Some token) s')))"

definition object_list ::
  "'s object_env \<Rightarrow> object_store \<Rightarrow> string \<Rightarrow> 's \<Rightarrow> ((store_error + string list) \<times> 's) option" where
  "object_list env os pre s =
     (case normalize_prefix pre of
        Inl e \<Rightarrow> Some (Inl e, s)
      | Inr p \<Rightarrow>
          map_option (map_prod (map_sum id (\<lambda>found. remdups_adj (sort found))) id)
            (list_pages env os (resolve_key os p) [] [] None s))"

section \<open>Encoding loses nothing\<close>

definition hex_upper_value :: "char \<Rightarrow> nat" where
  "hex_upper_value c = (let n = of_char c :: nat in if n < 65 then n - 48 else n - 55)"

fun percent_decode :: "string \<Rightarrow> string" where
  "percent_decode (c # a # b # cs) =
     (if c = CHR ''%'' then char_of (16 * hex_upper_value a + hex_upper_value b) # percent_decode cs
      else c # percent_decode (a # b # cs))"
| "percent_decode cs = cs"

lemma hex_upper_value [simp]: "n < 16 \<Longrightarrow> hex_upper_value (hex_upper n) = n"
  by (auto simp: hex_upper_value_def hex_upper_def)

lemma percent_not_unreserved: "\<not> unreserved (CHR ''%'')" "\<not> unreserved slash"
  by code_simp+

lemma percent_decode_plain: "c \<noteq> CHR ''%'' \<Longrightarrow> percent_decode (c # cs) = c # percent_decode cs"
  by (cases cs rule: percent_decode.cases) auto

lemma char_of_divmod: "char_of (16 * (of_char c div 16) + of_char c mod 16 :: nat) = c"
  by simp

lemma percent_decode_byte: "percent_decode (encode_byte c @ cs) = c # percent_decode cs"
proof (cases "unreserved c")
  case True
  then have "c \<noteq> CHR ''%''" using percent_not_unreserved by auto
  then show ?thesis using True by (simp add: encode_byte_def percent_decode_plain)
next
  case False
  have "(of_char c :: nat) div 16 < 16" using nat_of_char_less_256[of c] by (simp add: less_mult_imp_div_less)
  then show ?thesis using False by (simp add: encode_byte_def Let_def char_of_divmod)
qed

lemma percent_decode_urlencoding [simp]: "percent_decode (urlencoding s) = s"
  by (induction s) (simp_all add: urlencoding_def percent_decode_byte)

lemma urlencoding_inject [simp]: "urlencoding a = urlencoding b \<longleftrightarrow> a = b"
  by (metis percent_decode_urlencoding)

lemma hex_upper_not_slash: "n < 16 \<Longrightarrow> hex_upper n \<noteq> slash"
proof
  assume "n < 16" "hex_upper n = slash"
  moreover have "48 \<le> (of_char (hex_upper n) :: nat)" using \<open>n < 16\<close> by (simp add: hex_upper_def)
  moreover have "(of_char slash :: nat) = 47" by code_simp
  ultimately show False by simp
qed

lemma encode_byte_no_slash: "slash \<notin> set (encode_byte c)"
proof -
  have "(of_char c :: nat) div 16 < 16" using nat_of_char_less_256[of c] by (simp add: less_mult_imp_div_less)
  then show ?thesis
    using percent_not_unreserved hex_upper_not_slash[of "of_char c div 16"] hex_upper_not_slash[of "of_char c mod 16"]
    by (auto simp: encode_byte_def Let_def)
qed

lemma urlencoding_no_slash: "slash \<notin> set (urlencoding s)"
  using encode_byte_no_slash by (auto simp: urlencoding_def)

lemma encoded_path_inject:
  "join_with [slash] (map urlencoding (split_on slash a)) = join_with [slash] (map urlencoding (split_on slash b)) \<longleftrightarrow> a = b"
proof
  assume "join_with [slash] (map urlencoding (split_on slash a)) = join_with [slash] (map urlencoding (split_on slash b))"
  then have "map urlencoding (split_on slash a) = map urlencoding (split_on slash b)"
    by (rule join_with_inject) (simp_all add: list_all_iff urlencoding_no_slash)
  then have "split_on slash a = split_on slash b" by (simp add: inj_map_eq_map inj_def)
  then show "a = b" by (metis join_split)
qed simp

lemma canonical_key_relative: "canonical_key k \<Longrightarrow> trim_start_char slash k = k"
proof -
  assume "canonical_key k"
  then obtain ps where ps: "ps \<noteq> []" "list_all plain_part ps" "k = join_with [slash] ps"
    unfolding canonical_key_def by (rule normalize_key_Inr)
  then have "\<not> starts_with [slash] k"
    using path_components_plain[OF ps(1,2)] by (auto simp: path_components_def Let_def split: if_splits)
  then show ?thesis by (cases k) (auto simp: trim_start_char_def starts_with_def)
qed

text \<open>Different keys are different objects.\<close>

lemma object_url_inject:
  assumes "canonical_key a" "canonical_key b" "\<not> starts_with [slash] (os_prefix os)"
    and "object_url os (resolve_key os a) = object_url os (resolve_key os b)"
  shows "a = b"
proof -
  have rel: "trim_start_char slash (resolve_key os k) = resolve_key os k" if "canonical_key k" for k
    using assms(3) canonical_key_relative[OF that]
    by (cases "os_prefix os") (auto simp: resolve_key_def trim_start_char_def starts_with_def)
  have "resolve_key os a = resolve_key os b"
    using assms(4) by (simp add: object_url_def Let_def rel[OF assms(1)] rel[OF assms(2)] encoded_path_inject)
  then show ?thesis by (auto simp: resolve_key_def split: if_splits)
qed

section \<open>Listings\<close>

definition normal_keys :: "string list \<Rightarrow> bool" where
  "normal_keys ks \<longleftrightarrow> (\<forall>k \<in> set ks. \<exists>raw. normalize_key raw = Inr k)"

lemma collect_page_normal:
  assumes "collect_page os full_prefix found entries = Inr found'" "normal_keys found"
  shows "normal_keys found'"
proof (rule try_fold_invariant[where P = normal_keys, OF assms(1)[unfolded collect_page_def] assms(2)])
  fix ks entry ks'
  assume "normal_keys ks" "rbind (entry_key os full_prefix entry) (\<lambda>k. Inr (ks @ [k])) = Inr ks'"
  then show "normal_keys ks'" by (auto simp: entry_key_def normal_keys_def split: if_splits)
qed

text \<open>
  The loop over the pages of a listing ends when the server draws its continuation tokens from a
  finite set: every token is accepted at most once.
\<close>

definition tokens_in :: "'s object_env \<Rightarrow> object_store \<Rightarrow> string set \<Rightarrow> bool" where
  "tokens_in env os T \<longleftrightarrow>
     (\<forall>pre c s page s' t. fetch_page env os pre c s = (Inr page, s') \<and>
        next_continuation_token page = Some t \<longrightarrow> t \<in> T)"

lemma list_pages_returns:
  assumes "finite T" and tokens: "tokens_in env os T" and "normal_keys found"
  shows "\<exists>r s'. list_pages env os pre found seen c s = Some (r, s') \<and> (\<forall>ks. r = Inr ks \<longrightarrow> normal_keys ks)"
  using assms(3)
proof (induction "card (T - set seen)" arbitrary: found seen c s rule: less_induct)
  case less
  obtain f s' where f: "fetch_page env os pre c s = (f, s')" by fastforce
  show ?case
  proof (cases "\<exists>page found' token. f = Inr page \<and> collect_page os pre found (page_keys page) = Inr found' \<and>
      is_truncated page \<and> next_token page seen = Inr token")
    case True
    then obtain page found' token where t: "f = Inr page" "collect_page os pre found (page_keys page) = Inr found'"
      "is_truncated page" "next_token page seen = Inr token" by blast
    then have "token \<notin> set seen" "next_continuation_token page = Some token"
      by (auto simp: next_token_def split: option.splits if_splits)
    with tokens f t(1) have "token \<in> T - set seen" unfolding tokens_in_def by blast
    then have "card (T - set (token # seen)) < card (T - set seen)"
      using assms(1) by (intro psubset_card_mono) auto
    from less.hyps[OF this collect_page_normal[OF t(2) less.prems], of "Some token" s'] t f
    show ?thesis by (subst list_pages.simps) simp
  next
    case False
    then show ?thesis
      using f less.prems collect_page_normal by (subst list_pages.simps) (auto split: sum.splits)
  qed
qed

lemma strict_sorted_remdups_adj: "sorted xs \<Longrightarrow> sorted_wrt (<) (remdups_adj (xs :: 'a :: linorder list))"
  by (induction xs rule: remdups_adj.induct) (auto simp: less_le)

text \<open>
  C40. Listing an object store ends: when the server's continuation tokens come from a finite
  set, however it repeats or reorders them, \<open>list\<close> returns; a successful listing is sorted, has
  no duplicates, and consists of normalized keys.
\<close>

theorem object_list_returns:
  assumes "finite T" and "tokens_in env os T"
  shows "\<exists>r s'. object_list env os pre s = Some (r, s') \<and>
           (\<forall>ks. r = Inr ks \<longrightarrow> sorted_wrt (<) ks \<and> (\<forall>k \<in> set ks. \<exists>raw. normalize_key raw = Inr k))"
proof (cases "normalize_prefix pre")
  case (Inl e)
  then show ?thesis by (simp add: object_list_def)
next
  case (Inr p)
  have "normal_keys []" by (simp add: normal_keys_def)
  then obtain r s' where r: "list_pages env os (resolve_key os p) [] [] None s = Some (r, s')"
    "\<forall>ks. r = Inr ks \<longrightarrow> normal_keys ks"
    using list_pages_returns[OF assms] by blast
  have "sorted_wrt (<) (remdups_adj (sort ks))" for ks :: "string list"
    by (rule strict_sorted_remdups_adj) simp
  then show ?thesis using Inr r by (cases r) (auto simp: object_list_def normal_keys_def)
qed

text \<open>A server that answers every request with the same truncated page.\<close>

definition looping_server :: "unit object_env" where
  "looping_server =
     \<lparr>oe_url_parse = (\<lambda>_. Some \<lparr>up_host = Some ''h'', up_port = None, up_path = ''/b'', up_query = []\<rparr>),
      oe_append_pairs = (\<lambda>u _. Some u), oe_hmac = (\<lambda>k _. Some k), oe_hex = id, oe_sha256_hex = (\<lambda>_. ''0''),
      oe_amz_date = ''d'', oe_date_stamp = ''d'',
      oe_parse_listing = (\<lambda>_. Some \<lparr>is_truncated = True, next_continuation_token = Some ''t'', page_keys = [''a'']\<rparr>),
      oe_send = (\<lambda>_ _ _ _ s. (Inr (200, ''page''), s))\<rparr>"

definition example_store :: object_store where
  "example_store =
     \<lparr>os_endpoint = ''http://h'', os_bucket = ''b'', os_access_key = ''a'', os_secret_key = ''s'',
      os_prefix = [], os_region = ''r''\<rparr>"

lemma looping_server_tokens: "tokens_in looping_server os {''t''}"
  by (auto simp: tokens_in_def fetch_page_def object_request_def looping_server_def
      successful_object_response_def split: sum.splits)

theorem object_list_returns_witness:
  "\<exists>r s'. object_list looping_server example_store [] () = Some (r, s')"
  using object_list_returns[OF _ looping_server_tokens, of example_store "[]" "()"] by auto

section \<open>Every request is signed over host, payload and date\<close>

lemma signed_header_names:
  "map (\<lambda>h. to_ascii_lowercase (fst h)) (sort_key (\<lambda>h. to_ascii_lowercase (fst h)) (base_headers env url hash)) =
   [''host'', ''x-amz-content-sha256'', ''x-amz-date'']"
proof -
  have *: "to_ascii_lowercase ''host'' = ''host''" "to_ascii_lowercase ''x-amz-date'' = ''x-amz-date''"
    "to_ascii_lowercase ''x-amz-content-sha256'' = ''x-amz-content-sha256''"
    "''host'' < ''x-amz-date''" "''host'' < ''x-amz-content-sha256''" "''x-amz-content-sha256'' < ''x-amz-date''"
    by code_simp+
  then show ?thesis by (simp add: base_headers_def Let_def insort_key_left_comm not_le)
qed

end
