(* ===== verification/Store_Manager.thy ===== *)
theory Store_Manager
  imports Store_Backends
begin

text \<open>
  \<open>StorageManager\<close> of \<^verbatim>\<open>crates/registry/src/store.rs\<close>: a backend in front of which a local spool
  directory keeps the last confirmed version of every key, and a second directory keeps the
  data of failed writes. The state is the backend's and the two directory trees. \<open>put\<close>, \<open>delete\<close>
  and \<open>sync_all_to_spool\<close> hold the manager's mutex, so each is one step. \<open>get\<close> takes no lock: it is
  two steps, the backend's read and the answer that touches the spool, and \<open>manager_get\<close> is the
  call that nothing interrupts.
\<close>

section \<open>Definitions\<close>

record 'b storage_manager =
  mg_backend :: "'b"
  mg_spool :: disk
  mg_pending :: disk

definition manager_new :: "nat \<Rightarrow> write_fault list \<Rightarrow> write_fault list \<Rightarrow> 'b \<Rightarrow> 'b storage_manager" where
  "manager_new pid spool_faults pending_faults backend =
     \<lparr>mg_backend = backend, mg_spool = disk_new pid spool_faults, mg_pending = disk_new pid pending_faults\<rparr>"

definition write_spool :: "string \<Rightarrow> string \<Rightarrow> disk \<Rightarrow> (store_error + unit) \<times> disk" where
  "write_spool key data d =
     (case create_parents key d of
        (Inl e, d1) \<Rightarrow> (Inl e, d1)
      | (Inr _, d1) \<Rightarrow>
          (case atomic_write key data d1 of
             (Inl e, d2) \<Rightarrow> (Inl e, d2\<lparr>dk_files := omap_remove (temp_path (dk_pid d2) key) (dk_files d2)\<rparr>)
           | (Inr u, d2) \<Rightarrow> (Inr u, d2)))"

definition get_read ::
  "'b storage_backend \<Rightarrow> string \<Rightarrow> 'b storage_manager \<Rightarrow> (store_error + string option) \<times> 'b storage_manager" where
  "get_read ops k m = (case op_get ops k (mg_backend m) of (found, b) \<Rightarrow> (found, m\<lparr>mg_backend := b\<rparr>))"

definition get_answer ::
  "string \<Rightarrow> string option \<Rightarrow> 'b storage_manager \<Rightarrow> (store_error + string option) \<times> 'b storage_manager" where
  "get_answer k found m =
     (case found of
        Some data \<Rightarrow>
          (case write_spool k data (mg_spool m) of
             (Inl e, d) \<Rightarrow> (Inl e, m\<lparr>mg_spool := d\<rparr>)
           | (Inr _, d) \<Rightarrow> (Inr (Some data), m\<lparr>mg_spool := d\<rparr>))
      | None \<Rightarrow> (read_file k (mg_spool m), m))"

definition manager_get ::
  "'b storage_backend \<Rightarrow> string \<Rightarrow> 'b storage_manager \<Rightarrow> (store_error + string option) \<times> 'b storage_manager" where
  "manager_get ops key m =
     (case normalize_key key of
        Inl e \<Rightarrow> (Inl e, m)
      | Inr k \<Rightarrow>
          (case get_read ops k m of
             (Inl e, m1) \<Rightarrow> (Inl e, m1)
           | (Inr found, m1) \<Rightarrow> get_answer k found m1))"

definition check_health ::
  "'b storage_backend \<Rightarrow> 'b storage_manager \<Rightarrow> (store_error + unit) \<times> 'b storage_manager" where
  "check_health ops m =
     (case op_list ops [] (mg_backend m) of
        (Inl e, b) \<Rightarrow> (Inl e, m\<lparr>mg_backend := b\<rparr>)
      | (Inr _, b) \<Rightarrow> (Inr (), m\<lparr>mg_backend := b\<rparr>))"

definition spool_conflict :: store_error where
  "spool_conflict = Conflict ''remote backend has diverged from local spool''"

definition conflict_check ::
  "'b storage_backend \<Rightarrow> string \<Rightarrow> 'b storage_manager \<Rightarrow> (store_error + unit) \<times> 'b" where
  "conflict_check ops k m =
     (case omap_get (dk_files (mg_spool m)) k of
        None \<Rightarrow> (Inr (), mg_backend m)
      | Some spooled \<Rightarrow>
          (case op_get ops k (mg_backend m) of
             (Inr (Some remote), b) \<Rightarrow>
               if op_equivalent ops k remote spooled then (Inr (), b) else (Inl spool_conflict, b)
           | (Inr None, b) \<Rightarrow> (Inr (), b)
           | (Inl (Unavailable _), b) \<Rightarrow> (Inr (), b)
           | (Inl e, b) \<Rightarrow> (Inl e, b)))"

definition manager_put ::
  "'b storage_backend \<Rightarrow> string \<Rightarrow> string \<Rightarrow> 'b storage_manager \<Rightarrow> (store_error + unit) \<times> 'b storage_manager" where
  "manager_put ops key data m =
     (case normalize_key key of
        Inl e \<Rightarrow> (Inl e, m)
      | Inr k \<Rightarrow>
          (case conflict_check ops k m of
             (Inl e, b) \<Rightarrow> (Inl e, m\<lparr>mg_backend := b\<rparr>)
           | (Inr _, b) \<Rightarrow>
               (case op_put ops k data b of
                  (Inr _, b') \<Rightarrow>
                    (case write_spool k data (mg_spool m) of
                       (Inl e, d) \<Rightarrow> (Inl e, m\<lparr>mg_backend := b', mg_spool := d\<rparr>)
                     | (Inr _, d) \<Rightarrow>
                         (case remove_file k (mg_pending m) of
                            (r, p) \<Rightarrow> (r, m\<lparr>mg_backend := b', mg_spool := d, mg_pending := p\<rparr>)))
                | (Inl e, b') \<Rightarrow>
                    (case local_put k data (mg_pending m) of
                       (Inl e', p) \<Rightarrow> (Inl e', m\<lparr>mg_backend := b', mg_pending := p\<rparr>)
                     | (Inr _, p) \<Rightarrow> (Inl e, m\<lparr>mg_backend := b', mg_pending := p\<rparr>)))))"

definition manager_delete ::
  "'b storage_backend \<Rightarrow> string \<Rightarrow> 'b storage_manager \<Rightarrow> (store_error + unit) \<times> 'b storage_manager" where
  "manager_delete ops key m =
     (case normalize_key key of
        Inl e \<Rightarrow> (Inl e, m)
      | Inr k \<Rightarrow>
          (case op_delete ops k (mg_backend m) of
             (Inl e, b) \<Rightarrow> (Inl e, m\<lparr>mg_backend := b\<rparr>)
           | (Inr _, b) \<Rightarrow>
               (case remove_file k (mg_pending m) of
                  (Inl e, p) \<Rightarrow> (Inl e, m\<lparr>mg_backend := b, mg_pending := p\<rparr>)
                | (Inr _, p) \<Rightarrow>
                    (case remove_file k (mg_spool m) of
                       (r, d) \<Rightarrow> (r, m\<lparr>mg_backend := b, mg_pending := p, mg_spool := d\<rparr>)))))"

definition manager_list ::
  "'b storage_backend \<Rightarrow> string \<Rightarrow> 'b storage_manager \<Rightarrow> (store_error + string list) \<times> 'b storage_manager" where
  "manager_list ops pre m =
     (case normalize_prefix pre of
        Inl e \<Rightarrow> (Inl e, m)
      | Inr p \<Rightarrow> (case op_list ops p (mg_backend m) of (r, b) \<Rightarrow> (r, m\<lparr>mg_backend := b\<rparr>)))"

text \<open>Fetching the listed keys; the spool is only compared with.\<close>

fun fetch_snapshot ::
  "'b storage_backend \<Rightarrow> disk \<Rightarrow> string list \<Rightarrow> 'b \<Rightarrow> (store_error + (string \<times> string) list) \<times> 'b" where
  "fetch_snapshot ops spool [] b = (Inr [], b)"
| "fetch_snapshot ops spool (key # keys) b =
     (case normalize_key key of
        Inl e \<Rightarrow> (Inl e, b)
      | Inr k \<Rightarrow>
          (case op_get ops k b of
             (Inl e, b1) \<Rightarrow> (Inl e, b1)
           | (Inr None, b1) \<Rightarrow> (Inl (Conflict ''listed storage key disappeared''), b1)
           | (Inr (Some data), b1) \<Rightarrow>
               (case omap_get (dk_files spool) k of
                  Some spooled \<Rightarrow>
                    if op_equivalent ops k spooled data
                    then (case fetch_snapshot ops spool keys b1 of (r, b2) \<Rightarrow> (map_sum id ((#) (k, data)) r, b2))
                    else (Inl spool_conflict, b1)
                | None \<Rightarrow> (case fetch_snapshot ops spool keys b1 of (r, b2) \<Rightarrow> (map_sum id ((#) (k, data)) r, b2)))))"

fun write_snapshot :: "(string \<times> string) list \<Rightarrow> disk \<Rightarrow> (store_error + unit) \<times> disk" where
  "write_snapshot [] d = (Inr (), d)"
| "write_snapshot ((k, data) # es) d =
     (case write_spool k data d of (Inl e, d1) \<Rightarrow> (Inl e, d1) | (Inr _, d1) \<Rightarrow> write_snapshot es d1)"

definition drop_unlisted :: "string list \<Rightarrow> disk \<Rightarrow> disk" where
  "drop_unlisted keys d =
     d\<lparr>dk_files := omap_retain (\<lambda>k _. replace_char (CHR 0x5C) slash k \<in> set keys) (dk_files d)\<rparr>"

definition sync_all_to_spool ::
  "'b storage_backend \<Rightarrow> 'b storage_manager \<Rightarrow> (store_error + unit) \<times> 'b storage_manager" where
  "sync_all_to_spool ops m =
     (case manager_list ops [] m of
        (Inl e, m1) \<Rightarrow> (Inl e, m1)
      | (Inr keys, m1) \<Rightarrow>
          (case fetch_snapshot ops (mg_spool m1) keys (mg_backend m1) of
             (Inl e, b) \<Rightarrow> (Inl e, m1\<lparr>mg_backend := b\<rparr>)
           | (Inr snapshot, b) \<Rightarrow>
               (case write_snapshot snapshot (mg_spool m1) of
                  (Inl e, d) \<Rightarrow> (Inl e, m1\<lparr>mg_backend := b, mg_spool := d\<rparr>)
                | (Inr _, d) \<Rightarrow> (Inr (), m1\<lparr>mg_backend := b, mg_spool := drop_unlisted keys d\<rparr>))))"

section \<open>Spool writes\<close>

lemmas manager_get_steps = manager_get_def get_read_def get_answer_def

lemma write_spool_effect:
  assumes "write_spool key data d = (r, d')" "omap_ok (dk_files d)"
  shows "omap_ok (dk_files d')" "dk_pid d' = dk_pid d"
    "k \<noteq> temp_path (dk_pid d) key \<Longrightarrow> omap_get (dk_files d') k =
       (if r = Inr () \<and> k = key then Some data else omap_get (dk_files d) k)"
proof -
  obtain r1 d1 where c: "create_parents key d = (r1, d1)" by fastforce
  obtain r2 d2 where w: "atomic_write key data d1 = (r2, d2)" by fastforce
  note c1 = create_parents_effect[OF c]
  have ok: "omap_ok (dk_files d1)" using c1 assms(2) by simp
  note w1 = atomic_write_effect[OF w ok]
  show "omap_ok (dk_files d')" "dk_pid d' = dk_pid d"
    using assms c w c1 w1(1,2) by (auto simp: write_spool_def split: sum.splits prod.splits)
  show "omap_get (dk_files d') k = (if r = Inr () \<and> k = key then Some data else omap_get (dk_files d) k)"
    if "k \<noteq> temp_path (dk_pid d) key"
    using assms c w c1 w1(2) w1(4)[of k] that by (auto simp: write_spool_def split: sum.splits prod.splits)
qed

text \<open>Whatever key a spool write is for, a file of the spool that changes holds the new data or is gone.\<close>

lemma write_spool_files:
  assumes "write_spool key data d = (Inr u, d')" "omap_ok (dk_files d)" "omap_get (dk_files d') k = Some s"
  shows "k = key \<and> s = data \<or> omap_get (dk_files d) k = Some s"
proof -
  obtain r1 d1 where c: "create_parents key d = (r1, d1)" by fastforce
  have w: "atomic_write key data d1 = (Inr u, d')"
    using assms(1) c by (auto simp: write_spool_def split: sum.splits prod.splits)
  then show ?thesis
    using assms(3) create_parents_effect(1)[OF c]
    by (auto simp: atomic_write_def Let_def split: if_splits write_fault.splits)
qed

lemma write_spool_stores:
  assumes "write_spool key data d = (Inr u, d')"
  shows "omap_get (dk_files d') key = Some data"
proof -
  obtain r1 d1 where c: "create_parents key d = (r1, d1)" by fastforce
  have w: "atomic_write key data d1 = (Inr u, d')"
    using assms(1) c by (auto simp: write_spool_def split: sum.splits prod.splits)
  then show ?thesis by (auto simp: atomic_write_def Let_def split: if_splits write_fault.splits)
qed

section \<open>The manager as a map\<close>

text \<open>The spool is coherent when every file of it is equivalent to what the backend holds.\<close>

definition coherent ::
  "'b storage_backend \<Rightarrow> ('b \<Rightarrow> string \<rightharpoonup> string) \<Rightarrow> (string \<Rightarrow> bool) \<Rightarrow> 'b storage_manager \<Rightarrow> bool" where
  "coherent ops content adm m \<longleftrightarrow>
     omap_ok (dk_files (mg_spool m)) \<and>
     (\<forall>k s. adm k \<and> omap_get (dk_files (mg_spool m)) k = Some s \<longrightarrow>
        (\<exists>r. content (mg_backend m) k = Some r \<and> op_equivalent ops k r s))"

lemma coherentD:
  "coherent ops content adm m \<Longrightarrow> adm k \<Longrightarrow> omap_get (dk_files (mg_spool m)) k = Some s \<Longrightarrow>
   \<exists>r. content (mg_backend m) k = Some r \<and> op_equivalent ops k r s"
  unfolding coherent_def by blast

datatype store_cmd = GetCmd string | PutCmd string string | DeleteCmd string

primrec cmd_key :: "store_cmd \<Rightarrow> string" where
  "cmd_key (GetCmd k) = k"
| "cmd_key (PutCmd k _) = k"
| "cmd_key (DeleteCmd k) = k"

primrec manager_step ::
  "'b storage_backend \<Rightarrow> store_cmd \<Rightarrow> 'b storage_manager \<Rightarrow> (store_error + string option) \<times> 'b storage_manager" where
  "manager_step ops (GetCmd k) m = manager_get ops k m"
| "manager_step ops (PutCmd k v) m = map_prod (map_sum id (\<lambda>_. None)) id (manager_put ops k v m)"
| "manager_step ops (DeleteCmd k) m = map_prod (map_sum id (\<lambda>_. None)) id (manager_delete ops k m)"

fun manager_run ::
  "'b storage_backend \<Rightarrow> store_cmd list \<Rightarrow> 'b storage_manager \<Rightarrow> (store_error + string option list) \<times> 'b storage_manager" where
  "manager_run ops [] m = (Inr [], m)"
| "manager_run ops (c # cs) m =
     (case manager_step ops c m of
        (Inl e, m1) \<Rightarrow> (Inl e, m1)
      | (Inr v, m1) \<Rightarrow> (case manager_run ops cs m1 of (r, m2) \<Rightarrow> (map_sum id ((#) v) r, m2)))"

text \<open>The specification: a map from keys to data.\<close>

primrec map_step :: "store_cmd \<Rightarrow> (string \<rightharpoonup> string) \<Rightarrow> string option \<times> (string \<rightharpoonup> string)" where
  "map_step (GetCmd k) f = (f k, f)"
| "map_step (PutCmd k v) f = (None, f(k \<mapsto> v))"
| "map_step (DeleteCmd k) f = (None, f(k := None))"

fun map_run :: "store_cmd list \<Rightarrow> (string \<rightharpoonup> string) \<Rightarrow> string option list \<times> (string \<rightharpoonup> string)" where
  "map_run [] f = ([], f)"
| "map_run (c # cs) f = (case map_step c f of (v, g) \<Rightarrow> (case map_run cs g of (vs, h) \<Rightarrow> (v # vs, h)))"

context key_value_store
begin

lemma coherent_store:
  assumes "coherent ops content admissible m" "inv b" "write_spool k data (mg_spool m) = (Inr u, d)"
    and "\<And>h. h \<noteq> k \<Longrightarrow> content b h = content (mg_backend m) h"
    and "\<exists>r. content b k = Some r \<and> op_equivalent ops k r data"
  shows "coherent ops content admissible (m\<lparr>mg_backend := b, mg_spool := d\<rparr>)"
proof -
  have ok: "omap_ok (dk_files (mg_spool m))" using assms(1) by (simp add: coherent_def)
  have "\<exists>r. content b h = Some r \<and> op_equivalent ops h r s"
    if "admissible h" "omap_get (dk_files d) h = Some s" for h s
  proof (cases "h = k")
    case True
    then show ?thesis using write_spool_stores[OF assms(3)] that assms(5) by simp
  next
    case False
    then have "omap_get (dk_files (mg_spool m)) h = Some s"
      using write_spool_files[OF assms(3) ok that(2)] by simp
    then show ?thesis using assms(1,4) that False by (auto simp: coherent_def)
  qed
  then show ?thesis using write_spool_effect(1)[OF assms(3) ok] by (simp add: coherent_def)
qed

lemma coherent_backend:
  assumes "coherent ops content admissible m" "content b = content (mg_backend m)"
  shows "coherent ops content admissible (m\<lparr>mg_backend := b\<rparr>)"
  using assms by (simp add: coherent_def)

lemma manager_get_map:
  assumes "inv (mg_backend m)" "coherent ops content admissible m" "admissible k"
    and "manager_get ops k m = (Inr v, m')"
  shows "inv (mg_backend m') \<and> coherent ops content admissible m' \<and>
    content (mg_backend m') = content (mg_backend m) \<and> v = content (mg_backend m) k"
proof -
  obtain r b where g: "op_get ops k (mg_backend m) = (r, b)" by fastforce
  note law = get_keeps[OF assms(1) g]
  have norm: "normalize_key k = Inr k" using assms(3) by (rule admissible_normal)
  have "\<exists>x. r = Inr x" using assms(4) g norm by (cases r) (simp_all add: manager_get_steps)
  then have r: "r = Inr (content (mg_backend m) k)" using get_law[OF assms(1,3)] g by blast
  show ?thesis
  proof (cases "content (mg_backend m) k")
    case None
    then have m': "m' = m\<lparr>mg_backend := b\<rparr>" and v: "read_file k (mg_spool m) = Inr v"
      using assms(4) g r norm by (simp_all add: manager_get_steps)
    have "omap_get (dk_files (mg_spool m)) k = None"
      using coherentD[OF assms(2,3)] None by (cases "omap_get (dk_files (mg_spool m)) k") auto
    then have "v = None" using v by (auto simp: read_file_def split: if_splits)
    then show ?thesis using law m' None coherent_backend[OF assms(2), of b] by simp
  next
    case (Some x)
    then obtain u d where w: "write_spool k x (mg_spool m) = (Inr u, d)"
      and m': "m' = m\<lparr>mg_backend := b, mg_spool := d\<rparr>" and v: "v = Some x"
      using assms(4) g r norm by (auto simp: manager_get_steps split: sum.splits prod.splits)
    have "coherent ops content admissible m'"
      unfolding m' using law Some equivalent_stored[OF assms(1) Some]
      by (intro coherent_store[OF assms(2) _ w]) simp_all
    then show ?thesis using law m' v Some by simp
  qed
qed

lemma conflict_check_map:
  assumes "inv (mg_backend m)" "admissible k" "conflict_check ops k m = (r, b)"
  shows "inv b \<and> content b = content (mg_backend m)"
proof -
  obtain r' b' where "op_get ops k (mg_backend m) = (r', b')" by fastforce
  with get_keeps[OF assms(1) this] assms show ?thesis
    by (auto simp: conflict_check_def split: option.splits sum.splits store_error.splits if_splits)
qed

lemma manager_put_map:
  assumes "inv (mg_backend m)" "coherent ops content admissible m" "admissible k"
    and "manager_put ops k v m = (Inr u, m')"
  shows "inv (mg_backend m') \<and> coherent ops content admissible m' \<and>
    (\<exists>w. content (mg_backend m') = (content (mg_backend m))(k \<mapsto> w) \<and> op_equivalent ops k w v) \<and>
    omap_get (dk_files (mg_spool m')) k = Some v \<and>
    omap_get (dk_files (mg_pending m')) k = None"
proof -
  have norm: "normalize_key k = Inr k" using assms(3) by (rule admissible_normal)
  obtain b where c: "conflict_check ops k m = (Inr (), b)"
    using assms(4) norm by (auto simp: manager_put_def split: sum.splits prod.splits)
  note cc = conflict_check_map[OF assms(1,3) c]
  obtain b' where p: "op_put ops k v b = (Inr (), b')"
    using assms(4) norm c by (auto simp: manager_put_def split: sum.splits prod.splits)
  obtain w where b': "inv b'" "content b' = (content b)(k \<mapsto> w)" "op_equivalent ops k w v"
    using put_law[OF _ assms(3) p] cc by blast
  obtain d where s: "write_spool k v (mg_spool m) = (Inr (), d)"
    using assms(4) norm c p by (auto simp: manager_put_def split: sum.splits prod.splits)
  obtain q where q: "remove_file k (mg_pending m) = (Inr u, q)"
    and m': "m' = m\<lparr>mg_backend := b', mg_spool := d, mg_pending := q\<rparr>"
    using assms(4) norm c p s by (auto simp: manager_put_def split: prod.splits)
  have "coherent ops content admissible (m\<lparr>mg_backend := b', mg_spool := d\<rparr>)"
    by (rule coherent_store[OF assms(2) b'(1) s]) (use b' cc in auto)
  then have "coherent ops content admissible m'" unfolding m' by (simp add: coherent_def)
  moreover have "omap_get (dk_files q) k = None"
    using q by (auto simp: remove_file_def omap_contains_def split: if_splits)
  ultimately show ?thesis using b' cc m' write_spool_stores[OF s] by auto
qed

text \<open>A write the backend refused leaves backend and spool alone and is kept for recovery.\<close>

lemma manager_put_refused:
  assumes "inv (mg_backend m)" "admissible k" "conflict_check ops k m = (Inr (), b)"
    and "op_put ops k v b = (Inl e, b')" "manager_put ops k v m = (r, m')"
  shows "content (mg_backend m') = content (mg_backend m)" "mg_spool m' = mg_spool m"
    "mg_pending m' = snd (local_put k v (mg_pending m))"
    "r = (case local_put k v (mg_pending m) of (Inl e', _) \<Rightarrow> Inl e' | (Inr _, _) \<Rightarrow> Inl e)"
proof -
  have norm: "normalize_key k = Inr k" using assms(2) by (rule admissible_normal)
  have c: "inv b" "content b = content (mg_backend m)" using conflict_check_map[OF assms(1,2,3)] by simp_all
  have "content b' = content b" using put_fails[OF c(1) assms(2,4)] by simp
  then show "content (mg_backend m') = content (mg_backend m)" "mg_spool m' = mg_spool m"
    "mg_pending m' = snd (local_put k v (mg_pending m))"
    "r = (case local_put k v (mg_pending m) of (Inl e', _) \<Rightarrow> Inl e' | (Inr _, _) \<Rightarrow> Inl e)"
    using assms(3,4,5) norm c(2) by (auto simp: manager_put_def split: sum.splits prod.splits)
qed

lemma manager_delete_map:
  assumes "inv (mg_backend m)" "coherent ops content admissible m" "admissible k"
    and "manager_delete ops k m = (Inr u, m')"
  shows "inv (mg_backend m') \<and> coherent ops content admissible m' \<and>
    content (mg_backend m') = (content (mg_backend m))(k := None)"
proof -
  have norm: "normalize_key k = Inr k" using assms(3) by (rule admissible_normal)
  obtain b where del: "op_delete ops k (mg_backend m) = (Inr (), b)"
    using assms(4) norm by (auto simp: manager_delete_def split: sum.splits prod.splits)
  note law = delete_law[OF assms(1,3) del]
  obtain p where p: "remove_file k (mg_pending m) = (Inr (), p)"
    using assms(4) norm del by (auto simp: manager_delete_def split: sum.splits prod.splits)
  obtain d where d: "remove_file k (mg_spool m) = (Inr u, d)"
    and m': "m' = m\<lparr>mg_backend := b, mg_pending := p, mg_spool := d\<rparr>"
    using assms(4) norm del p by (auto simp: manager_delete_def split: prod.splits)
  have ok: "omap_ok (dk_files (mg_spool m))" using assms(2) by (simp add: coherent_def)
  have "coherent ops content admissible m'"
    using assms(2) law remove_file_effect(1,3)[OF d ok]
    by (auto simp: coherent_def m' split: if_splits)
  then show ?thesis using law m' by simp
qed

lemma manager_step_map:
  assumes "\<And>k x y. op_equivalent ops k x y \<Longrightarrow> x = y"
    and "inv (mg_backend m)" "coherent ops content admissible m" "admissible (cmd_key c)"
    and "manager_step ops c m = (Inr v, m')"
  shows "inv (mg_backend m') \<and> coherent ops content admissible m' \<and>
    map_step c (content (mg_backend m)) = (v, content (mg_backend m'))"
proof (cases c)
  case (GetCmd k)
  then show ?thesis using manager_get_map[OF assms(2,3), of k] assms(4,5) by auto
next
  case (PutCmd k x)
  then obtain u where put: "manager_put ops k x m = (Inr u, m')" and v: "v = None"
    using assms(5) by (auto simp: map_prod_def split: prod.splits)
  have "admissible k" using assms(4) PutCmd by simp
  from manager_put_map[OF assms(2,3) this put] obtain w where "inv (mg_backend m')"
    "coherent ops content admissible m'" "content (mg_backend m') = (content (mg_backend m))(k \<mapsto> w)"
    "op_equivalent ops k w x" by blast
  then show ?thesis using PutCmd v assms(1)[of k w x] by simp
next
  case (DeleteCmd k)
  then obtain u where "manager_delete ops k m = (Inr u, m')" "v = None"
    using assms(5) by (auto simp: map_prod_def split: prod.splits)
  then show ?thesis using DeleteCmd manager_delete_map[OF assms(2,3), of k] assms(4) by auto
qed

text \<open>Synchronisation: what is fetched is the backend's content, and the spool ends up with it.\<close>

lemma fetch_snapshot_keeps:
  assumes "inv b" "fetch_snapshot ops spool keys b = (r, b')"
  shows "inv b' \<and> content b' = content b"
  using assms
proof (induction keys arbitrary: b r b')
  case Nil
  then show ?case by simp
next
  case (Cons key keys)
  show ?case
  proof (cases "normalize_key key")
    case (Inl e)
    then show ?thesis using Cons.prems by simp
  next
    case (Inr k)
    obtain g b1 where g: "op_get ops k b = (g, b1)" by fastforce
    obtain r2 b2 where f: "fetch_snapshot ops spool keys b1 = (r2, b2)" by fastforce
    note k1 = get_keeps[OF Cons.prems(1) g]
    have "inv b2 \<and> content b2 = content b1" using k1 Cons.IH[OF _ f] by simp
    moreover have "b' = b1 \<or> b' = b2"
      using Cons.prems(2) Inr g f by (auto split: sum.splits option.splits if_splits)
    ultimately show ?thesis using k1 by auto
  qed
qed

lemma fetch_snapshot_content:
  assumes "inv b" "fetch_snapshot ops spool keys b = (Inr snap, b')"
  shows "(k, data) \<in> set snap \<Longrightarrow> admissible k \<Longrightarrow> content b k = Some data"
    "key \<in> set keys \<Longrightarrow> normalize_key key = Inr k \<Longrightarrow> k \<in> fst ` set snap"
proof -
  have "((k, data) \<in> set snap \<longrightarrow> admissible k \<longrightarrow> content b k = Some data) \<and>
    (key \<in> set keys \<longrightarrow> normalize_key key = Inr k \<longrightarrow> k \<in> fst ` set snap)"
    using assms
  proof (induction keys arbitrary: b snap)
    case Nil
    then show ?case by simp
  next
    case (Cons key' keys)
    then obtain k' data' b1 snap' where s: "normalize_key key' = Inr k'" "op_get ops k' b = (Inr (Some data'), b1)"
      "fetch_snapshot ops spool keys b1 = (Inr snap', b')" "snap = (k', data') # snap'"
      by (auto split: sum.splits option.splits prod.splits if_splits)
    note k1 = get_keeps[OF Cons.prems(1) s(2)]
    have "admissible k' \<Longrightarrow> content b k' = Some data'" using get_law[OF Cons.prems(1) _ s(2)] by simp
    then show ?case using Cons.IH[OF _ s(3)] k1 s(1,4) by auto
  qed
  then show "(k, data) \<in> set snap \<Longrightarrow> admissible k \<Longrightarrow> content b k = Some data"
    "key \<in> set keys \<Longrightarrow> normalize_key key = Inr k \<Longrightarrow> k \<in> fst ` set snap" by blast+
qed

lemma fetch_snapshot_agrees:
  assumes "fetch_snapshot ops spool keys b = (Inr snap, b')" "key \<in> set keys" "normalize_key key = Inr k"
    and "omap_get (dk_files spool) k = Some s"
  shows "\<exists>data. (k, data) \<in> set snap \<and> op_equivalent ops k s data"
  using assms(1,2)
proof (induction keys arbitrary: b snap)
  case Nil
  then show ?case by simp
next
  case (Cons key' keys)
  from Cons.prems(1) obtain k' data' b1 snap' where s: "normalize_key key' = Inr k'"
    "op_get ops k' b = (Inr (Some data'), b1)" "fetch_snapshot ops spool keys b1 = (Inr snap', b')"
    "snap = (k', data') # snap'"
    "case omap_get (dk_files spool) k' of None \<Rightarrow> True | Some s \<Rightarrow> op_equivalent ops k' s data'"
    by (auto split: sum.splits option.splits prod.splits if_splits)
  then show ?case using Cons.IH[OF s(3)] Cons.prems(2) assms(3,4) by auto
qed

lemma write_snapshot_content:
  assumes "write_snapshot snap d = (Inr u, d')" "omap_ok (dk_files d)" "local_admissible (dk_pid d) k"
    and "\<And>data. (k, data) \<in> set snap \<Longrightarrow> data = x"
  shows "omap_ok (dk_files d') \<and> omap_get (dk_files d') k = (if k \<in> fst ` set snap then Some x else omap_get (dk_files d) k)"
  using assms
proof (induction snap arbitrary: d)
  case Nil
  then show ?case by simp
next
  case (Cons e snap)
  obtain h y where e: "e = (h, y)" by fastforce
  obtain d1 where w: "write_spool h y d = (Inr (), d1)" and r: "write_snapshot snap d1 = (Inr u, d')"
    using Cons.prems(1) e by (auto split: sum.splits prod.splits)
  note w1 = write_spool_effect[OF w Cons.prems(2)]
  have "k \<noteq> temp_path (dk_pid d) h" using Cons.prems(3) by auto
  note w3 = w1(3)[OF this]
  have "local_admissible (dk_pid d1) k" using Cons.prems(3) w1(2) by simp
  from Cons.IH[OF r w1(1) this] Cons.prems(4) w3 e show ?case by auto
qed

lemma sync_map:
  assumes "inv (mg_backend m)" "omap_ok (dk_files (mg_spool m))"
    and "sync_all_to_spool ops m = (Inr u, m')" "admissible k" "local_admissible (dk_pid (mg_spool m)) k"
  shows "inv (mg_backend m') \<and> content (mg_backend m') = content (mg_backend m) \<and>
    omap_get (dk_files (mg_spool m')) k = content (mg_backend m) k"
proof -
  obtain l b0 where l: "op_list ops [] (mg_backend m) = (l, b0)" by fastforce
  obtain keys where keys: "l = Inr keys"
    using assms(3) l by (cases l) (auto simp: sync_all_to_spool_def manager_list_def normalize_prefix_def)
  have ll: "inv b0" "content b0 = content (mg_backend m)"
    "\<And>h. content (mg_backend m) h \<noteq> None \<Longrightarrow> h \<in> set keys"
    using list_law[OF assms(1) _ l] keys by (simp_all add: normalize_prefix_def starts_with_def)
  obtain snap b where f: "fetch_snapshot ops (mg_spool m) keys b0 = (Inr snap, b)"
    using assms(3) l keys
    by (auto simp: sync_all_to_spool_def manager_list_def normalize_prefix_def split: sum.splits prod.splits)
  obtain d where w: "write_snapshot snap (mg_spool m) = (Inr (), d)"
    and m': "m' = m\<lparr>mg_backend := b, mg_spool := drop_unlisted keys d\<rparr>"
    using assms(3) l keys f
    by (auto simp: sync_all_to_spool_def manager_list_def normalize_prefix_def split: sum.splits prod.splits)
  note keeps = fetch_snapshot_keeps[OF ll(1) f]
  have norm: "normalize_key k = Inr k" using assms(4) by (rule admissible_normal)
  have fetched: "content (mg_backend m) k = Some data" if "(k, data) \<in> set snap" for data
    using fetch_snapshot_content(1)[OF ll(1) f that assms(4)] ll(2) by simp
  then have wr: "omap_ok (dk_files d)" "omap_get (dk_files d) k =
      (if k \<in> fst ` set snap then content (mg_backend m) k else omap_get (dk_files (mg_spool m)) k)"
    using write_snapshot_content[OF w assms(2,5), of "the (content (mg_backend m) k)"] by auto
  have no_backslash: "CHR 0x5C \<notin> set k" using assms(5) by (simp add: local_admissible_def)
  have "omap_get (dk_files (drop_unlisted keys d)) k = (if k \<in> set keys then omap_get (dk_files d) k else None)"
    unfolding drop_unlisted_def using omap_get_retain_key[of "\<lambda>k. replace_char (CHR 0x5C) slash k \<in> set keys"]
    by (simp add: replace_char_id[OF no_backslash])
  moreover have "k \<in> set keys \<Longrightarrow> k \<in> fst ` set snap" by (rule fetch_snapshot_content(2)[OF ll(1) f _ norm])
  moreover have "content (mg_backend m) k = None" if "k \<notin> set keys" using ll(3) that by blast
  ultimately have "omap_get (dk_files (mg_spool m')) k = content (mg_backend m) k"
    using wr(2) m' by simp
  then show ?thesis using keeps ll(2) m' by simp
qed

text \<open>A file of the spool that differs from the backend stops the synchronisation.\<close>

lemma sync_refused:
  assumes "inv (mg_backend m)" "admissible k" "omap_get (dk_files (mg_spool m)) k = Some s"
    and "content (mg_backend m) k = Some r" "\<not> op_equivalent ops k s r"
    and "sync_all_to_spool ops m = (res, m')"
  shows "(\<exists>e. res = Inl e) \<and> mg_spool m' = mg_spool m \<and> content (mg_backend m') = content (mg_backend m)"
proof -
  obtain l b0 where l: "op_list ops [] (mg_backend m) = (l, b0)" by fastforce
  have ll: "inv b0" "content b0 = content (mg_backend m)"
    using list_law[OF assms(1) _ l] by (simp_all add: normalize_prefix_def)
  show ?thesis
  proof (cases l)
    case (Inl e)
    then show ?thesis
      using assms(6) l ll by (auto simp: sync_all_to_spool_def manager_list_def normalize_prefix_def)
  next
    case (Inr keys)
    have k: "k \<in> set keys"
      using list_law[OF assms(1) _ l] Inr assms(4) by (simp add: normalize_prefix_def starts_with_def)
    obtain f b where f: "fetch_snapshot ops (mg_spool m) keys b0 = (f, b)" by fastforce
    have "\<exists>e. f = Inl e"
    proof (cases f)
      case (Inr snap)
      from fetch_snapshot_agrees[OF f[unfolded Inr] k admissible_normal[OF assms(2)] assms(3)]
      obtain data where "(k, data) \<in> set snap" "op_equivalent ops k s data" by blast
      with fetch_snapshot_content(1)[OF ll(1) f[unfolded Inr]] assms(2,4,5) ll(2) have False by auto
      then show ?thesis ..
    qed simp
    then show ?thesis
      using assms(6) l Inr f fetch_snapshot_keeps[OF ll(1) f] ll(2)
      by (auto simp: sync_all_to_spool_def manager_list_def normalize_prefix_def)
  qed
qed

lemma manager_run_map:
  assumes "\<And>k x y. op_equivalent ops k x y \<Longrightarrow> x = y"
    and "inv (mg_backend m)" "coherent ops content admissible m" "list_all (admissible \<circ> cmd_key) cs"
    and "manager_run ops cs m = (Inr vs, m')"
  shows "map_run cs (content (mg_backend m)) = (vs, content (mg_backend m'))"
  using assms(2-5)
proof (induction cs arbitrary: m vs)
  case Nil
  then show ?case by simp
next
  case (Cons c cs)
  from Cons.prems(4) obtain v m1 vs' where s: "manager_step ops c m = (Inr v, m1)"
    and r: "manager_run ops cs m1 = (Inr vs', m')" "vs = v # vs'"
    by (auto split: prod.splits sum.splits)
  have "admissible (cmd_key c)" using Cons.prems(3) by simp
  from manager_step_map[OF assms(1) Cons.prems(1,2) this s] Cons.IH[of m1 vs'] Cons.prems(3) r
  show ?case by simp
qed

end

section \<open>Operations succeed on a healthy disk\<close>

text \<open>
  Keys that can all be files of one tree: none is a directory above another, and neither is a
  temporary file. A disk is calm when it holds such keys only and no write fault lies ahead.
\<close>

definition tree_keys :: "nat \<Rightarrow> string set \<Rightarrow> bool" where
  "tree_keys pid K \<longleftrightarrow>
     (\<forall>k \<in> K. \<forall>h \<in> K. k \<notin> set (ancestors h) \<and> temp_path pid k \<notin> set (ancestors h))"

definition calm :: "nat \<Rightarrow> string set \<Rightarrow> disk \<Rightarrow> bool" where
  "calm pid K d \<longleftrightarrow> dk_faults d = [] \<and> dk_pid d = pid \<and> omap_ok (dk_files d) \<and>
     fst ` set (dk_files d) \<subseteq> K \<and> set (dk_dirs d) \<subseteq> (\<Union>h \<in> K. set (ancestors h))"

lemma calm_new [simp]: "calm pid K (disk_new pid [])"
  by (simp add: calm_def disk_new_def)

lemma calm_structure:
  assumes "calm pid K d" "tree_keys pid K" "k \<in> K"
  shows "\<not> under_file d k" "k \<notin> set (dk_dirs d)" "temp_path pid k \<notin> set (dk_dirs d)"
  using assms by (auto simp: calm_def tree_keys_def under_file_def list_ex_iff omap_contains_iff)

lemma calm_read: "calm pid K d \<Longrightarrow> tree_keys pid K \<Longrightarrow> k \<in> K \<Longrightarrow> read_file k d = Inr (omap_get (dk_files d) k)"
  using calm_structure[of pid K d k] by (auto simp: read_file_def split: option.split)

lemma calm_remove:
  assumes "calm pid K d" "tree_keys pid K" "k \<in> K"
  shows "\<exists>d'. remove_file k d = (Inr (), d') \<and> calm pid K d'"
  using calm_structure[OF assms] assms(1) by (auto simp: remove_file_def calm_def omap_remove_def)

lemma calm_atomic_write:
  assumes "calm pid K d" "tree_keys pid K" "k \<in> K"
  shows "\<exists>d'. atomic_write k v d = (Inr (), d') \<and> calm pid K d'"
proof -
  have "fst ` set (omap_insert k v (omap_remove t (dk_files d))) \<subseteq> K" for t
    using assms(1,3) by (auto simp: calm_def omap_remove_def)
  then show ?thesis
    using calm_structure[OF assms] assms(1) by (auto simp: atomic_write_def Let_def next_fault_def calm_def)
qed

lemma calm_create_parents:
  assumes "calm pid K d" "tree_keys pid K" "k \<in> K"
  shows "\<exists>d'. create_parents k d = (Inr (), d') \<and> calm pid K d'"
  using calm_structure[OF assms] assms(1,3) by (auto simp: create_parents_def calm_def)

lemma calm_write_spool:
  assumes "calm pid K d" "tree_keys pid K" "k \<in> K"
  shows "\<exists>d'. write_spool k v d = (Inr (), d') \<and> calm pid K d'"
proof -
  obtain d1 where c: "create_parents k d = (Inr (), d1)" "calm pid K d1" using calm_create_parents[OF assms] by blast
  with calm_atomic_write[OF c(2) assms(2,3), of v] show ?thesis by (auto simp: write_spool_def)
qed

lemma calm_local_put:
  assumes "calm pid K d" "tree_keys pid K" "k \<in> K" "canonical_key k"
  shows "\<exists>d'. local_put k v d = (Inr (), d') \<and> calm pid K d'"
proof -
  obtain d1 where c: "create_parents k d = (Inr (), d1)" "calm pid K d1" using calm_create_parents[OF assms(1-3)] by blast
  with calm_atomic_write[OF c(2) assms(2,3), of v] assms(4) show ?thesis
    by (auto simp: local_put_def canonical_key_def)
qed

definition calm_manager :: "nat \<Rightarrow> nat \<Rightarrow> string set \<Rightarrow> disk storage_manager \<Rightarrow> bool" where
  "calm_manager pid spid K m \<longleftrightarrow>
     calm pid K (mg_backend m) \<and> calm spid K (mg_spool m) \<and> calm spid K (mg_pending m)"

lemma calm_manager_parts:
  assumes "calm_manager pid spid K m"
  shows "calm pid K (mg_backend m)" "calm spid K (mg_spool m)" "calm spid K (mg_pending m)"
  using assms by (simp_all add: calm_manager_def)

lemma calm_local_get:
  "calm pid K b \<Longrightarrow> tree_keys pid K \<Longrightarrow> k \<in> K \<Longrightarrow> canonical_key k \<Longrightarrow>
   local_get k b = (Inr (omap_get (dk_files b) k), b)"
  by (simp add: local_get_def canonical_key_def calm_read)

lemma calm_get:
  assumes "calm_manager pid spid K m" "tree_keys pid K" "tree_keys spid K" "k \<in> K" "canonical_key k"
  shows "\<exists>v m'. manager_get local_store k m = (Inr v, m') \<and> calm_manager pid spid K m'"
proof (cases "omap_get (dk_files (mg_backend m)) k")
  case None
  then show ?thesis
    using assms calm_local_get[OF calm_manager_parts(1)[OF assms(1)] assms(2,4,5)]
      calm_read[OF calm_manager_parts(2)[OF assms(1)] assms(3,4)]
    by (simp add: manager_get_steps local_store_def canonical_key_def)
next
  case (Some x)
  obtain d where "write_spool k x (mg_spool m) = (Inr (), d)" "calm spid K d"
    using calm_write_spool[OF calm_manager_parts(2)[OF assms(1)] assms(3,4)] by blast
  then show ?thesis
    using Some assms calm_local_get[OF calm_manager_parts(1)[OF assms(1)] assms(2,4,5)]
    by (simp add: manager_get_steps local_store_def canonical_key_def calm_manager_def)
qed

lemma coherent_no_conflict:
  assumes "coherent local_store (local_content pid) (local_admissible pid) m" "local_admissible pid k"
    and "local_get k (mg_backend m) = (Inr (omap_get (dk_files (mg_backend m)) k), mg_backend m)"
  shows "conflict_check local_store k m = (Inr (), mg_backend m)"
  using coherentD[OF assms(1,2)] assms(3)
  by (auto simp: conflict_check_def local_store_def same_bytes_def local_content_def
      split: option.split if_splits)

lemma calm_put:
  assumes "calm_manager pid spid K m" "tree_keys pid K" "tree_keys spid K" "k \<in> K"
    and "coherent local_store (local_content pid) (local_admissible pid) m" "local_admissible pid k"
  shows "\<exists>m'. manager_put local_store k v m = (Inr (), m') \<and> calm_manager pid spid K m'"
proof -
  note parts = calm_manager_parts[OF assms(1)]
  have canon: "canonical_key k" using assms(6) by (simp add: local_admissible_def)
  have "conflict_check local_store k m = (Inr (), mg_backend m)"
    using assms(5,6) calm_local_get[OF parts(1) assms(2,4) canon] by (rule coherent_no_conflict)
  moreover obtain b' where "local_put k v (mg_backend m) = (Inr (), b')" "calm pid K b'"
    using calm_local_put[OF parts(1) assms(2,4) canon] by blast
  moreover obtain d where "write_spool k v (mg_spool m) = (Inr (), d)" "calm spid K d"
    using calm_write_spool[OF parts(2) assms(3,4)] by blast
  moreover obtain p where "remove_file k (mg_pending m) = (Inr (), p)" "calm spid K p"
    using calm_remove[OF parts(3) assms(3,4)] by blast
  ultimately show ?thesis
    using canon by (simp add: manager_put_def local_store_def calm_manager_def canonical_key_def)
qed

lemma calm_delete:
  assumes "calm_manager pid spid K m" "tree_keys pid K" "tree_keys spid K" "k \<in> K" "canonical_key k"
  shows "\<exists>m'. manager_delete local_store k m = (Inr (), m') \<and> calm_manager pid spid K m'"
proof -
  note parts = calm_manager_parts[OF assms(1)]
  obtain b' where "remove_file k (mg_backend m) = (Inr (), b')" "calm pid K b'"
    using calm_remove[OF parts(1) assms(2,4)] by blast
  moreover obtain d where "remove_file k (mg_spool m) = (Inr (), d)" "calm spid K d"
    using calm_remove[OF parts(2) assms(3,4)] by blast
  moreover obtain p where "remove_file k (mg_pending m) = (Inr (), p)" "calm spid K p"
    using calm_remove[OF parts(3) assms(3,4)] by blast
  ultimately show ?thesis
    using assms(5)
    by (simp add: manager_delete_def local_store_def local_delete_def calm_manager_def canonical_key_def)
qed

lemma calm_step:
  assumes "calm_manager pid spid K m" "tree_keys pid K" "tree_keys spid K"
    and "coherent local_store (local_content pid) (local_admissible pid) m"
    and "local_admissible pid (cmd_key c)" "cmd_key c \<in> K"
  shows "\<exists>v m'. manager_step local_store c m = (Inr v, m') \<and> calm_manager pid spid K m'"
proof -
  have canon: "canonical_key (cmd_key c)" using assms(5) by (simp add: local_admissible_def)
  show ?thesis
  proof (cases c)
    case (GetCmd k)
    then show ?thesis using calm_get[OF assms(1-3), of k] canon assms(6) by simp
  next
    case (PutCmd k v)
    then obtain m' where "manager_put local_store k v m = (Inr (), m')" "calm_manager pid spid K m'"
      using calm_put[OF assms(1-3) _ assms(4), of k v] assms(5,6) by auto
    then show ?thesis using PutCmd by simp
  next
    case (DeleteCmd k)
    then obtain m' where "manager_delete local_store k m = (Inr (), m')" "calm_manager pid spid K m'"
      using calm_delete[OF assms(1-3), of k] canon assms(6) by auto
    then show ?thesis using DeleteCmd by simp
  qed
qed

lemma local_equivalent_exact: "op_equivalent local_store k x y \<Longrightarrow> x = y"
  by (simp add: local_store_def same_bytes_def)

lemma calm_run:
  assumes "tree_keys pid K" "tree_keys spid K"
    and "calm_manager pid spid K m" "coherent local_store (local_content pid) (local_admissible pid) m"
    and "local_inv pid (mg_backend m)"
    and "list_all (local_admissible pid \<circ> cmd_key) cs" "cmd_key ` set cs \<subseteq> K"
  shows "\<exists>vs m'. manager_run local_store cs m = (Inr vs, m')"
  using assms(3-7)
proof (induction cs arbitrary: m)
  case Nil
  then show ?case by simp
next
  case (Cons c cs)
  have adm: "local_admissible pid (cmd_key c)" "cmd_key c \<in> K" using Cons.prems(4,5) by simp_all
  obtain v m1 where s: "manager_step local_store c m = (Inr v, m1)" "calm_manager pid spid K m1"
    using calm_step[OF Cons.prems(1) assms(1,2) Cons.prems(2) adm] by blast
  have "local_inv pid (mg_backend m1)" "coherent local_store (local_content pid) (local_admissible pid) m1"
    using local_kv.manager_step_map[OF local_equivalent_exact Cons.prems(3,2) adm(1) s(1)] by simp_all
  then obtain vs m' where "manager_run local_store cs m1 = (Inr vs, m')"
    using Cons.IH[OF s(2)] Cons.prems(4,5) by auto
  then show ?case using s(1) by simp
qed

lemma manager_new_start:
  "local_inv pid (mg_backend (manager_new spid sf pf (disk_new pid bf)))"
  "coherent local_store (local_content pid) (local_admissible pid) (manager_new spid sf pf (disk_new pid bf))"
  "local_content pid (mg_backend (manager_new spid sf pf (disk_new pid bf))) = Map.empty"
  "calm_manager pid spid K (manager_new spid [] [] (disk_new pid []))"
  by (simp_all add: manager_new_def disk_new_def local_inv_def coherent_def local_content_def fun_eq_iff
      calm_manager_def calm_def)

text \<open>
  C39. The storage manager over a local store is a map, for operations that do not overlap in
  time and whose keys the local store admits (relative paths in normal form, without a backslash, that
  do not end as a temporary file of the process does). As long as the operations succeed, whatever
  write faults lie ahead, every \<open>get\<close> returns what a map of the keys would, and the store holds
  that map. When no write fault lies ahead and the keys fit into one directory tree, that is no
  key and no key's temporary file is a directory above another key, every operation succeeds.
\<close>

theorem manager_refines_map:
  assumes "list_all (local_admissible pid \<circ> cmd_key) cs"
  shows "(\<forall>vs m'. manager_run local_store cs (manager_new spid sf pf (disk_new pid bf)) = (Inr vs, m') \<longrightarrow>
            map_run cs Map.empty = (vs, local_content pid (mg_backend m'))) \<and>
         (tree_keys pid (cmd_key ` set cs) \<and> tree_keys spid (cmd_key ` set cs) \<longrightarrow>
            (\<exists>vs m'. manager_run local_store cs (manager_new spid [] [] (disk_new pid [])) = (Inr vs, m')))"
proof -
  note start = manager_new_start(1-3)[of pid spid sf pf bf]
  have "map_run cs Map.empty = (vs, local_content pid (mg_backend m'))"
    if "manager_run local_store cs (manager_new spid sf pf (disk_new pid bf)) = (Inr vs, m')" for vs m'
    using local_kv.manager_run_map[OF local_equivalent_exact start(1,2) assms that] start(3) by simp
  moreover have "\<exists>vs m'. manager_run local_store cs (manager_new spid [] [] (disk_new pid [])) = (Inr vs, m')"
    if "tree_keys pid (cmd_key ` set cs)" "tree_keys spid (cmd_key ` set cs)"
    by (rule calm_run[OF that manager_new_start(4) manager_new_start(2) manager_new_start(1) assms]) simp
  ultimately show ?thesis by blast
qed

text \<open>
  Synchronisation never mixes versions. When it succeeds, the spool holds for every
  admissible key exactly what the backend holds; when the spool has a file that differs from
  the backend's version of it, synchronisation fails and leaves spool and backend as they were.
\<close>

theorem sync_all_or_nothing:
  assumes "local_inv pid (mg_backend m)" and "omap_ok (dk_files (mg_spool m))"
    and "local_admissible pid k" and "local_admissible (dk_pid (mg_spool m)) k"
    and "sync_all_to_spool local_store m = (res, m')"
  shows "(res = Inr () \<longrightarrow>
            local_content pid (mg_backend m') = local_content pid (mg_backend m) \<and>
            omap_get (dk_files (mg_spool m')) k = local_content pid (mg_backend m) k) \<and>
         (\<forall>s r. omap_get (dk_files (mg_spool m)) k = Some s \<and> local_content pid (mg_backend m) k = Some r \<and> s \<noteq> r \<longrightarrow>
            (\<exists>e. res = Inl e) \<and> mg_spool m' = mg_spool m \<and>
            local_content pid (mg_backend m') = local_content pid (mg_backend m))"
proof (intro conjI allI impI)
  assume "res = Inr ()"
  from local_kv.sync_map[OF assms(1,2) assms(5)[unfolded this] assms(3,4)]
  show "local_content pid (mg_backend m') = local_content pid (mg_backend m)"
    "omap_get (dk_files (mg_spool m')) k = local_content pid (mg_backend m) k" by simp_all
next
  fix s r
  assume "omap_get (dk_files (mg_spool m)) k = Some s \<and> local_content pid (mg_backend m) k = Some r \<and> s \<noteq> r"
  then have "(\<exists>e. res = Inl e) \<and> mg_spool m' = mg_spool m \<and>
      local_content pid (mg_backend m') = local_content pid (mg_backend m)"
    using local_kv.sync_refused[OF assms(1,3) _ _ _ assms(5), of s r] local_equivalent_exact by blast
  then show "\<exists>e. res = Inl e" "mg_spool m' = mg_spool m"
    "local_content pid (mg_backend m') = local_content pid (mg_backend m)" by simp_all
qed

theorem manager_refines_map_witness:
  "\<exists>m'. manager_run local_store
     [PutCmd ''auths/a.json'' ''x'', GetCmd ''auths/a.json'', DeleteCmd ''auths/a.json'', GetCmd ''auths/a.json'']
     (manager_new 7 [] [] (disk_new 7 [])) = (Inr [None, Some ''x'', None, None], m')"
proof -
  let ?cs = "[PutCmd ''auths/a.json'' ''x'', GetCmd ''auths/a.json'', DeleteCmd ''auths/a.json'', GetCmd ''auths/a.json'']"
  have adm: "list_all (local_admissible 7 \<circ> cmd_key) ?cs" by code_simp
  have tree: "tree_keys 7 (cmd_key ` set ?cs)" by code_simp
  obtain vs m' where run: "manager_run local_store ?cs (manager_new 7 [] [] (disk_new 7 [])) = (Inr vs, m')"
    using manager_refines_map[OF adm, of 7 "[]" "[]" "[]"] tree by blast
  then have "map_run ?cs Map.empty = (vs, local_content 7 (mg_backend m'))"
    using manager_refines_map[OF adm, of 7 "[]" "[]" "[]"] by blast
  then have "vs = [None, Some ''x'', None, None]" by simp
  with run show ?thesis by blast
qed

definition diverged :: "disk storage_manager" where
  "diverged =
     (let d = disk_new 7 []
      in \<lparr>mg_backend = d\<lparr>dk_files := [(''k'', ''new'')]\<rparr>, mg_spool = d\<lparr>dk_files := [(''k'', ''old'')]\<rparr>, mg_pending = d\<rparr>)"

theorem sync_all_or_nothing_witness:
  "\<exists>e m'. sync_all_to_spool local_store diverged = (Inl e, m') \<and> mg_spool m' = mg_spool diverged"
proof -
  obtain res m' where s: "sync_all_to_spool local_store diverged = (res, m')" by fastforce
  have adm: "local_admissible 7 ''k''" by code_simp
  have "local_inv 7 (mg_backend diverged)" "omap_ok (dk_files (mg_spool diverged))" "dk_pid (mg_spool diverged) = 7"
    "omap_get (dk_files (mg_spool diverged)) ''k'' = Some ''old''"
    "local_content 7 (mg_backend diverged) ''k'' = Some ''new''"
    using adm by (simp_all add: diverged_def disk_new_def local_inv_def omap_ok_def local_content_def)
  with sync_all_or_nothing[of 7 diverged "''k''", OF _ _ adm _ s] adm s show ?thesis by auto
qed

section \<open>Behaviour worth knowing\<close>

text \<open>
  A key that disappeared from the backend is still answered from the spool: when another
  instance deletes a key, \<open>get\<close> goes on returning the deleted data.
\<close>

lemma get_returns_deleted_data:
  assumes "canonical_key k" "omap_get (dk_files (mg_spool m)) k = Some old" "omap_get (mg_backend m) k = None"
  shows "manager_get memory_store k m = (Inr (Some old), m)"
  using assms by (simp add: manager_get_steps memory_store_def memory_get_def read_file_def canonical_key_def)

text \<open>
  A spool write that fails after the backend took the data makes the next \<open>put\<close> of the same key
  fail with a conflict, although no other writer was involved.
\<close>

lemma spool_fault_blocks_put:
  assumes "canonical_key k" "omap_get (dk_files (mg_spool m)) k = Some old" "old \<noteq> v"
    and "omap_get (mg_backend m) k = Some v"
  shows "fst (manager_put memory_store k w m) = Inl spool_conflict"
  using assms
  by (simp add: manager_put_def conflict_check_def memory_store_def memory_get_def same_bytes_def canonical_key_def)

text \<open>
  \<open>get\<close> takes no lock, so a \<open>delete\<close> may run between its two steps. The \<open>get\<close> then writes the data it
  read into the spool again, and every later \<open>get\<close> answers the deleted key from there.
\<close>

lemma get_overlapping_delete:
  assumes "canonical_key k" "omap_ok (mg_backend m)" "omap_get (mg_backend m) k = Some v"
    and "get_read memory_store k m = (Inr found, m1)"
    and "manager_delete memory_store k m1 = (Inr (), m2)"
    and "get_answer k found m2 = (Inr answer, m3)"
  shows "answer = Some v \<and> omap_get (mg_backend m3) k = None \<and>
    manager_get memory_store k m3 = (Inr (Some v), m3)"
proof -
  have norm: "normalize_key k = Inr k" using assms(1) by (simp add: canonical_key_def)
  have f: "found = Some v" and m1: "mg_backend m1 = mg_backend m"
    using assms(3,4) by (auto simp: get_read_def memory_store_def memory_get_def)
  have m2: "mg_backend m2 = omap_remove k (mg_backend m)"
    using assms(5) m1 norm
    by (auto simp: manager_delete_def memory_store_def memory_delete_def split: sum.splits prod.splits)
  obtain u d where w: "write_spool k v (mg_spool m2) = (Inr u, d)"
    and a: "answer = Some v" and m3: "m3 = m2\<lparr>mg_spool := d\<rparr>"
    using assms(6) f by (auto simp: get_answer_def split: sum.splits prod.splits)
  have gone: "omap_get (mg_backend m3) k = None" using m3 m2 assms(2) by simp
  have "omap_get (dk_files (mg_spool m3)) k = Some v" using write_spool_stores[OF w] m3 by simp
  from get_returns_deleted_data[OF assms(1) this gone] a gone show ?thesis by simp
qed

end
