(* ===== verification/Store_Postgres.thy ===== *)
theory Store_Postgres
  imports Store_Manager
begin

text \<open>
  \<open>StoreOptions::from_env\<close> and \<open>PostgresStore\<close> of \<^verbatim>\<open>crates/registry/src/store.rs\<close>. The database is its
  three tables as maps; \<open>pg_faults\<close> says of each coming query whether it fails. Third-party code
  is an argument: \<open>jsonb\<close> is the text that PostgreSQL returns for a value stored in a \<open>jsonb\<close> column
  (or its refusal), \<open>json\<close> is the JSON parser, \<open>utf8\<close> and \<open>lossy\<close> the UTF-8 check and the lossy
  decoding.
\<close>

section \<open>Configuration\<close>

datatype backend_config =
    LocalConfig string
  | PostgresConfig string "string option" string
  | GitConfig string string
  | ObjectConfig string string string string string string

definition env_value :: "(string \<Rightarrow> string option) \<Rightarrow> string \<Rightarrow> string option" where
  "env_value env key = (case env key of Some v \<Rightarrow> if trim v = [] then None else Some v | None \<Rightarrow> None)"

definition require_env :: "(string \<Rightarrow> string option) \<Rightarrow> string \<Rightarrow> store_error + string" where
  "require_env env key =
     (case env_value env key of None \<Rightarrow> Inl (InvalidConfig (key @ '' is required'')) | Some v \<Rightarrow> Inr v)"

definition options_from_env :: "(string \<Rightarrow> string option) \<Rightarrow> string \<Rightarrow> store_error + backend_config" where
  "options_from_env env local_root =
     (case env_value env ''PGSTORE_DSN'' of
        Some dsn \<Rightarrow>
          Inr (PostgresConfig dsn (env_value env ''PGSTORE_SCHEMA'')
            (case env_value env ''PGSTORE_LOCAL_PATH'' of Some p \<Rightarrow> p | None \<Rightarrow> path_join local_root ''pgstore''))
      | None \<Rightarrow>
          (case env_value env ''OBJECTSTORE_ENDPOINT'' of
             Some endpoint \<Rightarrow>
               rbind (require_env env ''OBJECTSTORE_BUCKET'') (\<lambda>bucket.
               rbind (require_env env ''OBJECTSTORE_ACCESS_KEY'') (\<lambda>access_key.
               rbind (require_env env ''OBJECTSTORE_SECRET_KEY'') (\<lambda>secret_key.
               Inr (ObjectConfig endpoint bucket access_key secret_key
                 (case env_value env ''OBJECTSTORE_PREFIX'' of Some p \<Rightarrow> p | None \<Rightarrow> [])
                 (case env_value env ''OBJECTSTORE_LOCAL_PATH'' of
                    Some p \<Rightarrow> p | None \<Rightarrow> path_join local_root ''objectstore'')))))
           | None \<Rightarrow>
               (case env_value env ''GITSTORE_LOCAL_PATH'' of
                  Some repository \<Rightarrow> Inr (GitConfig repository (path_join local_root ''gitstore''))
                | None \<Rightarrow> Inr (LocalConfig local_root))))"

section \<open>The database\<close>

record postgres =
  pg_schema :: string
  pg_connected :: bool
  pg_runtime :: bool
  pg_faults :: "bool list"
  pg_config :: "(string, string) omap"
  pg_auth :: "(string, string) omap"
  pg_cooldown :: "(string \<times> string, string \<times> bool) omap"

definition full_table_name :: "postgres \<Rightarrow> string \<Rightarrow> string" where
  "full_table_name pg name =
     (let quote = [CHR 0x22]
      in if trim (pg_schema pg) = [] \<or> pg_schema pg = ''public'' then quote @ name @ quote
         else quote @ pg_schema pg @ quote @ ''.'' @ quote @ name @ quote)"

text \<open>Table of a key: \<open>True\<close> is the JSON table of credentials, \<open>False\<close> the configuration table.\<close>

definition route_table :: "string \<Rightarrow> bool" where
  "route_table key \<longleftrightarrow> \<not> (key = ''config/config.yaml'' \<or> starts_with ''config/'' key)"

definition pg_pool :: "postgres \<Rightarrow> store_error + unit" where
  "pg_pool pg = (if pg_connected pg then Inr () else Inl (Unavailable ''database error''))"

definition pg_handle :: "postgres \<Rightarrow> store_error + unit" where
  "pg_handle pg = (if pg_runtime pg then Inr () else Inl (Unavailable ''tokio runtime required''))"

text \<open>One query: it fails when the next fault says so.\<close>

definition pg_query :: "postgres \<Rightarrow> bool \<times> postgres" where
  "pg_query pg =
     (case pg_faults pg of [] \<Rightarrow> (True, pg) | f # fs \<Rightarrow> (\<not> f, pg\<lparr>pg_faults := fs\<rparr>))"

definition pg_error :: store_error where
  "pg_error = Database ''database error''"

definition pg_equivalent :: "(string \<Rightarrow> 'j option) \<Rightarrow> string \<Rightarrow> string \<Rightarrow> string \<Rightarrow> bool" where
  "pg_equivalent json key left right =
     (if \<not> route_table key then left = right
      else case (json left, json right) of (Some l, Some r) \<Rightarrow> l = r | _ \<Rightarrow> False)"

definition pg_table :: "postgres \<Rightarrow> bool \<Rightarrow> (string, string) omap" where
  "pg_table pg is_json = (if is_json then pg_auth pg else pg_config pg)"

definition pg_set_table :: "bool \<Rightarrow> (string, string) omap \<Rightarrow> postgres \<Rightarrow> postgres" where
  "pg_set_table is_json t pg = (if is_json then pg\<lparr>pg_auth := t\<rparr> else pg\<lparr>pg_config := t\<rparr>)"

definition pg_get :: "string \<Rightarrow> postgres \<Rightarrow> (store_error + string option) \<times> postgres" where
  "pg_get key pg =
     (case rbind (normalize_key key) (\<lambda>k. rbind (pg_pool pg) (\<lambda>_. rbind (pg_handle pg) (\<lambda>_. Inr k))) of
        Inl e \<Rightarrow> (Inl e, pg)
      | Inr k \<Rightarrow>
          (case pg_query pg of
             (False, pg') \<Rightarrow> (Inl pg_error, pg')
           | (True, pg') \<Rightarrow> (Inr (omap_get (pg_table pg' (route_table k)) k), pg')))"

definition pg_put ::
  "(string \<Rightarrow> bool) \<Rightarrow> (string \<Rightarrow> string option) \<Rightarrow> string \<Rightarrow> string \<Rightarrow> postgres \<Rightarrow> (store_error + unit) \<times> postgres" where
  "pg_put utf8 jsonb key value pg =
     (case rbind (normalize_key key) (\<lambda>k. rbind (pg_pool pg) (\<lambda>_.
             if \<not> utf8 value then Inl (Serialization ''utf-8'')
             else rbind (pg_handle pg) (\<lambda>_. Inr k))) of
        Inl e \<Rightarrow> (Inl e, pg)
      | Inr k \<Rightarrow>
          (case pg_query pg of
             (False, pg') \<Rightarrow> (Inl pg_error, pg')
           | (True, pg') \<Rightarrow>
               let is_json = route_table k
               in case (if is_json then jsonb value else Some value) of
                    None \<Rightarrow> (Inl pg_error, pg')
                  | Some stored \<Rightarrow>
                      (Inr (), pg_set_table is_json (omap_insert k stored (pg_table pg' is_json)) pg')))"

definition pg_delete :: "string \<Rightarrow> postgres \<Rightarrow> (store_error + unit) \<times> postgres" where
  "pg_delete key pg =
     (case rbind (normalize_key key) (\<lambda>k. rbind (pg_pool pg) (\<lambda>_. rbind (pg_handle pg) (\<lambda>_. Inr k))) of
        Inl e \<Rightarrow> (Inl e, pg)
      | Inr k \<Rightarrow>
          (case pg_query pg of
             (False, pg') \<Rightarrow> (Inl pg_error, pg')
           | (True, pg') \<Rightarrow>
               let is_json = route_table k
               in (Inr (), pg_set_table is_json (omap_remove k (pg_table pg' is_json)) pg')))"

definition pg_list :: "string \<Rightarrow> postgres \<Rightarrow> (store_error + string list) \<times> postgres" where
  "pg_list pre pg =
     (case rbind (normalize_prefix pre) (\<lambda>p. rbind (pg_pool pg) (\<lambda>_. rbind (pg_handle pg) (\<lambda>_. Inr p))) of
        Inl e \<Rightarrow> (Inl e, pg)
      | Inr p \<Rightarrow>
          (case pg_query pg of
             (False, pg1) \<Rightarrow> (Inl pg_error, pg1)
           | (True, pg1) \<Rightarrow>
               (case pg_query pg1 of
                  (False, pg2) \<Rightarrow> (Inl pg_error, pg2)
                | (True, pg2) \<Rightarrow>
                    (Inr (sort (filter (starts_with p) (omap_keys (pg_config pg1) @ omap_keys (pg_auth pg2)))), pg2))))"

definition save_cooldown ::
  "(string \<Rightarrow> string) \<Rightarrow> (string \<Rightarrow> string option) \<Rightarrow> string \<Rightarrow> string \<Rightarrow> string \<Rightarrow> bool \<Rightarrow> postgres \<Rightarrow>
   (store_error + unit) \<times> postgres" where
  "save_cooldown lossy jsonb auth_id model content deleted pg =
     (case rbind (pg_pool pg) (\<lambda>_. pg_handle pg) of
        Inl e \<Rightarrow> (Inl e, pg)
      | Inr _ \<Rightarrow>
          (case pg_query pg of
             (False, pg') \<Rightarrow> (Inl pg_error, pg')
           | (True, pg') \<Rightarrow>
               (case jsonb (lossy content) of
                  None \<Rightarrow> (Inl pg_error, pg')
                | Some stored \<Rightarrow>
                    (Inr (), pg'\<lparr>pg_cooldown := omap_insert (auth_id, model) (stored, deleted) (pg_cooldown pg')\<rparr>))))"

definition load_cooldowns :: "postgres \<Rightarrow> (store_error + (string \<times> string \<times> string) list) \<times> postgres" where
  "load_cooldowns pg =
     (case rbind (pg_pool pg) (\<lambda>_. pg_handle pg) of
        Inl e \<Rightarrow> (Inl e, pg)
      | Inr _ \<Rightarrow>
          (case pg_query pg of
             (False, pg') \<Rightarrow> (Inl pg_error, pg')
           | (True, pg') \<Rightarrow>
               (Inr (map (\<lambda>((auth_id, model), (stored, _)). (auth_id, model, stored))
                       (filter (\<lambda>(_, (_, deleted)). \<not> deleted) (pg_cooldown pg'))), pg')))"

definition postgres_store ::
  "(string \<Rightarrow> bool) \<Rightarrow> (string \<Rightarrow> string option) \<Rightarrow> (string \<Rightarrow> 'j option) \<Rightarrow> postgres storage_backend" where
  "postgres_store utf8 jsonb json =
     \<lparr>op_equivalent = pg_equivalent json, op_get = pg_get, op_put = pg_put utf8 jsonb, op_delete = pg_delete,
      op_list = pg_list\<rparr>"

section \<open>The contract\<close>

text \<open>What is relied on of the JSON column: what it returns parses to the value that was stored.\<close>

definition jsonb_faithful :: "(string \<Rightarrow> string option) \<Rightarrow> (string \<Rightarrow> 'j option) \<Rightarrow> bool" where
  "jsonb_faithful jsonb json \<longleftrightarrow>
     (\<forall>v w. jsonb v = Some w \<longrightarrow> (\<exists>j. json v = Some j \<and> json w = Some j))"

definition pg_inv :: "(string \<Rightarrow> 'j option) \<Rightarrow> postgres \<Rightarrow> bool" where
  "pg_inv json pg \<longleftrightarrow> omap_ok (pg_config pg) \<and> omap_ok (pg_auth pg) \<and>
     (\<forall>k w. omap_get (pg_auth pg) k = Some w \<longrightarrow> json w \<noteq> None)"

definition pg_content :: "postgres \<Rightarrow> string \<rightharpoonup> string" where
  "pg_content pg k = (if canonical_key k then omap_get (pg_table pg (route_table k)) k else None)"

lemma pg_query_keeps [simp]:
  "pg_query pg = (ok, pg') \<Longrightarrow> pg_config pg' = pg_config pg \<and> pg_auth pg' = pg_auth pg"
  by (auto simp: pg_query_def split: list.splits)

lemma pg_query_content:
  "pg_query pg = (ok, pg') \<Longrightarrow> pg_content pg' = pg_content pg \<and> pg_inv json pg' = pg_inv json pg"
  by (auto dest!: pg_query_keeps simp: pg_content_def pg_table_def pg_inv_def fun_eq_iff)

lemma pg_put_effect:
  assumes "pg_put utf8 jsonb k v pg = (r, pg')" "pg_inv json pg" "canonical_key k" "jsonb_faithful jsonb json"
  shows "pg_inv json pg' \<and> (case r of
      Inl _ \<Rightarrow> pg_content pg' = pg_content pg
    | Inr _ \<Rightarrow> \<exists>w. pg_content pg' = (pg_content pg)(k \<mapsto> w) \<and> pg_equivalent json k w v)"
proof -
  obtain ok pg1 where q: "pg_query pg = (ok, pg1)" by fastforce
  note q1 = pg_query_content[OF q, of json]
  show ?thesis
  proof (cases "\<exists>u. r = Inr u")
    case False
    then have "pg' = pg \<or> pg' = pg1"
      using assms(1) q by (auto simp: pg_put_def Let_def split: sum.splits option.splits bool.splits if_splits)
    then show ?thesis using False q1 assms(2) by (cases r) auto
  next
    case True
    then obtain stored where s: "(if route_table k then jsonb v else Some v) = Some stored"
      and pg': "pg' = pg_set_table (route_table k) (omap_insert k stored (pg_table pg1 (route_table k))) pg1"
      using assms(1,3) q
      by (auto simp: pg_put_def Let_def canonical_key_def split: sum.splits option.splits bool.splits if_splits)
    have "pg_content pg' h = ((pg_content pg)(k \<mapsto> stored)) h" for h
      using assms(3) pg_query_keeps[OF q] pg' by (auto simp: pg_content_def pg_set_table_def pg_table_def)
    then have c: "pg_content pg' = (pg_content pg)(k \<mapsto> stored)" by blast
    have e: "pg_equivalent json k stored v" and j: "route_table k \<Longrightarrow> json stored \<noteq> None"
      using s assms(4)[unfolded jsonb_faithful_def, rule_format, of v stored]
      by (auto simp: pg_equivalent_def split: if_splits)
    have "pg_inv json pg1" using q1 assms(2) by simp
    then have "pg_inv json pg'" using pg' j
      by (auto simp: pg_inv_def pg_set_table_def pg_table_def split: if_splits)
    then show ?thesis using True c e by auto
  qed
qed

lemma pg_list_effect:
  assumes "pg_list p pg = (ks, pg')" "normalize_prefix p = Inr p"
  shows "pg_content pg' = pg_content pg \<and> pg_inv json pg' = pg_inv json pg \<and>
    (\<forall>l k. ks = Inr l \<and> pg_content pg k \<noteq> None \<and> starts_with p k \<longrightarrow> k \<in> set l)"
proof -
  obtain ok1 pg1 where q1: "pg_query pg = (ok1, pg1)" by fastforce
  obtain ok2 pg2 where q2: "pg_query pg1 = (ok2, pg2)" by fastforce
  have "pg' = pg \<or> pg' = pg1 \<or> pg' = pg2"
    using assms(1) q1 q2 by (auto simp: pg_list_def split: sum.splits bool.splits)
  then have "pg_content pg' = pg_content pg \<and> pg_inv json pg' = pg_inv json pg"
    using pg_query_content[OF q1, of json] pg_query_content[OF q2, of json] by auto
  moreover have "k \<in> set l" if "ks = Inr l" "pg_content pg k = Some v" "starts_with p k" for l k v
  proof -
    have "l = sort (filter (starts_with p) (omap_keys (pg_config pg1) @ omap_keys (pg_auth pg2)))"
      using assms that(1) q1 q2 by (auto simp: pg_list_def split: sum.splits bool.splits)
    moreover have "k \<in> set (omap_keys (pg_config pg)) \<union> set (omap_keys (pg_auth pg))"
      using that(2) omap_get_key[of "pg_config pg" k] omap_get_key[of "pg_auth pg" k]
      by (auto simp: pg_content_def pg_table_def split: if_splits)
    ultimately show ?thesis
      using that(3) pg_query_keeps[OF q1] pg_query_keeps[OF q2] by auto
  qed
  ultimately show ?thesis by blast
qed

text \<open>With a faithful JSON column the database keeps the contract of a storage provider.\<close>

lemma postgres_key_value_store:
  assumes "jsonb_faithful jsonb json"
  shows "key_value_store (postgres_store utf8 jsonb json) (pg_inv json) pg_content canonical_key"
proof
  fix b b' k v r and x :: "string option" and u :: unit and e
  let ?ops = "postgres_store utf8 jsonb json"
  show "pg_inv json b \<Longrightarrow> op_get ?ops k b = (r, b') \<Longrightarrow> pg_inv json b' \<and> pg_content b' = pg_content b"
    by (auto simp: postgres_store_def pg_get_def split: sum.splits prod.splits bool.splits dest!: pg_query_content[where json = json])
  show "pg_inv json b \<Longrightarrow> canonical_key k \<Longrightarrow> op_get ?ops k b = (Inr x, b') \<Longrightarrow> x = pg_content b k"
    by (auto simp: postgres_store_def pg_get_def pg_content_def pg_table_def canonical_key_def
        split: sum.splits prod.splits bool.splits dest!: pg_query_keeps)
  show "pg_inv json b \<Longrightarrow> canonical_key k \<Longrightarrow> op_put ?ops k v b = (Inr u, b') \<Longrightarrow>
      pg_inv json b' \<and> (\<exists>w. pg_content b' = (pg_content b)(k \<mapsto> w) \<and> op_equivalent ?ops k w v)"
    using pg_put_effect[OF _ _ _ assms, of utf8 k v b "Inr u" b'] by (simp add: postgres_store_def)
  show "pg_inv json b \<Longrightarrow> canonical_key k \<Longrightarrow> op_put ?ops k v b = (Inl e, b') \<Longrightarrow>
      pg_inv json b' \<and> pg_content b' = pg_content b"
    using pg_put_effect[OF _ _ _ assms, of utf8 k v b "Inl e" b'] by (simp add: postgres_store_def)
  show "pg_inv json b \<Longrightarrow> canonical_key k \<Longrightarrow> op_delete ?ops k b = (Inr u, b') \<Longrightarrow>
      pg_inv json b' \<and> pg_content b' = (pg_content b)(k := None)"
    by (auto simp: postgres_store_def pg_delete_def pg_content_def pg_table_def pg_set_table_def pg_inv_def
        canonical_key_def fun_eq_iff split: sum.splits prod.splits bool.splits if_splits dest!: pg_query_keeps)
  show "pg_inv json b \<Longrightarrow> canonical_key k \<Longrightarrow> op_delete ?ops k b = (Inl e, b') \<Longrightarrow>
      pg_inv json b' \<and> pg_content b' = pg_content b"
    by (auto simp: postgres_store_def pg_delete_def Let_def split: sum.splits prod.splits bool.splits
        dest!: pg_query_content[where json = json])
  show "pg_inv json b \<Longrightarrow> pg_content b k = Some v \<Longrightarrow> op_equivalent ?ops k v v"
    by (auto simp: postgres_store_def pg_equivalent_def pg_inv_def pg_content_def pg_table_def
        split: if_splits option.splits)
next
  fix b b' p ks
  show "pg_inv json b \<Longrightarrow> normalize_prefix p = Inr p \<Longrightarrow>
      op_list (postgres_store utf8 jsonb json) p b = (ks, b') \<Longrightarrow>
      pg_inv json b' \<and> pg_content b' = pg_content b \<and>
      (\<forall>l. ks = Inr l \<longrightarrow> (\<forall>k. pg_content b k \<noteq> None \<and> starts_with p k \<longrightarrow> k \<in> set l))"
    using pg_list_effect[of p b ks b' json] by (auto simp: postgres_store_def)
qed (auto simp: canonical_key_def pg_content_def split: if_splits)

text \<open>
  A manager in front of the database reads back what it wrote, up to the formatting of JSON, and
  its own earlier writes never look like a conflict.
\<close>

lemma postgres_read_own_write:
  fixes utf8 jsonb json
  defines "ops \<equiv> postgres_store utf8 jsonb json"
  assumes "jsonb_faithful jsonb json" "canonical_key k"
    and "pg_inv json (mg_backend m)" "coherent ops pg_content canonical_key m"
    and "manager_put ops k v m = (Inr u, m1)" "manager_get ops k m1 = (Inr x, m2)"
  shows "\<exists>w. x = Some w \<and> pg_equivalent json k w v"
proof -
  have kv: "key_value_store ops (pg_inv json) pg_content canonical_key"
    unfolding ops_def by (rule postgres_key_value_store[OF assms(2)])
  note put = key_value_store.manager_put_map[OF kv assms(4,5,3,6)]
  have "x = pg_content (mg_backend m1) k"
    using key_value_store.manager_get_map[OF kv _ _ assms(3,7)] put by blast
  then show ?thesis using put by (auto simp: ops_def postgres_store_def)
qed

lemma postgres_no_spurious_conflict:
  fixes utf8 jsonb json
  defines "ops \<equiv> postgres_store utf8 jsonb json"
  assumes "jsonb_faithful jsonb json" "canonical_key k"
    and "pg_inv json (mg_backend m)" "coherent ops pg_content canonical_key m"
  shows "fst (conflict_check ops k m) \<noteq> Inl spool_conflict"
proof (cases "omap_get (dk_files (mg_spool m)) k")
  case None
  then show ?thesis by (simp add: conflict_check_def)
next
  case (Some s)
  obtain r where r: "pg_content (mg_backend m) k = Some r" "op_equivalent ops k r s"
    using coherentD[OF assms(5,3) Some] by blast
  obtain g b where g: "op_get ops k (mg_backend m) = (g, b)" by fastforce
  have kv: "key_value_store ops (pg_inv json) pg_content canonical_key"
    unfolding ops_def by (rule postgres_key_value_store[OF assms(2)])
  show ?thesis
  proof (cases g)
    case (Inl e)
    have "e \<noteq> spool_conflict"
      using g Inl assms(3)
      by (auto simp: ops_def postgres_store_def pg_get_def canonical_key_def pg_pool_def pg_handle_def pg_error_def
          spool_conflict_def split: if_splits prod.splits bool.splits)
    then show ?thesis using Some g Inl by (auto simp: conflict_check_def split: store_error.split)
  next
    case (Inr x)
    then have "x = Some r" using key_value_store.get_law[OF kv assms(4,3)] g r(1) by metis
    then show ?thesis using Some g Inr r(2) by (simp add: conflict_check_def)
  qed
qed

end
