(* ===== verification/Store_Git.thy ===== *)
theory Store_Git
  imports Store_Backends
begin

text \<open>
  \<open>GitStore\<close> of \<^verbatim>\<open>crates/registry/src/store.rs\<close>. The git program is the argument \<open>git\<close>: it runs a
  command line in the working tree, may change the tree and its own state (the repository and
  the remote), and either cannot be started or ends with an exit status and its output. A step
  of the store is the working tree and git's state.
\<close>

section \<open>Definitions\<close>

datatype git_output = GitNotStarted | GitExit (git_success: bool) (git_stdout: string) (git_stderr: string)

type_synonym 'g git_program = "string list \<Rightarrow> disk \<times> 'g \<Rightarrow> git_output \<times> (disk \<times> 'g)"

record git_store =
  gs_remote :: string
  gs_branch :: string

definition git_store_of :: "string \<Rightarrow> string option \<Rightarrow> git_store" where
  "git_store_of remote branch =
     \<lparr>gs_remote = remote, gs_branch = (case branch of Some b \<Rightarrow> b | None \<Rightarrow> ''main'')\<rparr>"

definition is_push_rejection :: "string \<Rightarrow> bool" where
  "is_push_rejection message =
     (let lowered = to_ascii_lowercase message
      in str_contains ''[rejected]'' lowered \<or> str_contains ''non-fast-forward'' lowered \<or>
         str_contains ''fetch first'' lowered \<or> str_contains ''updates were rejected'' lowered)"

definition run_git :: "'g git_program \<Rightarrow> string list \<Rightarrow> disk \<times> 'g \<Rightarrow> (store_error + string) \<times> (disk \<times> 'g)" where
  "run_git git args s =
     (case git args s of
        (GitNotStarted, s') \<Rightarrow> (Inl io_error, s')
      | (GitExit ok out err, s') \<Rightarrow>
          (if ok then Inr (trim out)
           else Inl (Unavailable (''git command failed: git '' @ join_with '' '' args @ '': '' @ err)), s'))"

definition push_branch :: "'g git_program \<Rightarrow> git_store \<Rightarrow> disk \<times> 'g \<Rightarrow> (store_error + unit) \<times> (disk \<times> 'g)" where
  "push_branch git gs s =
     (case run_git git [''push'', ''origin'', gs_branch gs] s of
        (Inr _, s') \<Rightarrow> (Inr (), s')
      | (Inl (Unavailable message), s') \<Rightarrow>
          (Inl (if is_push_rejection message
                then Conflict (''remote branch has diverged from the local spool: '' @ message)
                else Unavailable message), s')
      | (Inl e, s') \<Rightarrow> (Inl e, s'))"

definition ensure_remote_available ::
  "'g git_program \<Rightarrow> git_store \<Rightarrow> disk \<times> 'g \<Rightarrow> (store_error + unit) \<times> (disk \<times> 'g)" where
  "ensure_remote_available git gs s =
     (if gs_remote gs = [] then (Inr (), s)
      else case git [''ls-remote'', gs_remote gs, gs_branch gs] s of
             (GitNotStarted, s') \<Rightarrow> (Inl io_error, s')
           | (GitExit ok out err, s') \<Rightarrow>
               (if ok then Inr () else Inl (Unavailable (''git remote unavailable: '' @ err)), s'))"

definition refresh_remote ::
  "'g git_program \<Rightarrow> git_store \<Rightarrow> disk \<times> 'g \<Rightarrow> (store_error + unit) \<times> (disk \<times> 'g)" where
  "refresh_remote git gs s =
     (case ensure_remote_available git gs s of
        (Inl e, s1) \<Rightarrow> (Inl e, s1)
      | (Inr _, s1) \<Rightarrow>
          if gs_remote gs = [] then (Inr (), s1)
          else case run_git git [''ls-remote'', ''origin'', gs_branch gs] s1 of
                 (Inl e, s2) \<Rightarrow> (Inl e, s2)
               | (Inr refs, s2) \<Rightarrow>
                   if refs = [] then (Inr (), s2)
                   else case run_git git [''fetch'', ''origin'', gs_branch gs] s2 of
                          (Inl e, s3) \<Rightarrow> (Inl e, s3)
                        | (Inr _, s3) \<Rightarrow> (Inr (), s3))"

text \<open>A set-up command: a program that cannot be started is ignored, a failing one is an error.\<close>

definition setup_command ::
  "'g git_program \<Rightarrow> string list \<Rightarrow> string \<Rightarrow> disk \<times> 'g \<Rightarrow> (store_error + unit) \<times> (disk \<times> 'g)" where
  "setup_command git args what s =
     (case git args s of
        (GitNotStarted, s') \<Rightarrow> (Inr (), s')
      | (GitExit ok out err, s') \<Rightarrow> (if ok then Inr () else Inl (Unavailable (what @ trim err)), s'))"

definition init_repo :: "'g git_program \<Rightarrow> git_store \<Rightarrow> disk \<times> 'g \<Rightarrow> (store_error + unit) \<times> (disk \<times> 'g)" where
  "init_repo git gs s =
     (case setup_command git [''init'', ''-b'', gs_branch gs] ''git init failed: '' s of
        (Inl e, s1) \<Rightarrow> (Inl e, s1)
      | (Inr _, s1) \<Rightarrow>
          (case setup_command git [''config'', ''user.name'', ''mahoquot''] ''git user.name setup failed: '' s1 of
             (Inl e, s2) \<Rightarrow> (Inl e, s2)
           | (Inr _, s2) \<Rightarrow>
               (case setup_command git [''config'', ''user.email'', ''mahoquot@local''] ''git user.email setup failed: '' s2 of
                  (Inl e, s3) \<Rightarrow> (Inl e, s3)
                | (Inr _, s3) \<Rightarrow>
                    if gs_remote gs = [] then (Inr (), s3)
                    else (Inr (), snd (git [''remote'', ''add'', ''origin'', gs_remote gs] s3)))))"

definition ensure_repo ::
  "'g git_program \<Rightarrow> git_store \<Rightarrow> bool \<Rightarrow> bool \<Rightarrow> disk \<times> 'g \<Rightarrow> (store_error + unit) \<times> (disk \<times> 'g)" where
  "ensure_repo git gs has_dot_git empty_dir s =
     (if has_dot_git then (Inr (), s)
      else if gs_remote gs \<noteq> [] \<and> empty_dir
      then case git [''clone'', ''--branch'', gs_branch gs, gs_remote gs, ''.''] s of
             (GitExit True out err, s1) \<Rightarrow> (Inr (), s1)
           | (_, s1) \<Rightarrow> init_repo git gs s1
      else init_repo git gs s)"

definition commit_and_push ::
  "'g git_program \<Rightarrow> git_store \<Rightarrow> string \<Rightarrow> disk \<times> 'g \<Rightarrow> (store_error + unit) \<times> (disk \<times> 'g)" where
  "commit_and_push git gs message s =
     (if message = [] then (Inl (InvalidConfig ''empty commit message''), s)
      else
        let s1 = snd (run_git git [''add'', ''-A''] s)
        in case run_git git [''status'', ''--porcelain''] s1 of
             (Inl e, s2) \<Rightarrow> (Inl e, s2)
           | (Inr status, s2) \<Rightarrow>
               (case (if status = [] then (Inr [], s2) else run_git git [''commit'', ''-m'', message] s2) of
                  (Inl e, s3) \<Rightarrow> (Inl e, s3)
                | (Inr _, s3) \<Rightarrow>
                    if gs_remote gs = [] then (Inr (), s3)
                    else (Inr (), snd (run_git git [''push'', ''-u'', ''origin'', gs_branch gs] s3))))"

definition git_get ::
  "'g git_program \<Rightarrow> git_store \<Rightarrow> string \<Rightarrow> disk \<times> 'g \<Rightarrow> (store_error + string option) \<times> (disk \<times> 'g)" where
  "git_get git gs key s =
     (case refresh_remote git gs s of
        (Inl e, s1) \<Rightarrow> (Inl e, s1)
      | (Inr _, s1) \<Rightarrow>
          (case normalize_key key of
             Inl e \<Rightarrow> (Inl e, s1)
           | Inr k \<Rightarrow>
               if gs_remote gs \<noteq> []
               then case git [''show'', ''FETCH_HEAD:'' @ key] s1 of
                      (GitNotStarted, s2) \<Rightarrow> (Inl io_error, s2)
                    | (GitExit ok out err, s2) \<Rightarrow> (Inr (if ok then Some out else None), s2)
               else (read_file k (fst s1), s1)))"

definition git_put ::
  "'g git_program \<Rightarrow> git_store \<Rightarrow> string \<Rightarrow> string \<Rightarrow> disk \<times> 'g \<Rightarrow> (store_error + unit) \<times> (disk \<times> 'g)" where
  "git_put git gs key value s =
     (case refresh_remote git gs s of
        (Inl e, s1) \<Rightarrow> (Inl e, s1)
      | (Inr _, s1) \<Rightarrow>
          (case normalize_key key of
             Inl e \<Rightarrow> (Inl e, s1)
           | Inr k \<Rightarrow>
               (case create_parents k (fst s1) of
                  (Inl e, d) \<Rightarrow> (Inl e, (d, snd s1))
                | (Inr _, d) \<Rightarrow>
                    (case atomic_write k value d of
                       (Inl e, d') \<Rightarrow> (Inl e, (d', snd s1))
                     | (Inr _, d') \<Rightarrow>
                         (case run_git git [''add'', k] (d', snd s1) of
                            (Inl e, s2) \<Rightarrow> (Inl e, s2)
                          | (Inr _, s2) \<Rightarrow>
                              let s3 = snd (run_git git [''commit'', ''-m'', ''update '' @ k] s2)
                              in if gs_remote gs = [] then (Inr (), s3) else push_branch git gs s3)))))"

definition git_delete ::
  "'g git_program \<Rightarrow> git_store \<Rightarrow> string \<Rightarrow> disk \<times> 'g \<Rightarrow> (store_error + unit) \<times> (disk \<times> 'g)" where
  "git_delete git gs key s =
     (case refresh_remote git gs s of
        (Inl e, s1) \<Rightarrow> (Inl e, s1)
      | (Inr _, s1) \<Rightarrow>
          (case normalize_key key of
             Inl e \<Rightarrow> (Inl e, s1)
           | Inr k \<Rightarrow>
               if omap_contains (dk_files (fst s1)) k
               then case run_git git [''add'', ''-A''] (snd (remove_file k (fst s1)), snd s1) of
                      (Inl e, s2) \<Rightarrow> (Inl e, s2)
                    | (Inr _, s2) \<Rightarrow>
                        let s3 = snd (run_git git [''commit'', ''-m'', ''delete '' @ k] s2)
                        in if gs_remote gs = [] then (Inr (), s3) else push_branch git gs s3
               else case remove_file k (fst s1) of (r, d) \<Rightarrow> (r, (d, snd s1))))"

text \<open>\<open>str::lines\<close>\<close>

definition strip_cr :: "string \<Rightarrow> string" where
  "strip_cr l = (if l \<noteq> [] \<and> last l = CHR 0x0D then butlast l else l)"

definition str_lines :: "string \<Rightarrow> string list" where
  "str_lines s =
     (let ps = split_on (CHR 0x0A) s;
          complete = map strip_cr (butlast ps)
      in if last ps = [] then complete else complete @ [last ps])"

definition git_list ::
  "'g git_program \<Rightarrow> git_store \<Rightarrow> string \<Rightarrow> disk \<times> 'g \<Rightarrow> (store_error + string list) \<times> (disk \<times> 'g)" where
  "git_list git gs pre s =
     (case refresh_remote git gs s of
        (Inl e, s1) \<Rightarrow> (Inl e, s1)
      | (Inr _, s1) \<Rightarrow>
          (case normalize_prefix pre of
             Inl e \<Rightarrow> (Inl e, s1)
           | Inr p \<Rightarrow>
               if gs_remote gs \<noteq> []
               then case run_git git [''ls-tree'', ''-r'', ''--name-only'', ''FETCH_HEAD''] s1 of
                      (Inl e, s2) \<Rightarrow> (Inl e, s2)
                    | (Inr out, s2) \<Rightarrow> (Inr (sort (filter (starts_with p) (str_lines out))), s2)
               else (Inr (sort (filter (\<lambda>k. \<not> starts_with ''.git'' k \<and> starts_with p k) (walk_keys (fst s1)))), s1)))"

definition git_backend :: "'g git_program \<Rightarrow> git_store \<Rightarrow> (disk \<times> 'g) storage_backend" where
  "git_backend git gs =
     \<lparr>op_equivalent = same_bytes, op_get = git_get git gs, op_put = git_put git gs,
      op_delete = git_delete git gs, op_list = git_list git gs\<rparr>"

section \<open>Acknowledged writes were pushed\<close>

lemma push_branch_ok:
  assumes "push_branch git gs s = (Inr u, s')"
  shows "\<exists>out err. git [''push'', ''origin'', gs_branch gs] s = (GitExit True out err, s')"
  using assms
  by (auto simp: push_branch_def run_git_def split: git_output.splits prod.splits sum.splits store_error.splits if_splits)

lemma push_rejection_is_conflict:
  assumes "git [''push'', ''origin'', gs_branch gs] s = (GitExit False out err, s')" "str_contains ''[rejected]'' (to_ascii_lowercase err)"
  shows "\<exists>msg. push_branch git gs s = (Inl (Conflict msg), s')"
proof -
  have "str_contains n (to_ascii_lowercase (a @ b))" if "str_contains n (to_ascii_lowercase b)" for n a b
  proof -
    have "str_any P b' \<Longrightarrow> str_any P (a' @ b')" for P a' b' by (induction a') auto
    then show ?thesis using that by (auto simp: str_contains_def to_ascii_lowercase_def)
  qed
  then have "is_push_rejection (x @ err)" for x using assms(2) by (simp add: is_push_rejection_def Let_def)
  then show ?thesis
    using assms(1) by (simp add: push_branch_def run_git_def del: append.simps) (metis append.assoc)
qed

text \<open>
  With a remote, \<open>put\<close> reports success only if the file was written to the working tree, added,
  and the final push succeeded.
\<close>

lemma atomic_write_stores:
  "atomic_write k v d = (Inr u, d') \<Longrightarrow> omap_get (dk_files d') k = Some v"
  by (auto simp: atomic_write_def Let_def split: if_splits write_fault.splits)

lemma git_put_pushed:
  assumes "git_put git gs key value s = (Inr u, s')" "gs_remote gs \<noteq> []"
  shows "\<exists>k d t added s2 out err. normalize_key key = Inr k \<and> omap_get (dk_files d) k = Some value \<and>
    run_git git [''add'', k] (d, t) = (Inr added, s2) \<and>
    git [''push'', ''origin'', gs_branch gs] (snd (run_git git [''commit'', ''-m'', ''update '' @ k] s2)) =
      (GitExit True out err, s')"
proof -
  obtain s1 where r: "refresh_remote git gs s = (Inr (), s1)"
    using assms(1) by (auto simp: git_put_def split: prod.splits sum.splits)
  obtain k where k: "normalize_key key = Inr k"
    using assms(1) r by (auto simp: git_put_def split: sum.splits)
  obtain d where c: "create_parents k (fst s1) = (Inr (), d)"
    using assms(1) r k by (auto simp: git_put_def split: prod.splits sum.splits)
  obtain d' where w: "atomic_write k value d = (Inr (), d')"
    using assms(1) r k c by (auto simp: git_put_def split: prod.splits sum.splits)
  obtain added s2 where a: "run_git git [''add'', k] (d', snd s1) = (Inr added, s2)"
    using assms(1) r k c w by (auto simp: git_put_def split: prod.splits sum.splits)
  have "push_branch git gs (snd (run_git git [''commit'', ''-m'', ''update '' @ k] s2)) = (Inr u, s')"
    using assms r k c w a by (simp add: git_put_def Let_def)
  from push_branch_ok[OF this] k a atomic_write_stores[OF w] show ?thesis by blast
qed

text \<open>
  The result of the commit is ignored: with a git whose commits fail and whose pushes succeed,
  \<open>put\<close> reports success although nothing was committed.
\<close>

definition commitless_git :: "unit git_program" where
  "commitless_git args s =
     (if args \<noteq> [] \<and> hd args = ''commit'' then (GitExit False [] ''no identity'', s) else (GitExit True [] [], s))"

lemma put_acknowledges_without_commit:
  "fst (git_put commitless_git (git_store_of ''origin-url'' None) ''a'' ''v'' (disk_new 1 [], ())) = Inr ()"
  by code_simp

end
