(* ===== verification/Text_Parsing.thy ===== *)
theory Text_Parsing
  imports Strings
begin

text \<open>
  Further parts of Rust's \<open>str\<close>: suffixes, searching, splitting at separators and at white space,
  and signed decimal numbers. Strings are UTF-8 bytes as in \<open>Strings\<close>.
\<close>

section \<open>Definitions\<close>

definition ends_with :: "string \<Rightarrow> string \<Rightarrow> bool" where
  "ends_with p s = suffix p s"

definition strip_suffix :: "string \<Rightarrow> string \<Rightarrow> string option" where
  "strip_suffix p s = (if suffix p s then Some (take (length s - length p) s) else None)"

definition rsplit_once :: "char \<Rightarrow> string \<Rightarrow> (string \<times> string) option" where
  "rsplit_once d s = map_option (\<lambda>(a, b). (rev b, rev a)) (split_once d (rev s))"

text \<open>\<open>str::find\<close>: the byte offset of the first occurrence.\<close>

fun str_find :: "string \<Rightarrow> string \<Rightarrow> nat option" where
  "str_find needle [] = (if needle = [] then Some 0 else None)"
| "str_find needle (c # cs) =
     (if prefix needle (c # cs) then Some 0 else map_option Suc (str_find needle cs))"

text \<open>\<open>str::split\<close> at every character of a class.\<close>

fun split_where :: "(char \<Rightarrow> bool) \<Rightarrow> string \<Rightarrow> string list" where
  "split_where P [] = [[]]"
| "split_where P (c # cs) =
     (if P c then [] # split_where P cs
      else case split_where P cs of [] \<Rightarrow> [[c]] | p # ps \<Rightarrow> (c # p) # ps)"

text \<open>\<open>split_whitespace\<close>: the maximal runs without white space.\<close>

fun span_word :: "string \<Rightarrow> string \<times> string" where
  "span_word [] = ([], [])"
| "span_word (c # cs) =
     (if starts_ws (c # cs) then ([], c # cs)
      else let (w, rest) = span_word cs in (c # w, rest))"

lemma span_word_append: "span_word s = (w, rest) \<Longrightarrow> w @ rest = s"
  by (induction s arbitrary: w) (auto split: if_splits prod.splits)

lemma strip_ws_None: "strip_ws s = None \<longleftrightarrow> \<not> starts_ws s"
  by (auto simp: strip_ws_def starts_ws_def find_None_iff list_ex_iff)

lemma trim_start_not_ws: "\<not> starts_ws (trim_start s)"
proof (induction s rule: trim_start.induct)
  case (1 s)
  then show ?case
    by (subst trim_start.simps) (auto split: option.split simp: strip_ws_None)
qed

lemma trim_start_length: "length (trim_start s) \<le> length s"
proof (induction s rule: trim_start.induct)
  case (1 s)
  show ?case
  proof (cases "strip_ws s")
    case None
    then show ?thesis by (subst trim_start.simps) simp
  next
    case (Some t)
    with 1[OF Some] strip_ws_shorter[OF Some] show ?thesis
      by (subst trim_start.simps) simp
  qed
qed

function split_whitespace :: "string \<Rightarrow> string list" where
  "split_whitespace s =
     (let t = trim_start s in
      if t = [] then []
      else let (w, rest) = span_word t in w # split_whitespace rest)"
  by auto
termination
proof (relation "measure length", goal_cases)
  case (2 s t p w rest)
  from 2(2) obtain c cs where t: "t = c # cs" by (meson neq_Nil_conv)
  have sp: "span_word (c # cs) = (w, rest)" using 2 t by simp
  have "\<not> starts_ws (c # cs)" using trim_start_not_ws[of s] 2(1) t by simp
  then have "w \<noteq> []" using sp by (auto split: prod.splits)
  moreover have "w @ rest = t" using span_word_append[OF sp] t by simp
  ultimately have "length rest < length t" by auto
  with trim_start_length[of s] 2(1) show ?case by simp
qed simp

declare split_whitespace.simps [simp del]

definition is_digit :: "char \<Rightarrow> bool" where
  "is_digit c \<longleftrightarrow> 48 \<le> (of_char c :: nat) \<and> (of_char c :: nat) \<le> 57"

text \<open>\<open>str::parse::<i64>\<close> and \<open>str::parse::<u64>\<close>: an optional sign, digits, and a range check.\<close>

definition unsigned_digits :: "string \<Rightarrow> nat option" where
  "unsigned_digits ds = (if ds \<noteq> [] \<and> list_all is_digit ds then Some (nat_of_dec 0 ds) else None)"

definition signed_value :: "string \<Rightarrow> int option" where
  "signed_value s =
     (case s of
        [] \<Rightarrow> None
      | c # cs \<Rightarrow>
          if c = CHR ''-'' then map_option (\<lambda>n. - int n) (unsigned_digits cs)
          else if c = CHR ''+'' then map_option int (unsigned_digits cs)
          else map_option int (unsigned_digits s))"

definition parse_i64 :: "string \<Rightarrow> int option" where
  "parse_i64 s = (case signed_value s of None \<Rightarrow> None | Some v \<Rightarrow> if in_i64 v then Some v else None)"

definition parse_u64 :: "string \<Rightarrow> nat option" where
  "parse_u64 s =
     (case s of
        [] \<Rightarrow> None
      | c # cs \<Rightarrow>
          (case unsigned_digits (if c = CHR ''+'' then cs else s) of
             None \<Rightarrow> None | Some n \<Rightarrow> if n \<le> u64_max then Some n else None))"

definition dec_of_int :: "int \<Rightarrow> string" where
  "dec_of_int i = (if i < 0 then CHR ''-'' # dec_of_nat (nat (- i)) else dec_of_nat (nat i))"

section \<open>Facts\<close>

lemma strip_suffix_Some: "strip_suffix p s = Some t \<longleftrightarrow> s = t @ p"
  by (auto simp: strip_suffix_def suffix_def)

lemma strip_prefix_Some: "strip_prefix p s = Some t \<longleftrightarrow> s = p @ t"
  by (auto simp: strip_prefix_def prefix_def)

lemma rsplit_once_Some: "rsplit_once d s = Some (a, b) \<longleftrightarrow> s = a @ d # b \<and> d \<notin> set b"
proof -
  have "rsplit_once d s = Some (a, b) \<longleftrightarrow> split_once d (rev s) = Some (rev b, rev a)"
    by (auto simp: rsplit_once_def)
  also have "\<dots> \<longleftrightarrow> rev s = rev b @ d # rev a \<and> d \<notin> set b" by (simp add: split_once_Some)
  also have "\<dots> \<longleftrightarrow> s = a @ d # b \<and> d \<notin> set b"
    by (metis append.assoc append_Cons append_Nil rev.simps(2) rev_append rev_rev_ident rev_swap)
  finally show ?thesis .
qed

lemma str_find_Some: "str_find n s = Some i \<Longrightarrow> i \<le> length s \<and> prefix n (drop i s)"
  by (induction s arbitrary: i) (auto split: if_splits)

lemma unsigned_digits_dec [simp]: "unsigned_digits (dec_of_nat n) = Some n"
  by (auto simp: unsigned_digits_def list_all_iff is_digit_def dest: dec_of_nat_range)

lemma dec_of_nat_no_sign: "dec_of_nat n = c # cs \<Longrightarrow> c \<noteq> CHR ''-'' \<and> c \<noteq> CHR ''+''"
  using dec_of_nat_range[of c n] by auto

lemma parse_i64_dec_of_int: "in_i64 i \<Longrightarrow> parse_i64 (dec_of_int i) = Some i"
proof -
  assume i: "in_i64 i"
  obtain c cs where d: "dec_of_nat (nat i) = c # cs" by (cases "dec_of_nat (nat i)") auto
  have "unsigned_digits (c # cs) = Some (nat i)" using unsigned_digits_dec[of "nat i"] d by simp
  with dec_of_nat_no_sign[OF d] i show ?thesis
    by (auto simp: parse_i64_def signed_value_def dec_of_int_def d)
qed

lemma parse_u64_dec_of_nat: "n \<le> u64_max \<Longrightarrow> parse_u64 (dec_of_nat n) = Some n"
proof -
  assume n: "n \<le> u64_max"
  obtain c cs where d: "dec_of_nat n = c # cs" by (cases "dec_of_nat n") auto
  have "unsigned_digits (c # cs) = Some n" using unsigned_digits_dec[of n] d by simp
  with dec_of_nat_no_sign[OF d] n show ?thesis by (simp add: parse_u64_def d)
qed

lemma parse_i64_in_range: "parse_i64 s = Some v \<Longrightarrow> in_i64 v"
  by (auto simp: parse_i64_def split: option.splits if_splits)

end
