(* ===== verification/Provider_Account.thy ===== *)
theory Provider_Account
  imports Usage Text_Parsing Registry_Snapshot
begin

text \<open>
  Provider kinds and credentials, \<open>ProviderKind\<close>, \<open>ProviderAccount\<close> and \<open>GenericAccount\<close> of
  \<^verbatim>\<open>crates/gateway/src/account.rs\<close>, with the rules that turn a credential file into an account
  identity. The structs of the native providers share one record that holds the fields the
  gateway reads. Parsing an RFC 3339 timestamp is library code and an argument.
\<close>

section \<open>Kinds\<close>

fun kind_as_str :: "provider_kind \<Rightarrow> string" where
  "kind_as_str Codex = ''codex''"
| "kind_as_str Antigravity = ''antigravity''"
| "kind_as_str Claude = ''claude''"
| "kind_as_str Cursor = ''cursor''"
| "kind_as_str Kiro = ''kiro''"
| "kind_as_str Zcode = ''zcode''"
| "kind_as_str Vertex = ''google-vertex''"
| "kind_as_str OpenCode = ''opencode''"
| "kind_as_str Devin = ''devin''"
| "kind_as_str Generic = ''generic''"

definition kind_from_type_str :: "string \<Rightarrow> provider_kind option" where
  "kind_from_type_str value =
     (if value \<in> {''kimi'', ''kimi-ai'', ''kimi.com'', ''kimi.ai''} then Some Generic
      else if value = ''codex'' then Some Codex
      else if value = ''antigravity'' then Some Antigravity
      else if value \<in> {''claude'', ''anthropic''} then Some Claude
      else if value = ''cursor'' then Some Cursor
      else if value = ''kiro'' then Some Kiro
      else if value = ''zcode'' then Some Zcode
      else if value \<in> {''vertex'', ''google-vertex''} then Some Vertex
      else if value = ''opencode'' then Some OpenCode
      else if value = ''devin'' then Some Devin
      else if value = ''meta'' then Some Generic
      else if value = ''generic'' then Some Generic
      else None)"

text \<open>\<open>is_*_model_in_snapshot\<close> of the provider crate\<close>

definition is_model_in_snapshot :: "provider_id \<Rightarrow> registry_snapshot \<Rightarrow> string \<Rightarrow> bool" where
  "is_model_in_snapshot p s model = supports_model (contribution_for_provider s p) model"

definition first_stripped :: "string list \<Rightarrow> string \<Rightarrow> string option" where
  "first_stripped ps s =
     foldr (\<lambda>p rest. case strip_prefix p s of Some t \<Rightarrow> Some t | None \<Rightarrow> rest) ps None"

definition strip_claude_route_prefix :: "string \<Rightarrow> string" where
  "strip_claude_route_prefix model =
     (case first_stripped [''anthropic-'', ''anthropic/'', ''nekos-'', ''nekos/''] model of
        Some m \<Rightarrow> m | None \<Rightarrow> model)"

fun serves_model_in :: "provider_kind \<Rightarrow> registry_snapshot \<Rightarrow> string \<Rightarrow> bool" where
  "serves_model_in Codex s model =
     (\<not> is_model_in_snapshot pid_antigravity s model \<and>
      \<not> is_model_in_snapshot pid_claude s model \<and>
      \<not> is_model_in_snapshot pid_zcode s model \<and>
      \<not> list_ex (\<lambda>p. starts_with p model)
          [''cursor-'', ''cursor/'', ''kiro/'', ''anthropic-'', ''anthropic/'', ''nekos-'', ''nekos/''] \<and>
      model \<noteq> ''auto-kiro'' \<and>
      \<not> is_model_in_snapshot pid_vertex s model \<and>
      \<not> starts_with ''devin-'' model \<and> \<not> starts_with ''devin/'' model \<and> model \<noteq> ''devin'')"
| "serves_model_in Antigravity s model = is_model_in_snapshot pid_antigravity s model"
| "serves_model_in Claude s model = is_model_in_snapshot pid_claude s (strip_claude_route_prefix model)"
| "serves_model_in Cursor s model =
     (starts_with ''cursor/'' model \<or> is_model_in_snapshot pid_cursor s model)"
| "serves_model_in Kiro s model =
     (model = ''auto-kiro'' \<or>
      (case strip_prefix ''kiro/'' model of
         None \<Rightarrow> False | Some stripped \<Rightarrow> is_model_in_snapshot pid_kiro s stripped))"
| "serves_model_in Zcode s model = is_model_in_snapshot pid_zcode s model"
| "serves_model_in Vertex s model = is_model_in_snapshot pid_vertex s model"
| "serves_model_in OpenCode s model = True"
| "serves_model_in Devin s model = False"
| "serves_model_in Generic s model = True"

section \<open>Credentials\<close>

record native_account =
  na_identity_slug :: string
  na_access_token :: string
  na_refresh_token :: string
  na_email :: string
  na_account_id :: string
  na_expired :: string
  na_api_key :: "string option"
  na_plan :: "string option"
  na_disabled :: bool

record devin_account =
  da_identity_slug :: string
  da_access_token :: string
  da_api_server_url :: string
  da_email :: "string option"
  da_disabled :: bool

record opencode_account =
  oa_identity_slug :: string
  oa_api_key :: string
  oa_disabled :: bool

record generic_account =
  ga_identity_slug :: string
  ga_provider :: string
  ga_label :: string
  ga_email :: string
  ga_adapter :: string
  ga_base_url :: string
  ga_api_key :: string
  ga_auth_mode :: string
  ga_refresh_token :: string
  ga_expired :: string
  ga_token_url :: string
  ga_client_id :: string
  ga_project_id :: string
  ga_models :: "string list"
  ga_static_headers :: "(string, string) omap"
  ga_disabled :: bool

datatype provider_account =
    CodexAccount native_account
  | AntigravityAccount native_account
  | ClaudeAccount native_account
  | CursorAccount native_account
  | KiroAccount native_account
  | ZcodeAccount native_account
  | VertexAccount native_account
  | DevinAccount devin_account
  | OpenCodeAccount opencode_account
  | GenericAccount generic_account

fun account_kind :: "provider_account \<Rightarrow> provider_kind" where
  "account_kind (CodexAccount a) = Codex"
| "account_kind (AntigravityAccount a) = Antigravity"
| "account_kind (ClaudeAccount a) = Claude"
| "account_kind (CursorAccount a) = Cursor"
| "account_kind (KiroAccount a) = Kiro"
| "account_kind (ZcodeAccount a) = Zcode"
| "account_kind (VertexAccount a) = Vertex"
| "account_kind (OpenCodeAccount a) = OpenCode"
| "account_kind (DevinAccount a) = Devin"
| "account_kind (GenericAccount a) = Generic"

fun access_token :: "provider_account \<Rightarrow> string" where
  "access_token (CodexAccount a) = na_access_token a"
| "access_token (AntigravityAccount a) = na_access_token a"
| "access_token (ClaudeAccount a) = (case na_api_key a of Some key \<Rightarrow> key | None \<Rightarrow> na_access_token a)"
| "access_token (CursorAccount a) = na_access_token a"
| "access_token (KiroAccount a) = na_access_token a"
| "access_token (ZcodeAccount a) = na_access_token a"
| "access_token (VertexAccount a) = na_access_token a"
| "access_token (OpenCodeAccount a) = oa_api_key a"
| "access_token (DevinAccount a) = da_access_token a"
| "access_token (GenericAccount a) = ga_api_key a"

fun credential_relay_key :: "provider_account \<Rightarrow> string option" where
  "credential_relay_key (ClaudeAccount a) = na_api_key a"
| "credential_relay_key _ = None"

fun credential_relay_plan :: "provider_account \<Rightarrow> string option" where
  "credential_relay_plan (ClaudeAccount a) = na_plan a"
| "credential_relay_plan _ = None"

fun refresh_token :: "provider_account \<Rightarrow> string" where
  "refresh_token (CodexAccount a) = na_refresh_token a"
| "refresh_token (AntigravityAccount a) = na_refresh_token a"
| "refresh_token (ClaudeAccount a) = (if na_api_key a = None then na_refresh_token a else [])"
| "refresh_token (CursorAccount a) = na_refresh_token a"
| "refresh_token (KiroAccount a) = na_refresh_token a"
| "refresh_token (ZcodeAccount a) = na_refresh_token a"
| "refresh_token (VertexAccount a) = []"
| "refresh_token (OpenCodeAccount a) = []"
| "refresh_token (DevinAccount a) = []"
| "refresh_token (GenericAccount a) = ga_refresh_token a"

definition expired_at_is_past :: "(string \<Rightarrow> int option) \<Rightarrow> string \<Rightarrow> int \<Rightarrow> bool" where
  "expired_at_is_past parse_expired expired now =
     (case parse_expired expired of Some t \<Rightarrow> t \<le> now | None \<Rightarrow> True)"

definition is_provisioned_api_key :: "string \<Rightarrow> bool" where
  "is_provisioned_api_key token =
     (case split_once (CHR ''.'') token of
        Some (ident, secret) \<Rightarrow> ident \<noteq> [] \<and> secret \<noteq> [] | None \<Rightarrow> False)"

fun credential_is_expired :: "(string \<Rightarrow> int option) \<Rightarrow> provider_account \<Rightarrow> int \<Rightarrow> bool" where
  "credential_is_expired pe (CodexAccount a) now = expired_at_is_past pe (na_expired a) now"
| "credential_is_expired pe (AntigravityAccount a) now = expired_at_is_past pe (na_expired a) now"
| "credential_is_expired pe (ClaudeAccount a) now =
     (if na_api_key a \<noteq> None then False else expired_at_is_past pe (na_expired a) now)"
| "credential_is_expired pe (CursorAccount a) now = expired_at_is_past pe (na_expired a) now"
| "credential_is_expired pe (KiroAccount a) now = expired_at_is_past pe (na_expired a) now"
| "credential_is_expired pe (ZcodeAccount a) now =
     (\<not> is_provisioned_api_key (na_access_token a) \<and> expired_at_is_past pe (na_expired a) now)"
| "credential_is_expired pe (VertexAccount a) now = expired_at_is_past pe (na_expired a) now"
| "credential_is_expired pe (OpenCodeAccount a) now = False"
| "credential_is_expired pe (DevinAccount a) now = False"
| "credential_is_expired pe (GenericAccount a) now =
     (if ga_provider a = ''cline'' then expired_at_is_past pe (ga_expired a) now
      else if ga_provider a = ''meta'' then ga_api_key a = []
      else (ga_auth_mode a = ''oauth'' \<or> ga_adapter a = ''mimo-free'' \<or> ga_provider a = ''cline'') \<and>
           expired_at_is_past pe (ga_expired a) now)"

fun account_provider_name :: "provider_account \<Rightarrow> string" where
  "account_provider_name (GenericAccount a) = ga_provider a"
| "account_provider_name a = kind_as_str (account_kind a)"

fun account_generic_models :: "provider_account \<Rightarrow> (string \<times> string list) option" where
  "account_generic_models (GenericAccount a) = Some (ga_provider a, ga_models a)"
| "account_generic_models _ = None"

fun account_email :: "provider_account \<Rightarrow> string option" where
  "account_email (OpenCodeAccount a) = None"
| "account_email (DevinAccount a) = da_email a"
| "account_email (GenericAccount a) = None"
| "account_email (CodexAccount a) = Some (na_email a)"
| "account_email (AntigravityAccount a) = Some (na_email a)"
| "account_email (ClaudeAccount a) = Some (na_email a)"
| "account_email (CursorAccount a) = Some (na_email a)"
| "account_email (KiroAccount a) = Some (na_email a)"
| "account_email (ZcodeAccount a) = Some (na_email a)"
| "account_email (VertexAccount a) = Some (na_email a)"

fun credential_account_id :: "provider_account \<Rightarrow> string option" where
  "credential_account_id (CodexAccount a) = Some (na_account_id a)"
| "credential_account_id (ClaudeAccount a) = Some (na_account_id a)"
| "credential_account_id _ = None"

fun credential_disabled :: "provider_account \<Rightarrow> bool" where
  "credential_disabled (CodexAccount a) = False"
| "credential_disabled (AntigravityAccount a) = na_disabled a"
| "credential_disabled (ClaudeAccount a) = na_disabled a"
| "credential_disabled (CursorAccount a) = na_disabled a"
| "credential_disabled (KiroAccount a) = na_disabled a"
| "credential_disabled (ZcodeAccount a) = na_disabled a"
| "credential_disabled (VertexAccount a) = na_disabled a"
| "credential_disabled (DevinAccount a) = da_disabled a"
| "credential_disabled (OpenCodeAccount a) = oa_disabled a"
| "credential_disabled (GenericAccount a) = ga_disabled a"

fun default_base_url :: "provider_account \<Rightarrow> string" where
  "default_base_url (DevinAccount a) = da_api_server_url a"
| "default_base_url (GenericAccount a) = ga_base_url a"
| "default_base_url (CursorAccount a) = ''https://api2.cursor.sh''"
| "default_base_url (ZcodeAccount a) = ''https://api.z.ai''"
| "default_base_url (ClaudeAccount a) = ''https://api.anthropic.com''"
| "default_base_url (CodexAccount a) = ''https://api.openai.com''"
| "default_base_url (AntigravityAccount a) = ''https://api.antigravity.dev''"
| "default_base_url (KiroAccount a) = ''https://api.kiro.dev''"
| "default_base_url (VertexAccount a) = ''https://api.vertex.dev''"
| "default_base_url (OpenCodeAccount a) = ''https://opencode.ai/inference/openai''"

fun identity_slug_of :: "provider_account \<Rightarrow> string" where
  "identity_slug_of (CodexAccount a) = na_identity_slug a"
| "identity_slug_of (AntigravityAccount a) = na_identity_slug a"
| "identity_slug_of (ClaudeAccount a) = na_identity_slug a"
| "identity_slug_of (CursorAccount a) = na_identity_slug a"
| "identity_slug_of (KiroAccount a) = na_identity_slug a"
| "identity_slug_of (ZcodeAccount a) = na_identity_slug a"
| "identity_slug_of (VertexAccount a) = na_identity_slug a"
| "identity_slug_of (OpenCodeAccount a) = oa_identity_slug a"
| "identity_slug_of (DevinAccount a) = da_identity_slug a"
| "identity_slug_of (GenericAccount a) = ga_identity_slug a"

fun set_identity_slug :: "string \<Rightarrow> provider_account \<Rightarrow> provider_account" where
  "set_identity_slug slug (CodexAccount a) = CodexAccount (a\<lparr>na_identity_slug := slug\<rparr>)"
| "set_identity_slug slug (AntigravityAccount a) = AntigravityAccount (a\<lparr>na_identity_slug := slug\<rparr>)"
| "set_identity_slug slug (ClaudeAccount a) = ClaudeAccount (a\<lparr>na_identity_slug := slug\<rparr>)"
| "set_identity_slug slug (CursorAccount a) = CursorAccount (a\<lparr>na_identity_slug := slug\<rparr>)"
| "set_identity_slug slug (KiroAccount a) = KiroAccount (a\<lparr>na_identity_slug := slug\<rparr>)"
| "set_identity_slug slug (ZcodeAccount a) = ZcodeAccount (a\<lparr>na_identity_slug := slug\<rparr>)"
| "set_identity_slug slug (VertexAccount a) = VertexAccount (a\<lparr>na_identity_slug := slug\<rparr>)"
| "set_identity_slug slug (OpenCodeAccount a) = OpenCodeAccount (a\<lparr>oa_identity_slug := slug\<rparr>)"
| "set_identity_slug slug (DevinAccount a) = DevinAccount (a\<lparr>da_identity_slug := slug\<rparr>)"
| "set_identity_slug slug (GenericAccount a) = GenericAccount (a\<lparr>ga_identity_slug := slug\<rparr>)"

section \<open>Upstream headers of a generic account\<close>

definition eq_ignore_ascii_case :: "string \<Rightarrow> string \<Rightarrow> bool" where
  "eq_ignore_ascii_case a b \<longleftrightarrow> to_ascii_lowercase a = to_ascii_lowercase b"

fun set_header :: "string \<times> string \<Rightarrow> (string \<times> string) list \<Rightarrow> (string \<times> string) list" where
  "set_header (name, v) [] = [(name, v)]"
| "set_header (name, v) ((n, w) # hs) =
     (if eq_ignore_ascii_case n name then (n, v) # hs else (n, w) # set_header (name, v) hs)"

text \<open>
  The branch of \<open>build_upstream_headers\<close> for credentials of a configured provider other than
  \<open>xai\<close> and \<open>meta\<close>; the three MiMo values are constants of other files and one process-wide id.
\<close>

definition generic_auth_header :: "generic_account \<Rightarrow> (string \<times> string) list" where
  "generic_auth_header a =
     (if ga_api_key a = [] then []
      else if ga_adapter a = ''azure-openai'' then [(''api-key'', ga_api_key a)]
      else if ga_adapter a = ''google'' \<and> ga_auth_mode a \<noteq> ''oauth'' then [(''x-goog-api-key'', ga_api_key a)]
      else if ga_adapter a = ''anthropic'' \<and> ga_auth_mode a \<noteq> ''oauth'' then [(''x-api-key'', ga_api_key a)]
      else [(''authorization'', ''Bearer '' @ ga_api_key a)])"

definition generic_upstream_headers ::
  "string \<times> string \<times> string \<Rightarrow> generic_account \<Rightarrow> (string \<times> string) list" where
  "generic_upstream_headers mimo a =
     (let (mimo_source, session_affinity, mimo_agent) = mimo;
          base = [(''content-type'', ''application/json'')] @
                 (if ga_adapter a = ''anthropic'' then [(''anthropic-version'', ''2023-06-01'')] else []) @
                 (if ga_adapter a = ''mimo-free''
                  then [(''x-mimo-source'', mimo_source), (''x-session-affinity'', session_affinity),
                        (''user-agent'', mimo_agent)] else []) @
                 generic_auth_header a
      in foldl (\<lambda>hs h. set_header h hs) base (ga_static_headers a))"

section \<open>Credential files\<close>

definition classify_credential :: "string \<Rightarrow> string \<Rightarrow> provider_kind option" where
  "classify_credential name declared =
     (if starts_with ''kimi-'' name \<or> starts_with ''kimi-ai-'' name \<or> starts_with ''meta-'' name
      then Some Generic
      else case find (\<lambda>kind. starts_with (kind_as_str kind @ ''-'') name \<or>
                             (kind = Vertex \<and> starts_with ''vertex-'' name))
                  [Codex, Antigravity, Claude, Cursor, Kiro, Zcode, Vertex, Devin, Generic] of
             Some kind \<Rightarrow> Some kind
           | None \<Rightarrow> kind_from_type_str declared)"

definition derive_identity_slug :: "string \<Rightarrow> string" where
  "derive_identity_slug name =
     (let without_prefix = (case strip_prefix ''codex-'' name of Some s \<Rightarrow> s | None \<Rightarrow> name);
          stem = (case strip_suffix ''.json'' without_prefix of Some s \<Rightarrow> s | None \<Rightarrow> without_prefix)
      in if starts_with ''codex-'' name
         then (case rsplit_once (CHR ''-'') stem of
                 Some (identity, plan) \<Rightarrow>
                   if plan \<in> {''pro'', ''plus'', ''team'', ''free''} then identity else stem
               | None \<Rightarrow> stem)
         else stem)"

definition derive_antigravity_slug :: "string \<Rightarrow> string" where
  "derive_antigravity_slug name =
     (let without_prefix = (case strip_prefix ''antigravity-'' name of Some s \<Rightarrow> s | None \<Rightarrow> name)
      in case strip_suffix ''.json'' without_prefix of Some s \<Rightarrow> s | None \<Rightarrow> without_prefix)"

text \<open>The slug an account without one of its own is given from its file\<close>

definition fallback_slug :: "provider_kind \<Rightarrow> provider_account \<Rightarrow> string \<Rightarrow> string" where
  "fallback_slug kind inner name =
     (case inner of
        GenericAccount g \<Rightarrow>
          if kind \<noteq> Generic then derive_identity_slug name
          else if ga_provider g = ''cline'' \<and> ga_email g \<noteq> [] then ''cline-'' @ ga_email g
          else if ga_label g \<noteq> [] \<and> ga_label g \<noteq> ''generic'' \<and> \<not> starts_with ''generic-'' (ga_label g)
          then ga_label g
          else derive_identity_slug name
      | _ \<Rightarrow>
          if kind = Devin then
            (case strip_prefix ''devin-'' name of
               None \<Rightarrow> derive_identity_slug name
             | Some rest \<Rightarrow>
                 let s = (case strip_suffix ''.json'' rest of Some t \<Rightarrow> t | None \<Rightarrow> rest)
                 in if s = [] then derive_identity_slug name else s)
          else if kind = Antigravity then derive_antigravity_slug name
          else derive_identity_slug name)"

definition with_identity :: "provider_kind \<Rightarrow> string \<Rightarrow> provider_account \<Rightarrow> provider_account" where
  "with_identity kind name inner =
     (let slug = identity_slug_of inner
      in if slug = [] \<or> (kind = Antigravity \<and> slug = kind_as_str kind)
         then set_identity_slug (fallback_slug kind inner name) inner else inner)"

text \<open>
  The order of the pool: files of the manifest in its order, then the others by path. Paths of one
  directory compare by file name.
\<close>

definition file_key :: "string list \<Rightarrow> string \<Rightarrow> nat \<times> nat \<times> string" where
  "file_key order name =
     (case position (\<lambda>n. n = name) order of Some i \<Rightarrow> (0, i, []) | None \<Rightarrow> (1, 0, name))"

definition ACCOUNT_ORDER_FILE :: string where "ACCOUNT_ORDER_FILE = ''.mahoquot-account-order.json''"

definition list_auth_files :: "string list \<Rightarrow> string list \<Rightarrow> string list" where
  "list_auth_files order names =
     sort_key (file_key order)
       (filter (\<lambda>n. ends_with ''.json'' n \<and> n \<noteq> ACCOUNT_ORDER_FILE) names)"

section \<open>Facts\<close>

lemma kind_roundtrip: "kind_from_type_str (kind_as_str k) = Some k"
  by (cases k) (simp_all add: kind_from_type_str_def)

lemma identity_slug_set [simp]: "identity_slug_of (set_identity_slug s a) = s"
  by (cases a) simp_all

lemma account_kind_set_slug [simp]: "account_kind (set_identity_slug s a) = account_kind a"
  by (cases a) simp_all

lemma access_token_set_slug [simp]: "access_token (set_identity_slug s a) = access_token a"
  by (cases a) (simp_all split: option.split)

lemma set_header_override:
  "\<exists>h \<in> set (set_header (name, v) hs). eq_ignore_ascii_case (fst h) name \<and> snd h = v"
proof (induction hs)
  case (Cons h hs)
  obtain n w where h: "h = (n, w)" by (cases h)
  show ?case
  proof (cases "eq_ignore_ascii_case n name")
    case True
    with h show ?thesis by (intro bexI[of _ "(n, v)"]) auto
  next
    case False
    with h Cons.IH show ?thesis by auto
  qed
qed (simp add: eq_ignore_ascii_case_def)

text \<open>Header names stay distinct up to case, so a configured header replaces a built-in one.\<close>

definition header_names :: "(string \<times> string) list \<Rightarrow> string list" where
  "header_names hs = map (\<lambda>h. to_ascii_lowercase (fst h)) hs"

lemma header_names_set_header:
  "header_names (set_header (name, v) hs) =
     (if to_ascii_lowercase name \<in> set (header_names hs) then header_names hs
      else header_names hs @ [to_ascii_lowercase name])"
proof (induction hs)
  case (Cons h hs)
  obtain n w where h: "h = (n, w)" by (cases h)
  have cons: "header_names ((x, y) # ys) = to_ascii_lowercase x # header_names ys" for x y ys
    by (simp add: header_names_def)
  show ?case
  proof (cases "to_ascii_lowercase n = to_ascii_lowercase name")
    case True
    then show ?thesis by (simp add: h eq_ignore_ascii_case_def cons)
  next
    case False
    then show ?thesis using Cons.IH by (simp add: h eq_ignore_ascii_case_def cons)
  qed
qed (simp add: header_names_def)

lemma distinct_header_names_fold:
  "distinct (header_names hs) \<Longrightarrow> distinct (header_names (foldl (\<lambda>hs h. set_header h hs) hs xs))"
proof (induction xs arbitrary: hs)
  case (Cons x xs)
  obtain n v where "x = (n, v)" by (cases x)
  with Cons show ?case by (simp add: header_names_set_header)
qed simp

lemma sort_key_pairs_index:
  assumes "i < j" "j < length (sort_key f xs)"
  shows "f (sort_key f xs ! i) \<le> f (sort_key f xs ! j)"
  using sorted_sort_key[of f xs] assms by (simp add: sorted_iff_nth_mono_less)

text \<open>Listed credentials come first and in the order of the manifest.\<close>

lemma list_auth_files_order:
  assumes "i < j" "j < length (list_auth_files order names)"
    and "list_auth_files order names ! j \<in> set order"
  shows "list_auth_files order names ! i \<in> set order \<and>
         (\<exists>a b. position (\<lambda>n. n = list_auth_files order names ! i) order = Some a \<and>
                position (\<lambda>n. n = list_auth_files order names ! j) order = Some b \<and> a \<le> b)"
proof -
  let ?L = "list_auth_files order names"
  have le: "file_key order (?L ! i) \<le> file_key order (?L ! j)"
    using assms(1,2) unfolding list_auth_files_def by (rule sort_key_pairs_index)
  obtain b where b: "position (\<lambda>n. n = ?L ! j) order = Some b"
    using assms(3) position_None[of "\<lambda>n. n = ?L ! j" order]
    by (cases "position (\<lambda>n. n = ?L ! j) order") auto
  obtain a where a: "position (\<lambda>n. n = ?L ! i) order = Some a"
    using le b by (cases "position (\<lambda>n. n = ?L ! i) order") (auto simp: file_key_def)
  then have "?L ! i \<in> set order"
    using position_None[of "\<lambda>n. n = ?L ! i" order] by auto
  with a b le show ?thesis by (auto simp: file_key_def)
qed

end
