(* ===== verification/Account_Usage.thy ===== *)
theory Account_Usage
  imports Usage Text_Parsing
begin

text \<open>
  The quota snapshot of an account, \<open>AccountUsage\<close> of \<^verbatim>\<open>crates/gateway/src/usage.rs\<close>: its windows,
  model groups and buckets, when a plan counts as exhausted, how response headers are merged into
  a polled snapshot, and how stale readings are marked. Percentages are the \<open>f64\<close> values of
  \<open>Usage\<close>.
\<close>

section \<open>Data\<close>

record quota_bucket =
  bucket_id :: "string option"
  qb_display_name :: "string option"
  qb_window :: "string option"
  qb_used_percent :: "f64 option"
  qb_reset_at_unix :: "int option"

record quota_group =
  qg_display_name :: "string option"
  qg_models :: "string option"
  qg_buckets :: "quota_bucket list"

record reset_credit =
  granted_at_unix :: "int option"
  expires_at_unix :: "int option"
  rc_status :: "string option"

record model_availability =
  ma_available :: "bool option"
  available_at :: "string option"
  credits_would_enable :: "bool option"

record relay_usage_totals =
  ut_requests :: nat
  ut_tokens :: nat
  ut_cached_input_tokens :: "nat option"
  total_cost_usd :: "f64 option"

record usage_window_delta =
  wd_label :: string
  wd_requests :: nat
  wd_tokens :: nat
  wd_cost_usd :: "f64 option"

record account_usage =
  us_plan_type :: "string option"
  us_active_limit :: "string option"
  us_primary :: quota_window
  us_secondary :: quota_window
  us_groups :: "quota_group list"
  us_credits_balance :: "f64 option"
  us_credits_unlimited :: "bool option"
  us_has_credits :: "bool option"
  us_overage_limit_reached :: "bool option"
  us_reset_credits_available :: "int option"
  us_reset_credits :: "reset_credit list"
  us_observed_at_unix :: "int option"
  us_totals :: "relay_usage_totals option"
  us_windows :: "usage_window_delta list"
  us_refreshed_at_unix :: "int option"
  us_last_refresh_error :: "string option"
  us_refresh_status :: "string option"
  us_model_availability :: "(string, model_availability) omap option"

definition account_usage_default :: account_usage where
  "account_usage_default =
     \<lparr>us_plan_type = None, us_active_limit = None, us_primary = quota_window_default,
      us_secondary = quota_window_default, us_groups = [], us_credits_balance = None,
      us_credits_unlimited = None, us_has_credits = None, us_overage_limit_reached = None,
      us_reset_credits_available = None, us_reset_credits = [], us_observed_at_unix = None,
      us_totals = None, us_windows = [], us_refreshed_at_unix = None,
      us_last_refresh_error = None, us_refresh_status = None, us_model_availability = None\<rparr>"

section \<open>Exhaustion\<close>

fun f64_at_least :: "f64 \<Rightarrow> rat \<Rightarrow> bool" where
  "f64_at_least (Fin r) c = (c \<le> r)"
| "f64_at_least PosInf c = True"
| "f64_at_least NegInf c = False"
| "f64_at_least NaN c = False"

definition spark_alias :: "string \<Rightarrow> bool" where
  "spark_alias s \<longleftrightarrow> s = ''gpt-5.3-codex-spark'' \<or> s = ''spark''"

definition matches_codex_model :: "string option \<Rightarrow> string option \<Rightarrow> string \<Rightarrow> bool" where
  "matches_codex_model group_models bucket requested \<longleftrightarrow>
     (case group_models of
        None \<Rightarrow> False
      | Some models \<Rightarrow>
          models = requested \<or>
          (models = ''bengalfox'' \<and> spark_alias requested) \<or>
          (spark_alias models \<and> requested = ''bengalfox'') \<or>
          list_ex (\<lambda>m. trim m = requested)
            (split_where (\<lambda>c. c = CHR '','' \<or> c = CHR '' '') models)) \<or>
     (case bucket of
        None \<Rightarrow> False
      | Some ident \<Rightarrow>
          ident = requested \<or>
          (case (case strip_suffix ''-primary'' ident of
                   Some base \<Rightarrow> Some base | None \<Rightarrow> strip_suffix ''-secondary'' ident) of
             None \<Rightarrow> False
           | Some base \<Rightarrow> base = requested \<or> (base = ''bengalfox'' \<and> spark_alias requested)))"

text \<open>
  A reading of 100 percent counts until its reset; without a reset it counts for five minutes
  after it was observed. The same rule stands in \<open>flat_window_exhausted\<close> and in the loop over
  the buckets.
\<close>

definition reading_exhausted ::
  "f64 option \<Rightarrow> int option \<Rightarrow> int option \<Rightarrow> int \<Rightarrow> bool" where
  "reading_exhausted used reset observed now =
     (case used of
        None \<Rightarrow> False
      | Some percent \<Rightarrow>
          f64_at_least percent 100 \<and>
          (case reset of
             Some reset_at \<Rightarrow> reset_at > now
           | None \<Rightarrow> (case observed of None \<Rightarrow> False | Some obs \<Rightarrow> i64_saturating_sub now obs \<le> 300)))"

definition is_codex_hard_limit_reached :: "account_usage \<Rightarrow> bool" where
  "is_codex_hard_limit_reached u \<longleftrightarrow> us_overage_limit_reached u = Some True"

definition flat_window_exhausted :: "account_usage \<Rightarrow> int \<Rightarrow> bool" where
  "flat_window_exhausted u now =
     list_ex (\<lambda>w. \<not> quota_window_is_empty w \<and>
                  reading_exhausted (used_percent w) (qw_reset_at_unix w) (us_observed_at_unix u) now)
       [us_primary u, us_secondary u]"

definition is_claude_included_quota_exhausted :: "account_usage \<Rightarrow> int \<Rightarrow> bool" where
  "is_claude_included_quota_exhausted u now = flat_window_exhausted u now"

definition is_codex_included_quota_exhausted ::
  "account_usage \<Rightarrow> string option \<Rightarrow> int \<Rightarrow> bool" where
  "is_codex_included_quota_exhausted u requested now \<longleftrightarrow>
     flat_window_exhausted u now \<or>
     (case requested of
        None \<Rightarrow> False
      | Some model \<Rightarrow>
          list_ex (\<lambda>g. list_ex (\<lambda>b. matches_codex_model (qg_models g) (bucket_id b) model \<and>
                reading_exhausted (qb_used_percent b) (qb_reset_at_unix b) (us_observed_at_unix u) now)
              (qg_buckets g))
            (us_groups u))"

definition usage_is_known :: "account_usage \<Rightarrow> bool" where
  "usage_is_known u \<longleftrightarrow> us_observed_at_unix u \<noteq> None"

section \<open>Merging response headers\<close>

abbreviation or_keep :: "'a option \<Rightarrow> 'a option \<Rightarrow> 'a option" where
  "or_keep incoming existing \<equiv> (case incoming of None \<Rightarrow> existing | Some _ \<Rightarrow> incoming)"

definition same_window_identity :: "quota_window \<Rightarrow> quota_window \<Rightarrow> bool" where
  "same_window_identity existing incoming =
     (case (window_minutes existing, window_minutes incoming) of
        (Some l, Some r) \<Rightarrow> l = r
      | _ \<Rightarrow> (case (limit_name existing, limit_name incoming) of
                (Some l, Some r) \<Rightarrow> l = r | _ \<Rightarrow> True))"

definition merge_quota_window :: "quota_window \<Rightarrow> quota_window \<Rightarrow> quota_window" where
  "merge_quota_window existing incoming =
     (if \<not> same_window_identity existing incoming then incoming
      else \<lparr>used_percent = or_keep (used_percent incoming) (used_percent existing),
            window_minutes = or_keep (window_minutes incoming) (window_minutes existing),
            reset_after_seconds = or_keep (reset_after_seconds incoming) (reset_after_seconds existing),
            qw_reset_at_unix = or_keep (qw_reset_at_unix incoming) (qw_reset_at_unix existing),
            limit_name = or_keep (limit_name incoming) (limit_name existing)\<rparr>)"

definition merge_quota_bucket :: "quota_bucket \<Rightarrow> quota_bucket \<Rightarrow> quota_bucket" where
  "merge_quota_bucket existing incoming =
     existing\<lparr>qb_display_name := or_keep (qb_display_name incoming) (qb_display_name existing),
              qb_window := or_keep (qb_window incoming) (qb_window existing),
              qb_used_percent := or_keep (qb_used_percent incoming) (qb_used_percent existing),
              qb_reset_at_unix := or_keep (qb_reset_at_unix incoming) (qb_reset_at_unix existing)\<rparr>"

datatype window_slot = PrimarySlot | SecondarySlot

definition header_target :: "account_usage \<Rightarrow> quota_window \<Rightarrow> window_slot option" where
  "header_target u incoming =
     (let minutes = window_minutes incoming; name = limit_name incoming;
          p = us_primary u; s = us_secondary u;
          fits = (\<lambda>w. minutes \<noteq> None \<and> window_minutes w = minutes \<and>
                     (name = None \<or> limit_name w = None \<or> limit_name w = name));
          named = (\<lambda>w. name \<noteq> None \<and> limit_name w = name);
          free = (if quota_window_is_empty p then Some PrimarySlot
                  else if quota_window_is_empty s then Some SecondarySlot else None)
      in if fits p then Some PrimarySlot
         else if fits s then Some SecondarySlot
         else if named p then Some PrimarySlot
         else if named s then Some SecondarySlot
         else if minutes \<noteq> None then free
         else if name = None \<and> \<not> quota_window_is_empty p then Some PrimarySlot
         else if name = None \<and> \<not> quota_window_is_empty s then Some SecondarySlot
         else free)"

definition apply_header_window :: "account_usage \<Rightarrow> quota_window \<Rightarrow> account_usage" where
  "apply_header_window u incoming =
     (if quota_window_is_empty incoming then u
      else case header_target u incoming of
             None \<Rightarrow> u
           | Some PrimarySlot \<Rightarrow> u\<lparr>us_primary := merge_quota_window (us_primary u) incoming\<rparr>
           | Some SecondarySlot \<Rightarrow> u\<lparr>us_secondary := merge_quota_window (us_secondary u) incoming\<rparr>)"

text \<open>\<open>iter_mut().find(P)\<close> followed by an update of the element found\<close>

fun update_first :: "('a \<Rightarrow> bool) \<Rightarrow> ('a \<Rightarrow> 'a) \<Rightarrow> 'a list \<Rightarrow> 'a list" where
  "update_first P f [] = []"
| "update_first P f (x # xs) = (if P x then f x # xs else x # update_first P f xs)"

definition apply_header_bucket :: "quota_bucket list \<Rightarrow> quota_bucket \<Rightarrow> quota_bucket list" where
  "apply_header_bucket buckets b =
     (let same = (\<lambda>x. bucket_id x \<noteq> None \<and> bucket_id x = bucket_id b)
      in if list_ex same buckets then update_first same (\<lambda>x. merge_quota_bucket x b) buckets
         else buckets @ [b])"

definition apply_header_group :: "quota_group list \<Rightarrow> quota_group \<Rightarrow> quota_group list" where
  "apply_header_group groups hg =
     (let same = (\<lambda>g. qg_models g \<noteq> None \<and> qg_models g = qg_models hg)
      in if list_ex same groups
         then update_first same
                (\<lambda>g. g\<lparr>qg_buckets := foldl apply_header_bucket (qg_buckets g) (qg_buckets hg),
                       qg_display_name := or_keep (qg_display_name hg) (qg_display_name g)\<rparr>) groups
         else groups @ [hg])"

definition apply_header_update :: "account_usage \<Rightarrow> account_usage \<Rightarrow> account_usage" where
  "apply_header_update u h =
     (let u1 = u\<lparr>us_observed_at_unix := or_keep (us_observed_at_unix h) (us_observed_at_unix u),
                 us_plan_type := or_keep (us_plan_type h) (us_plan_type u),
                 us_active_limit := or_keep (us_active_limit h) (us_active_limit u)\<rparr>;
          u2 = apply_header_window (apply_header_window u1 (us_primary h)) (us_secondary h)
      in u2\<lparr>us_credits_balance := or_keep (us_credits_balance h) (us_credits_balance u2),
            us_credits_unlimited := or_keep (us_credits_unlimited h) (us_credits_unlimited u2),
            us_has_credits := or_keep (us_has_credits h) (us_has_credits u2),
            us_overage_limit_reached := or_keep (us_overage_limit_reached h) (us_overage_limit_reached u2),
            us_groups := foldl apply_header_group (us_groups u2) (us_groups h)\<rparr>)"

section \<open>Freshness\<close>

definition CLINE_GROUP_NAME :: string where "CLINE_GROUP_NAME = ''Cline Free Limits''"

definition expire_stale_cline_limits :: "int \<Rightarrow> account_usage \<Rightarrow> account_usage" where
  "expire_stale_cline_limits now u =
     u\<lparr>us_groups :=
         map (\<lambda>g. if qg_display_name g = Some CLINE_GROUP_NAME
                   then g\<lparr>qg_buckets :=
                            map (\<lambda>b. case qb_reset_at_unix b of
                                        None \<Rightarrow> b
                                      | Some reset \<Rightarrow>
                                          if reset \<le> now
                                          then b\<lparr>qb_used_percent := None, qb_reset_at_unix := None\<rparr> else b)
                              (qg_buckets g)\<rparr>
                   else g)
           (us_groups u)\<rparr>"

definition with_quota_freshness :: "account_usage \<Rightarrow> int \<Rightarrow> int \<Rightarrow> account_usage" where
  "with_quota_freshness u now stale_after =
     (if us_refresh_status u = Some ''ok'' \<and>
         (case us_refreshed_at_unix u of
            None \<Rightarrow> False | Some t \<Rightarrow> i64_saturating_sub now t > stale_after)
      then u\<lparr>us_refresh_status := Some ''stale''\<rparr> else u)"

section \<open>Facts\<close>

lemma f64_at_least_iff: "f64_at_least x c \<longleftrightarrow> x = PosInf \<or> (\<exists>r. x = Fin r \<and> c \<le> r)"
  by (cases x) auto

lemma with_quota_freshness_windows [simp]:
  "us_primary (with_quota_freshness u now s) = us_primary u"
  "us_secondary (with_quota_freshness u now s) = us_secondary u"
  "us_groups (with_quota_freshness u now s) = us_groups u"
  "us_observed_at_unix (with_quota_freshness u now s) = us_observed_at_unix u"
  "us_overage_limit_reached (with_quota_freshness u now s) = us_overage_limit_reached u"
  by (simp_all add: with_quota_freshness_def)

lemma expire_stale_windows [simp]:
  "us_primary (expire_stale_cline_limits now u) = us_primary u"
  "us_secondary (expire_stale_cline_limits now u) = us_secondary u"
  "us_observed_at_unix (expire_stale_cline_limits now u) = us_observed_at_unix u"
  "us_overage_limit_reached (expire_stale_cline_limits now u) = us_overage_limit_reached u"
  by (simp_all add: expire_stale_cline_limits_def)

text \<open>An empty window is never exhausted, so the emptiness test of the code is redundant.\<close>

lemma flat_window_exhausted_iff:
  "flat_window_exhausted u now \<longleftrightarrow>
     (\<exists>w \<in> {us_primary u, us_secondary u}.
        reading_exhausted (used_percent w) (qw_reset_at_unix w) (us_observed_at_unix u) now)"
  by (auto simp: flat_window_exhausted_def reading_exhausted_def quota_window_is_empty_def
      split: option.splits)

lemma reading_expires:
  "\<exists>t. \<forall>now \<ge> t. \<not> reading_exhausted used reset observed now"
proof (cases reset)
  case (Some r)
  then have "\<forall>now \<ge> r. \<not> reading_exhausted used reset observed now"
    by (auto simp: reading_exhausted_def split: option.splits)
  then show ?thesis ..
next
  case None
  show ?thesis
  proof (cases observed)
    case (Some obs)
    have "\<not> i64_saturating_sub now obs \<le> 300" if "now \<ge> obs + 301" for now
      using that by (auto simp: i64_saturating_sub_def i64_saturate_def i64_max_def i64_min_def)
    with None Some have "\<forall>now \<ge> obs + 301. \<not> reading_exhausted used reset observed now"
      by (auto simp: reading_exhausted_def split: option.splits)
    then show ?thesis ..
  qed (use None in \<open>auto simp: reading_exhausted_def split: option.splits\<close>)
qed

lemma list_readings_expire:
  "\<exists>t. \<forall>now \<ge> t. \<forall>x \<in> set xs. \<not> reading_exhausted (f x) (g x) observed (now :: int)"
proof (induction xs)
  case (Cons x xs)
  then obtain t where t: "\<forall>now \<ge> t. \<forall>x \<in> set xs. \<not> reading_exhausted (f x) (g x) observed now" ..
  obtain t' where "\<forall>now \<ge> t'. \<not> reading_exhausted (f x) (g x) observed now"
    using reading_expires by blast
  with t have "\<forall>now \<ge> max t t'. \<forall>y \<in> set (x # xs). \<not> reading_exhausted (f y) (g y) observed now"
    by auto
  then show ?case ..
qed simp

text \<open>
  Exhaustion is never permanent: whatever a usage snapshot of Codex or Claude says, there is a time
  from which on it no longer excludes the account for a requested model, without a further poll.
\<close>

theorem exhaustion_expires:
  "\<exists>t. \<forall>now \<ge> t. \<not> is_codex_included_quota_exhausted u requested now \<and>
                 \<not> is_claude_included_quota_exhausted u now"
proof -
  let ?bs = "concat (map qg_buckets (us_groups u))"
  obtain t where t: "\<forall>now \<ge> t. \<forall>b \<in> set ?bs.
      \<not> reading_exhausted (qb_used_percent b) (qb_reset_at_unix b) (us_observed_at_unix u) now"
    using list_readings_expire by blast
  obtain t' where t': "\<forall>now \<ge> t'. \<forall>w \<in> set [us_primary u, us_secondary u].
      \<not> reading_exhausted (used_percent w) (qw_reset_at_unix w) (us_observed_at_unix u) now"
    using list_readings_expire by blast
  have "\<not> is_codex_included_quota_exhausted u requested now \<and>
      \<not> is_claude_included_quota_exhausted u now" if "now \<ge> max t t'" for now
    using that t t'
    by (auto simp: is_codex_included_quota_exhausted_def is_claude_included_quota_exhausted_def
        flat_window_exhausted_iff list_ex_iff split: option.splits)
  then show ?thesis by blast
qed

text \<open>What only a poll reports is not touched by response headers.\<close>

lemma apply_header_window_keeps [simp]:
  "us_observed_at_unix (apply_header_window u w) = us_observed_at_unix u"
  "us_groups (apply_header_window u w) = us_groups u"
  "us_reset_credits_available (apply_header_window u w) = us_reset_credits_available u"
  "us_reset_credits (apply_header_window u w) = us_reset_credits u"
  "us_refreshed_at_unix (apply_header_window u w) = us_refreshed_at_unix u"
  "us_refresh_status (apply_header_window u w) = us_refresh_status u"
  "us_last_refresh_error (apply_header_window u w) = us_last_refresh_error u"
  "us_model_availability (apply_header_window u w) = us_model_availability u"
  "us_totals (apply_header_window u w) = us_totals u"
  "us_windows (apply_header_window u w) = us_windows u"
  by (simp_all add: apply_header_window_def split: option.split window_slot.split)

lemma header_update_keeps_polled:
  "us_reset_credits_available (apply_header_update u h) = us_reset_credits_available u"
  "us_reset_credits (apply_header_update u h) = us_reset_credits u"
  "us_refreshed_at_unix (apply_header_update u h) = us_refreshed_at_unix u"
  "us_refresh_status (apply_header_update u h) = us_refresh_status u"
  "us_last_refresh_error (apply_header_update u h) = us_last_refresh_error u"
  "us_model_availability (apply_header_update u h) = us_model_availability u"
  "us_totals (apply_header_update u h) = us_totals u"
  "us_windows (apply_header_update u h) = us_windows u"
  by (simp_all add: apply_header_update_def Let_def)

text \<open>A reading that finds a slot is what the window reports afterwards.\<close>

lemma merge_quota_window_reports:
  assumes "used_percent w = Some p" "qw_reset_at_unix w = Some r"
  shows "used_percent (merge_quota_window e w) = Some p"
    and "qw_reset_at_unix (merge_quota_window e w) = Some r"
  using assms by (simp_all add: merge_quota_window_def)

lemma header_exhaustion_noticed:
  assumes "header_target (apply_header_update u (h\<lparr>us_primary := quota_window_default,
                                                   us_secondary := quota_window_default\<rparr>))
             (us_primary h) = Some slot"
    and "quota_window_is_empty (us_secondary h)"
    and "used_percent (us_primary h) = Some p" "f64_at_least p 100"
    and "qw_reset_at_unix (us_primary h) = Some r" "now < r"
  shows "flat_window_exhausted (apply_header_update u h) now"
proof -
  let ?u1 = "u\<lparr>us_observed_at_unix := or_keep (us_observed_at_unix h) (us_observed_at_unix u),
              us_plan_type := or_keep (us_plan_type h) (us_plan_type u),
              us_active_limit := or_keep (us_active_limit h) (us_active_limit u)\<rparr>"
  have "quota_window_is_empty quota_window_default"
    by (simp add: quota_window_is_empty_def quota_window_default_def)
  then have "header_target ?u1 (us_primary h) = Some slot"
    using assms(1) by (simp add: apply_header_update_def apply_header_window_def header_target_def Let_def)
  moreover have "\<not> quota_window_is_empty (us_primary h)"
    using assms(3) by (simp add: quota_window_is_empty_def)
  ultimately show ?thesis
    using assms(2-) merge_quota_window_reports[OF assms(3,5)]
    by (cases slot)
       (simp_all add: apply_header_update_def apply_header_window_def flat_window_exhausted_iff
         reading_exhausted_def Let_def)
qed

end
