(* ===== verification/Cline_Usage.thy ===== *)
theory Cline_Usage
  imports Account_Usage
begin

text \<open>
  The rolling 24-hour token estimate of Cline accounts, \<^verbatim>\<open>crates/gateway/src/cline_usage.rs\<close>, and
  the deadline a Cline cap is benched until, \<open>resolve_cline_deadline\<close> of
  \<^verbatim>\<open>crates/gateway/src/relay.rs\<close>. A tracker is the record of its atomics; clock readings and
  environment variables are arguments.
\<close>

section \<open>One tracker\<close>

definition DEFAULT_CLINE_DAILY_TOKEN_BUDGET :: nat where
  "DEFAULT_CLINE_DAILY_TOKEN_BUDGET = 15200000"
definition DAY_SECS :: int where "DAY_SECS = 86400"
definition MAX_COOLDOWN_SECS :: int where "MAX_COOLDOWN_SECS = 86400"

record cline_tracker =
  ct_used_tokens :: nat
  ct_window_start :: int
  ct_reset_override :: int
  ct_seeded :: bool
  ct_budget :: nat

definition cline_tracker_with_config :: "nat \<Rightarrow> cline_tracker" where
  "cline_tracker_with_config budget =
     \<lparr>ct_used_tokens = 0, ct_window_start = 0, ct_reset_override = 0, ct_seeded = False,
      ct_budget = budget\<rparr>"

definition cline_used_percent :: "cline_tracker \<Rightarrow> rat option" where
  "cline_used_percent t =
     (if ct_budget t = 0 then None
      else Some (min 100 (f64_nearest
             (f64_nearest (f64_nearest (of_nat (ct_used_tokens t)) * 100) /
              f64_nearest (of_nat (ct_budget t))))))"

definition estimated_reset_unix :: "cline_tracker \<Rightarrow> int" where
  "estimated_reset_unix t =
     (if ct_reset_override t > 0 then ct_reset_override t
      else if ct_window_start t > 0 then i64_add (ct_window_start t) DAY_SECS else 0)"

definition rollover_if_lapsed :: "int \<Rightarrow> cline_tracker \<Rightarrow> cline_tracker" where
  "rollover_if_lapsed now t =
     (let lapse = (\<lambda>reset. if now \<ge> reset
                           then t\<lparr>ct_used_tokens := 0, ct_window_start := 0, ct_reset_override := 0\<rparr>
                           else t)
      in if ct_reset_override t > 0 then lapse (ct_reset_override t)
         else if ct_window_start t > 0 then lapse (i64_add (ct_window_start t) DAY_SECS)
         else t)"

definition seed_from_history :: "nat \<Rightarrow> int \<Rightarrow> int \<Rightarrow> cline_tracker \<Rightarrow> cline_tracker" where
  "seed_from_history sum_tokens start now t =
     (if ct_seeded t then t
      else let t' = t\<lparr>ct_seeded := True\<rparr> in
        if start > 0 \<and> i64_add start DAY_SECS > now
        then t'\<lparr>ct_window_start := (if ct_window_start t' = 0 then start else ct_window_start t'),
                ct_used_tokens := max (ct_used_tokens t') sum_tokens\<rparr>
        else t')"

definition anchor_window :: "int \<Rightarrow> cline_tracker \<Rightarrow> cline_tracker" where
  "anchor_window now t =
     (let t' = rollover_if_lapsed now t
      in if ct_window_start t' = 0 \<and> now > 0 then t'\<lparr>ct_window_start := now\<rparr> else t')"

definition cline_observe :: "nat \<Rightarrow> int \<Rightarrow> cline_tracker \<Rightarrow> cline_tracker" where
  "cline_observe tokens now t =
     (let t1 = rollover_if_lapsed now t;
          t2 = (if ct_window_start t1 = 0 then t1\<lparr>ct_window_start := now\<rparr> else t1)
      in t2\<lparr>ct_used_tokens := u64_wrapping_add (ct_used_tokens t2) tokens\<rparr>)"

definition on_cap_429_at :: "int \<Rightarrow> int \<Rightarrow> cline_tracker \<Rightarrow> cline_tracker" where
  "on_cap_429_at reset now t =
     (if reset \<le> now then t
      else t\<lparr>ct_reset_override := reset,
             ct_used_tokens := max (ct_used_tokens t) (ct_budget t),
             ct_window_start :=
               (if ct_window_start t = 0 then i64_sub reset DAY_SECS else ct_window_start t)\<rparr>)"

section \<open>The trackers of an account\<close>

text \<open>\<open>rsplit('/').next()\<close>: what follows the last slash.\<close>

definition cline_quota_slug :: "string \<Rightarrow> string" where
  "cline_quota_slug model =
     (case rsplit_once (CHR ''/'') model of None \<Rightarrow> model | Some (_, slug) \<Rightarrow> slug)"

definition budget_env :: "(string \<Rightarrow> string option) \<Rightarrow> string \<Rightarrow> nat" where
  "budget_env env name =
     (case Option.bind (env name) parse_u64 of
        Some n \<Rightarrow> n
      | None \<Rightarrow> (case Option.bind (env ''CLINE_DAILY_TOKEN_BUDGET'') parse_u64 of
                   Some n \<Rightarrow> n | None \<Rightarrow> DEFAULT_CLINE_DAILY_TOKEN_BUDGET))"

definition budget_for_slug :: "(string \<Rightarrow> string option) \<Rightarrow> string \<Rightarrow> nat" where
  "budget_for_slug env slug =
     (if slug = ''gemini-3.8-flash'' then budget_env env ''CLINE_GLM_DAILY_TOKEN_BUDGET''
      else if slug = ''deepseek-v4.1-flash'' then budget_env env ''CLINE_DEEPSEEK_DAILY_TOKEN_BUDGET''
      else budget_env env ''CLINE_DAILY_TOKEN_BUDGET'')"

type_synonym cline_trackers = "(string, cline_tracker) omap"

definition cline_trackers_from_env :: cline_trackers where "cline_trackers_from_env = []"

definition trackers_insert :: "string \<Rightarrow> nat \<Rightarrow> cline_trackers \<Rightarrow> cline_trackers" where
  "trackers_insert slug budget ts = omap_insert slug (cline_tracker_with_config budget) ts"

definition trackers_with_budgets :: "nat \<Rightarrow> nat \<Rightarrow> cline_trackers" where
  "trackers_with_budgets glm deepseek =
     trackers_insert ''deepseek-v4.1-flash'' deepseek
       (trackers_insert ''gemini-3.8-flash'' glm cline_trackers_from_env)"

text \<open>\<open>for_model\<close> hands out a shared tracker; the second result is the map it is now part of.\<close>

definition tracker_for_model ::
  "(string \<Rightarrow> string option) \<Rightarrow> string \<Rightarrow> cline_trackers \<Rightarrow> cline_tracker \<times> cline_trackers" where
  "tracker_for_model env model ts =
     (let slug = cline_quota_slug model in
      case omap_get ts slug of
        Some t \<Rightarrow> (t, ts)
      | None \<Rightarrow> (let t = cline_tracker_with_config (budget_for_slug env slug)
                 in (t, omap_insert slug t ts)))"

definition existing_tracker :: "cline_trackers \<Rightarrow> string \<Rightarrow> cline_tracker option" where
  "existing_tracker ts model = omap_get ts (cline_quota_slug model)"

text \<open>A change of the tracker that \<open>for_model\<close> handed out\<close>

definition update_tracker ::
  "(string \<Rightarrow> string option) \<Rightarrow> string \<Rightarrow> (cline_tracker \<Rightarrow> cline_tracker) \<Rightarrow> cline_trackers \<Rightarrow> cline_trackers" where
  "update_tracker env model f ts =
     (let (t, ts') = tracker_for_model env model ts in omap_insert (cline_quota_slug model) (f t) ts')"

section \<open>The deadline of a cap\<close>

definition resolve_cline_deadline :: "cline_tracker option \<Rightarrow> int \<Rightarrow> int \<Rightarrow> int" where
  "resolve_cline_deadline tracker now reported =
     (let candidate = i64_saturating_add now reported in
      if reported < MAX_COOLDOWN_SECS then candidate
      else let known = (case tracker of None \<Rightarrow> 0 | Some t \<Rightarrow> estimated_reset_unix t)
           in if known > now then known else candidate)"

section \<open>Facts\<close>

lemma cline_quota_slug_idem [simp]: "cline_quota_slug (cline_quota_slug m) = cline_quota_slug m"
proof (cases "rsplit_once (CHR ''/'') m")
  case (Some p)
  obtain a b where p: "p = (a, b)" by (cases p)
  then have "CHR ''/'' \<notin> set b" using Some by (simp add: rsplit_once_Some)
  moreover have "rsplit_once (CHR ''/'') b = None" if "CHR ''/'' \<notin> set b"
    using that by (auto simp: rsplit_once_def split_once_None)
  ultimately show ?thesis using Some p by (simp add: cline_quota_slug_def)
qed (simp add: cline_quota_slug_def)

lemma cline_quota_slug_prefixed: "CHR ''/'' \<notin> set s \<Longrightarrow> cline_quota_slug (p @ CHR ''/'' # s) = s"
  using rsplit_once_Some[of "CHR ''/''" "p @ CHR ''/'' # s" p s] by (simp add: cline_quota_slug_def)

lemma estimated_reset_after_cap:
  "now < reset \<Longrightarrow> 0 < reset \<Longrightarrow> estimated_reset_unix (on_cap_429_at reset now t) = reset"
  by (simp add: on_cap_429_at_def estimated_reset_unix_def)

text \<open>
  Handling of one cap: the deadline it is benched until, and the tracker afterwards.
\<close>

definition cap_step :: "int \<Rightarrow> int \<Rightarrow> cline_tracker \<Rightarrow> int \<times> cline_tracker" where
  "cap_step now reported t =
     (let reset = resolve_cline_deadline (Some t) now reported in (reset, on_cap_429_at reset now t))"

text \<open>The deadlines of a series of caps, given by their times and reported seconds.\<close>

fun cap_deadlines :: "(int \<times> int) list \<Rightarrow> cline_tracker \<Rightarrow> int list" where
  "cap_deadlines [] t = []"
| "cap_deadlines ((now, reported) # caps) t =
     (let (d, t') = cap_step now reported t in d # cap_deadlines caps t')"

text \<open>
  Once a deadline is known, readings that only say a day or more neither move it nor let it
  drift, however often they repeat before it.
\<close>

theorem clamped_caps_keep_deadline:
  assumes "estimated_reset_unix t = d" "0 < d"
    and "list_all (\<lambda>(now, reported). now < d \<and> MAX_COOLDOWN_SECS \<le> reported) caps"
  shows "cap_deadlines caps t = replicate (length caps) d"
  using assms
proof (induction caps arbitrary: t)
  case (Cons c caps)
  obtain now reported where c: "c = (now, reported)" by (cases c)
  with Cons.prems have now: "now < d" "MAX_COOLDOWN_SECS \<le> reported" by auto
  then have r: "resolve_cline_deadline (Some t) now reported = d"
    using Cons.prems(1) by (simp add: resolve_cline_deadline_def)
  have "estimated_reset_unix (on_cap_429_at d now t) = d"
    using now(1) Cons.prems(2) by (rule estimated_reset_after_cap)
  then have "cap_deadlines caps (on_cap_429_at d now t) = replicate (length caps) d"
    using Cons.prems by (intro Cons.IH) auto
  then show ?case by (simp add: c cap_step_def r)
qed simp

end
