(* ===== verification/Devin_Catalog.thy ===== *)
theory Devin_Catalog
  imports Text_Parsing Usage "HOL-Library.AList"
begin

text \<open>
  Model discovery for Devin accounts, \<^verbatim>\<open>crates/gateway/src/devin_catalog.rs\<close>: the catalog state
  of one account, the filter that turns an upstream answer into models, the bounded body reader
  and the discovery cache with its allow list of live accounts. The cache swaps one value, so each
  operation is one step. A hash map is an association list; the hash of a token is an argument.
\<close>

section \<open>Catalog state\<close>

definition DEVIN_CATALOG_TTL_SECS :: nat where "DEVIN_CATALOG_TTL_SECS = 300"
definition MAX_DISCOVERY_RESPONSE_BYTES :: nat where "MAX_DISCOVERY_RESPONSE_BYTES = 16 * 1024 * 1024"

record devin_cache_key =
  key_identity_slug :: string
  credential_revision :: string
  credential_token :: string
  key_base_url :: string

definition devin_cache_key_new ::
  "(string \<Rightarrow> string) \<Rightarrow> string \<Rightarrow> string \<Rightarrow> string \<Rightarrow> devin_cache_key" where
  "devin_cache_key_new revision slug token base =
     \<lparr>key_identity_slug = slug, credential_revision = revision token, credential_token = token,
      key_base_url = base\<rparr>"

record discovered_devin_model =
  model_uid :: string
  public_id :: string
  dd_label :: string
  supports_images :: bool
  is_premium :: bool
  is_beta :: bool
  is_recommended :: bool
  is_new :: bool
  is_capacity_limited :: bool
  promo_active :: bool
  max_tokens :: "int option"
  credit_multiplier :: "f64 option"
  dd_description :: "string option"

record devin_catalog =
  dc_key :: devin_cache_key
  dc_sequence :: nat
  dc_models :: "discovered_devin_model list"
  cached_at_unix :: nat
  expires_at_unix :: nat
  last_refresh_at :: "nat option"
  dc_last_error :: "string option"
  dc_stale :: bool
  has_succeeded :: bool

definition devin_catalog_new_success ::
  "devin_cache_key \<Rightarrow> discovered_devin_model list \<Rightarrow> nat \<Rightarrow> devin_catalog" where
  "devin_catalog_new_success key models now =
     \<lparr>dc_key = key, dc_sequence = 0, dc_models = models, cached_at_unix = now,
      expires_at_unix = u64_wrapping_add now DEVIN_CATALOG_TTL_SECS, last_refresh_at = Some now,
      dc_last_error = None, dc_stale = False, has_succeeded = True\<rparr>"

definition devin_catalog_initial_failure :: "devin_cache_key \<Rightarrow> string \<Rightarrow> nat \<Rightarrow> devin_catalog" where
  "devin_catalog_initial_failure key err now =
     \<lparr>dc_key = key, dc_sequence = 0, dc_models = [], cached_at_unix = now, expires_at_unix = now,
      last_refresh_at = Some now, dc_last_error = Some err, dc_stale = True, has_succeeded = False\<rparr>"

definition devin_is_stale :: "devin_catalog \<Rightarrow> nat \<Rightarrow> bool" where
  "devin_is_stale c now \<longleftrightarrow> dc_stale c \<or> now \<ge> expires_at_unix c"

definition record_transient_failure :: "string \<Rightarrow> nat \<Rightarrow> devin_catalog \<Rightarrow> devin_catalog" where
  "record_transient_failure err now c =
     c\<lparr>dc_stale := True, dc_last_error := Some err, last_refresh_at := Some now\<rparr>"

datatype devin_discovery_error =
    DevinNetwork | DevinTimeout | DevinInvalidContentType | DevinBodyTooLarge | DevinHttpStatus nat
  | DevinDecode | DevinStalePublication | DevinClientBuild | DevinInternal string

fun safe_message :: "devin_discovery_error \<Rightarrow> string" where
  "safe_message DevinNetwork = ''upstream network connection failed''"
| "safe_message DevinTimeout = ''upstream request timed out''"
| "safe_message DevinInvalidContentType =
     ''upstream returned invalid content type; expected application/proto''"
| "safe_message DevinBodyTooLarge = ''upstream response body exceeded 16 MiB limit''"
| "safe_message (DevinHttpStatus status) =
     (if status = 401 then ''upstream authentication failed (HTTP 401)''
      else if status = 403 then ''upstream access forbidden (HTTP 403)''
      else if status = 404 then ''upstream endpoint not found (HTTP 404)''
      else if status = 429 then ''upstream rate limit exceeded (HTTP 429)''
      else if 500 \<le> status \<and> status \<le> 599 then ''upstream server error''
      else ''upstream returned HTTP error status'')"
| "safe_message DevinDecode = ''upstream returned malformed protobuf response''"
| "safe_message DevinStalePublication =
     ''discovery publication aborted due to concurrent credential change''"
| "safe_message DevinClientBuild = ''failed to build upstream HTTP client''"
| "safe_message (DevinInternal msg) = ''internal discovery error''"

section \<open>Reading an answer\<close>

text \<open>
  A body is the sequence of what \<open>chunk()\<close> returns before \<open>None\<close>: a block of bytes or an error,
  which is a timeout or not.
\<close>

fun read_bounded_body ::
  "(bool + string) list \<Rightarrow> nat \<Rightarrow> string \<Rightarrow> devin_discovery_error + string" where
  "read_bounded_body [] max_bytes buf = Inr buf"
| "read_bounded_body (Inl timeout # cs) max_bytes buf =
     Inl (if timeout then DevinTimeout else DevinNetwork)"
| "read_bounded_body (Inr chunk # cs) max_bytes buf =
     (if u64_saturating_add (length buf) (length chunk) > max_bytes then Inl DevinBodyTooLarge
      else read_bounded_body cs max_bytes (buf @ chunk))"

definition is_proto_content_type :: "string \<Rightarrow> bool" where
  "is_proto_content_type ct =
     (let essence = (case split_where (\<lambda>c. c = CHR '';'') ct of x # _ \<Rightarrow> trim x | [] \<Rightarrow> [])
      in to_ascii_lowercase essence = ''application/proto'')"

text \<open>The fields of a decoded \<open>ClientModelConfig\<close>\<close>

record client_model_config =
  cm_disabled :: "bool option"
  cm_model_uid :: "string option"
  cm_promo_active :: "bool option option"
  cm_label :: "string option"
  cm_supports_images :: "bool option"
  cm_is_premium :: "bool option"
  cm_is_beta :: "bool option"
  cm_is_recommended :: "bool option"
  cm_is_new :: "bool option"
  cm_is_capacity_limited :: "bool option"
  cm_max_tokens :: "int option"
  cm_credit_multiplier :: "f64 option"
  cm_description :: "string option"

abbreviation or_false :: "bool option \<Rightarrow> bool" where
  "or_false b \<equiv> (case b of Some x \<Rightarrow> x | None \<Rightarrow> False)"

definition valid_uid :: "string \<Rightarrow> bool" where
  "valid_uid uid \<longleftrightarrow> uid \<noteq> [] \<and> \<not> str_any starts_ws uid \<and> CHR ''/'' \<notin> set uid \<and> CHR 0x00 \<notin> set uid"

definition discovered_entry :: "string \<Rightarrow> client_model_config \<Rightarrow> discovered_devin_model" where
  "discovered_entry uid c =
     \<lparr>model_uid = uid, public_id = ''devin/'' @ uid,
      dd_label = (case cm_label c of Some l \<Rightarrow> l | None \<Rightarrow> uid),
      supports_images = or_false (cm_supports_images c),
      is_premium = or_false (cm_is_premium c), is_beta = or_false (cm_is_beta c),
      is_recommended = or_false (cm_is_recommended c), is_new = or_false (cm_is_new c),
      is_capacity_limited = or_false (cm_is_capacity_limited c),
      promo_active = or_false (Option.bind (cm_promo_active c) id),
      max_tokens = cm_max_tokens c, credit_multiplier = cm_credit_multiplier c,
      dd_description = cm_description c\<rparr>"

definition discovered_of_config :: "client_model_config \<Rightarrow> discovered_devin_model option" where
  "discovered_of_config c =
     (if or_false (cm_disabled c) then None
      else case cm_model_uid c of
             None \<Rightarrow> None
           | Some uid \<Rightarrow> if valid_uid uid then Some (discovered_entry uid c) else None)"

text \<open>
  The part of \<open>fetch_devin_model_catalog_inner\<close> after the answer has arrived; decoding the
  protobuf message is library code.
\<close>

definition read_model_catalog ::
  "(string \<Rightarrow> client_model_config list option) \<Rightarrow> nat \<Rightarrow> string option \<Rightarrow> (bool + string) list \<Rightarrow>
   devin_discovery_error + discovered_devin_model list" where
  "read_model_catalog decode status content_type chunks =
     (if \<not> (200 \<le> status \<and> status \<le> 299) then Inl (DevinHttpStatus status)
      else if \<not> (case content_type of Some ct \<Rightarrow> is_proto_content_type ct | None \<Rightarrow> False)
      then Inl DevinInvalidContentType
      else rbind (read_bounded_body chunks MAX_DISCOVERY_RESPONSE_BYTES []) (\<lambda>bytes.
        case decode bytes of
          None \<Rightarrow> Inl DevinDecode
        | Some configs \<Rightarrow> Inr (List.map_filter discovered_of_config configs)))"

section \<open>Cache\<close>

record devin_cache =
  dv_active :: "string oset option"
  dv_entries :: "(devin_cache_key \<times> devin_catalog) list"

definition devin_cache_new :: devin_cache where
  "devin_cache_new = \<lparr>dv_active = None, dv_entries = []\<rparr>"

definition devin_cache_get :: "devin_cache \<Rightarrow> devin_cache_key \<Rightarrow> devin_catalog option" where
  "devin_cache_get c key = map_of (dv_entries c) key"

definition devin_cache_insert :: "devin_cache_key \<Rightarrow> devin_catalog \<Rightarrow> devin_cache \<Rightarrow> devin_cache" where
  "devin_cache_insert key state c =
     (let slug = key_identity_slug key in
      if (case dv_active c of None \<Rightarrow> False | Some active \<Rightarrow> slug \<notin> set active) then c
      else c\<lparr>dv_entries :=
               AList.update key state (filter (\<lambda>(k, _). key_identity_slug k \<noteq> slug) (dv_entries c))\<rparr>)"

definition devin_cache_retain :: "string oset \<Rightarrow> devin_cache \<Rightarrow> nat \<times> devin_cache" where
  "devin_cache_retain active c =
     (let entries = filter (\<lambda>(k, _). key_identity_slug k \<in> set active) (dv_entries c)
      in (length (dv_entries c) - length entries,
          \<lparr>dv_active = Some active, dv_entries = entries\<rparr>))"

definition devin_tracked_accounts :: "devin_cache \<Rightarrow> string list" where
  "devin_tracked_accounts c = remdups_adj (sort (map (\<lambda>(k, _). key_identity_slug k) (dv_entries c)))"

section \<open>Lemmas\<close>

lemma read_bounded_body_Inr:
  "read_bounded_body cs n buf = Inr out \<Longrightarrow> length buf \<le> n \<Longrightarrow> n < u64_max \<Longrightarrow> length out \<le> n"
proof (induction cs n buf rule: read_bounded_body.induct)
  case (3 chunk cs max_bytes buf)
  from 3 have small: "\<not> u64_saturating_add (length buf) (length chunk) > max_bytes"
    and rest: "read_bounded_body cs max_bytes (buf @ chunk) = Inr out"
    by (simp_all split: if_splits)
  from small 3 have "length (buf @ chunk) \<le> max_bytes"
    by (simp add: u64_saturating_add_def min_def split: if_splits)
  with 3 small rest show ?case by blast
qed auto

lemma discovered_of_config_Some:
  "discovered_of_config c = Some d \<longleftrightarrow>
     \<not> or_false (cm_disabled c) \<and>
     (\<exists>uid. cm_model_uid c = Some uid \<and> valid_uid uid \<and> d = discovered_entry uid c)"
  by (cases "cm_model_uid c") (auto simp: discovered_of_config_def)

lemma discovered_entry_ids [simp]:
  "model_uid (discovered_entry uid c) = uid" "public_id (discovered_entry uid c) = ''devin/'' @ uid"
  by (simp_all add: discovered_entry_def)

text \<open>One catalog per account, and only for live accounts once membership is known\<close>

definition devin_cache_ok :: "devin_cache \<Rightarrow> bool" where
  "devin_cache_ok c \<longleftrightarrow>
     distinct (map (\<lambda>(k, _). key_identity_slug k) (dv_entries c)) \<and>
     (case dv_active c of
        None \<Rightarrow> True
      | Some active \<Rightarrow> (\<forall>(k, _) \<in> set (dv_entries c). key_identity_slug k \<in> set active))"

lemma update_fresh: "k \<notin> fst ` set xs \<Longrightarrow> AList.update k v xs = xs @ [(k, v)]"
  by (induction xs) auto

lemma devin_cache_insert_ok: "devin_cache_ok c \<Longrightarrow> devin_cache_ok (devin_cache_insert key st c)"
proof -
  assume ok: "devin_cache_ok c"
  let ?slug = "key_identity_slug key"
  let ?kept = "filter (\<lambda>(k, _). key_identity_slug k \<noteq> ?slug) (dv_entries c)"
  have fresh: "key \<notin> fst ` set ?kept" by auto
  have d: "distinct (map (\<lambda>(k, _). key_identity_slug k) ?kept)"
    using ok by (auto simp: devin_cache_ok_def distinct_map inj_on_def)
  have notin: "?slug \<notin> (\<lambda>(k, _). key_identity_slug k) ` set ?kept" by auto
  have up: "AList.update key st ?kept = ?kept @ [(key, st)]" by (rule update_fresh[OF fresh])
  show ?thesis
  proof (cases "case dv_active c of None \<Rightarrow> False | Some active \<Rightarrow> ?slug \<notin> set active")
    case True
    with ok show ?thesis by (simp add: devin_cache_insert_def Let_def)
  next
    case False
    then have eq: "devin_cache_insert key st c = c\<lparr>dv_entries := ?kept @ [(key, st)]\<rparr>"
      by (simp add: devin_cache_insert_def Let_def up)
    have "distinct (map (\<lambda>(k, _). key_identity_slug k) (?kept @ [(key, st)]))" using d notin by simp
    moreover have "case dv_active c of None \<Rightarrow> True
      | Some active \<Rightarrow> (\<forall>(k, _) \<in> set (?kept @ [(key, st)]). key_identity_slug k \<in> set active)"
      using False ok by (cases "dv_active c") (auto simp: devin_cache_ok_def)
    ultimately show ?thesis unfolding eq devin_cache_ok_def by (cases "dv_active c") simp_all
  qed
qed

lemma devin_cache_retain_ok: "devin_cache_ok c \<Longrightarrow> devin_cache_ok (snd (devin_cache_retain active c))"
  by (auto simp: devin_cache_ok_def devin_cache_retain_def Let_def distinct_map inj_on_def)

datatype devin_cache_op = DcInsert devin_cache_key devin_catalog | DcRetain "string oset"

fun devin_cache_step :: "devin_cache \<Rightarrow> devin_cache_op \<Rightarrow> devin_cache" where
  "devin_cache_step c (DcInsert k s) = devin_cache_insert k s c"
| "devin_cache_step c (DcRetain a) = snd (devin_cache_retain a c)"

interpretation devin_cache_machine: invariant_machine devin_cache_new devin_cache_step devin_cache_ok
proof unfold_locales
  show "devin_cache_ok devin_cache_new" by (simp add: devin_cache_ok_def devin_cache_new_def)
  show "devin_cache_ok c \<Longrightarrow> devin_cache_ok (devin_cache_step c op)" for c op
    by (cases op) (simp_all add: devin_cache_insert_ok devin_cache_retain_ok)
qed

lemma devin_cache_insert_get:
  assumes "case dv_active c of None \<Rightarrow> True | Some active \<Rightarrow> key_identity_slug key \<in> set active"
  shows "devin_cache_get (devin_cache_insert key st c) k =
    (if k = key then Some st
     else if key_identity_slug k = key_identity_slug key then None else devin_cache_get c k)"
proof -
  have f: "map_of (filter (\<lambda>(k, _). P k) xs) k = (if P k then map_of xs k else None)"
    for P and xs :: "(devin_cache_key \<times> devin_catalog) list"
    by (induction xs) auto
  have "devin_cache_insert key st c = c\<lparr>dv_entries :=
      AList.update key st (filter (\<lambda>(k, _). key_identity_slug k \<noteq> key_identity_slug key) (dv_entries c))\<rparr>"
    using assms by (cases "dv_active c") (simp_all add: devin_cache_insert_def)
  then show ?thesis by (simp add: devin_cache_get_def update_conv f)
qed

end
