(* ===== verification/Account.thy ===== *)
theory Account
  imports Provider_Account Cline_Usage Devin_Catalog
begin

text \<open>
  Account members, \<open>AccountMember\<close> of \<^verbatim>\<open>crates/gateway/src/account.rs\<close>: health transitions, the
  benches of quota groups and single models with their causes, usage snapshots, model support, and
  the adoption of runtime state after a reload (\<open>adopt_runtime_state\<close> of
  \<^verbatim>\<open>crates/gateway/src/state.rs\<close>). The cells behind locks and atomics are the fields of one record;
  clock readings are arguments. Parsing a URL is library code: the functions that need the host of
  a URL take it as an argument.
\<close>

section \<open>Quota groups\<close>

datatype bench_kind = BenchQuotaExhausted | BenchRateLimited | BenchOutOfCredit

definition split_date_suffix :: "string \<Rightarrow> string option" where
  "split_date_suffix model =
     (case rsplit_once (CHR ''-'') model of
        None \<Rightarrow> None
      | Some (base, suf) \<Rightarrow> if length suf = 4 \<and> list_all is_digit suf then Some base else None)"

definition model_quota_group :: "string \<Rightarrow> string \<Rightarrow> string option" where
  "model_quota_group provider model =
     (if provider = ''antigravity''
      then Some (if starts_with ''gemini-'' model then ''gemini'' else ''3p'')
      else if provider = ''cline'' then
        (if str_contains ''deepseek-v4.1-flash'' model then Some ''deepseek-v4.1-flash''
         else if str_contains ''gemini-3.8-flash'' model then Some ''cline-free/gemini-3.8-flash''
         else (case split_date_suffix model of Some base \<Rightarrow> Some base | None \<Rightarrow> Some model))
      else None)"

definition ACCOUNT_BENCH_SCOPE :: string where "ACCOUNT_BENCH_SCOPE = CHR 0x00 # ''account''"

definition model_bench_key :: "string \<Rightarrow> string" where
  "model_bench_key model = CHR 0x00 # ''model:'' @ model"

section \<open>Members\<close>

record account =
  ac_id :: string
  ac_file_name :: string
  ac_request_retry :: "int option"
  ac_config_retry :: "int option option"
  ac_inner :: provider_account
  ac_health :: health
  ac_group_cooldowns :: "(string, int) omap"
  ac_credit_benched :: "(string, int) omap"
  ac_bench_kinds :: "(string, bench_kind) omap"
  ac_active_requests :: nat
  ac_last_activity :: int
  ac_upstream_override :: "string option"
  ac_usage_override :: "string option"
  ac_ok_count :: nat
  ac_fail_count :: nat
  ac_unsupported_models :: "string list"
  ac_usage :: account_usage
  ac_cline_trackers :: cline_trackers
  ac_devin_catalog :: "devin_catalog option"
  ac_devin_discovery_seq :: nat

definition account_new :: "string \<Rightarrow> string \<Rightarrow> int \<Rightarrow> provider_account \<Rightarrow> account" where
  "account_new ident file_name instant inner =
     \<lparr>ac_id = ident, ac_file_name = file_name, ac_request_retry = None, ac_config_retry = None,
      ac_inner = inner, ac_health = Available, ac_group_cooldowns = [], ac_credit_benched = [],
      ac_bench_kinds = [], ac_active_requests = 0, ac_last_activity = instant,
      ac_upstream_override = None, ac_usage_override = None, ac_ok_count = 0, ac_fail_count = 0,
      ac_unsupported_models = [], ac_usage = account_usage_default,
      ac_cline_trackers = cline_trackers_from_env, ac_devin_catalog = None,
      ac_devin_discovery_seq = 0\<rparr>"

abbreviation ac_kind :: "account \<Rightarrow> provider_kind" where
  "ac_kind a \<equiv> account_kind (ac_inner a)"

abbreviation ac_provider_name :: "account \<Rightarrow> string" where
  "ac_provider_name a \<equiv> account_provider_name (ac_inner a)"

abbreviation ac_relay_key :: "account \<Rightarrow> string option" where
  "ac_relay_key a \<equiv> credential_relay_key (ac_inner a)"

section \<open>Activity and health\<close>

definition begin_activity :: "int \<Rightarrow> account \<Rightarrow> account" where
  "begin_activity instant a =
     a\<lparr>ac_active_requests := u64_wrapping_add (ac_active_requests a) 1, ac_last_activity := instant\<rparr>"

definition end_activity :: "int \<Rightarrow> account \<Rightarrow> account" where
  "end_activity instant a =
     a\<lparr>ac_last_activity := instant,
        ac_active_requests := (if ac_active_requests a = 0 then u64_max else ac_active_requests a - 1)\<rparr>"

definition set_health :: "health \<Rightarrow> account \<Rightarrow> account" where
  "set_health h a = a\<lparr>ac_health := h\<rparr>"

definition record_ok :: "int \<Rightarrow> int \<Rightarrow> account \<Rightarrow> account" where
  "record_ok instant now_ms a =
     a\<lparr>ac_last_activity := instant,
        ac_ok_count := u64_wrapping_add (ac_ok_count a) 1,
        ac_health := (case ac_health a of
                        Cooldown until \<Rightarrow> if until \<le> now_ms then Available else Cooldown until
                      | h \<Rightarrow> h)\<rparr>"

definition record_fail :: "int \<Rightarrow> account \<Rightarrow> account" where
  "record_fail instant a =
     a\<lparr>ac_last_activity := instant, ac_fail_count := u64_wrapping_add (ac_fail_count a) 1\<rparr>"

definition clear_auth_failure :: "account \<Rightarrow> bool \<times> account" where
  "clear_auth_failure a =
     (if ac_health a = AuthFailed then (True, a\<lparr>ac_health := Available\<rparr>) else (False, a))"

definition is_auth_failed :: "account \<Rightarrow> bool" where
  "is_auth_failed a \<longleftrightarrow> ac_health a = AuthFailed"

definition is_manually_disabled :: "account \<Rightarrow> bool" where
  "is_manually_disabled a \<longleftrightarrow> ac_health a = Disabled \<or> credential_disabled (ac_inner a)"

section \<open>Usage\<close>

definition usage_snapshot_at :: "account \<Rightarrow> int \<Rightarrow> account_usage" where
  "usage_snapshot_at a now =
     (let u = with_quota_freshness (ac_usage a) now 360
      in if ac_provider_name a = ''cline'' then expire_stale_cline_limits now u else u)"

definition release_codex_cooldown_if_quota_free :: "int \<Rightarrow> account \<Rightarrow> bool \<times> account" where
  "release_codex_cooldown_if_quota_free now a =
     (if ac_kind a \<noteq> Codex then (False, a)
      else let usage = usage_snapshot_at a now;
               has_reading = list_ex (\<lambda>w. used_percent w \<noteq> None) [us_primary usage, us_secondary usage]
        in if \<not> has_reading \<or> is_codex_hard_limit_reached usage \<or>
              is_codex_included_quota_exhausted usage None now
           then (False, a)
           else (case ac_health a of
                   Cooldown _ \<Rightarrow> (True, a\<lparr>ac_health := Available\<rparr>) | _ \<Rightarrow> (False, a)))"

definition set_usage :: "account_usage \<Rightarrow> account \<Rightarrow> account" where
  "set_usage usage a =
     (let slot = ac_usage a;
          merged =
            (if us_refreshed_at_unix usage = None then
               usage\<lparr>us_reset_credits_available :=
                        or_keep (us_reset_credits_available usage) (us_reset_credits_available slot),
                     us_reset_credits :=
                        (if us_reset_credits usage = [] then us_reset_credits slot else us_reset_credits usage),
                     us_refreshed_at_unix := us_refreshed_at_unix slot,
                     us_last_refresh_error :=
                        or_keep (us_last_refresh_error usage) (us_last_refresh_error slot),
                     us_refresh_status := or_keep (us_refresh_status usage) (us_refresh_status slot),
                     us_model_availability :=
                        or_keep (us_model_availability usage) (us_model_availability slot),
                     us_plan_type := or_keep (us_plan_type usage) (us_plan_type slot),
                     us_groups := (if us_groups usage = [] then us_groups slot else us_groups usage)\<rparr>
             else usage)
      in a\<lparr>ac_usage := merged\<rparr>)"

definition update_usage_from_headers :: "account_usage \<Rightarrow> account \<Rightarrow> account" where
  "update_usage_from_headers h a = a\<lparr>ac_usage := apply_header_update (ac_usage a) h\<rparr>"

definition record_quota_refresh_failure_with_status :: "string \<Rightarrow> string \<Rightarrow> account \<Rightarrow> account" where
  "record_quota_refresh_failure_with_status err status a =
     a\<lparr>ac_usage := (ac_usage a)\<lparr>us_last_refresh_error := Some err, us_refresh_status := Some status\<rparr>\<rparr>"

definition record_quota_refresh_failure :: "string \<Rightarrow> account \<Rightarrow> account" where
  "record_quota_refresh_failure err = record_quota_refresh_failure_with_status err ''error''"

section \<open>Relays and identity\<close>

definition is_nekos_relay :: "(string \<Rightarrow> string option) \<Rightarrow> account \<Rightarrow> bool" where
  "is_nekos_relay host_of a \<longleftrightarrow>
     ac_relay_key a \<noteq> None \<and>
     list_ex (\<lambda>target. case host_of target of
                          None \<Rightarrow> False
                        | Some host \<Rightarrow>
                            list_ex (\<lambda>label. label = ''nekos'' \<or> label = ''ccapi'')
                              (split_where (\<lambda>c. c = CHR ''.'') host))
       (List.map_filter id [ac_upstream_override a, ac_usage_override a])"

definition relay_plan :: "(string \<Rightarrow> string option) \<Rightarrow> account \<Rightarrow> string option" where
  "relay_plan host_of a =
     (if is_nekos_relay host_of a then credential_relay_plan (ac_inner a) else None)"

definition effective_base_url :: "account \<Rightarrow> string" where
  "effective_base_url a =
     (case ac_upstream_override a of Some url \<Rightarrow> url | None \<Rightarrow> default_base_url (ac_inner a))"

definition same_credential_identity :: "account \<Rightarrow> account \<Rightarrow> bool" where
  "same_credential_identity a b \<longleftrightarrow>
     ac_id a = ac_id b \<and> ac_kind a = ac_kind b \<and>
     access_token (ac_inner a) = access_token (ac_inner b) \<and>
     effective_base_url a = effective_base_url b"

definition account_request_retry :: "account \<Rightarrow> int option" where
  "account_request_retry a =
     (case ac_config_retry a of Some retry \<Rightarrow> retry | None \<Rightarrow> ac_request_retry a)"

section \<open>Models\<close>

definition devin_models :: "account \<Rightarrow> string list option" where
  "devin_models a =
     (if ac_kind a \<noteq> Devin then None
      else if is_manually_disabled a then Some []
      else case ac_devin_catalog a of
             None \<Rightarrow> None
           | Some c \<Rightarrow> if has_succeeded c then Some (map public_id (dc_models c)) else None)"

definition devin_discovered_models :: "account \<Rightarrow> discovered_devin_model list option" where
  "devin_discovered_models a =
     (if ac_kind a \<noteq> Devin then None
      else if is_manually_disabled a then Some []
      else case ac_devin_catalog a of
             None \<Rightarrow> None
           | Some c \<Rightarrow> if has_succeeded c then Some (dc_models c) else None)"

definition antigravity_discovered_models :: "account \<Rightarrow> (string, model_availability) omap option" where
  "antigravity_discovered_models a =
     (if ac_kind a \<noteq> Antigravity then None
      else if is_manually_disabled a then Some []
      else us_model_availability (ac_usage a))"

definition available_in :: "(string, model_availability) omap \<Rightarrow> string \<Rightarrow> bool" where
  "available_in discovered model =
     (case omap_get discovered model of None \<Rightarrow> False | Some m \<Rightarrow> ma_available m = Some True)"

definition supports_antigravity_model :: "registry_snapshot \<Rightarrow> account \<Rightarrow> string \<Rightarrow> bool" where
  "supports_antigravity_model embedded a model =
     (if ac_kind a \<noteq> Antigravity \<or> is_manually_disabled a then False
      else if model \<in> set (ac_unsupported_models a) then False
      else let stripped = (case strip_prefix ''antigravity/'' model of Some s \<Rightarrow> s | None \<Rightarrow> model)
        in case us_model_availability (ac_usage a) of
             Some discovered \<Rightarrow> available_in discovered model \<or> available_in discovered stripped
           | None \<Rightarrow> is_model_in_snapshot pid_antigravity embedded model \<or>
                     is_model_in_snapshot pid_antigravity embedded stripped)"

definition supports_devin_model :: "account \<Rightarrow> string \<Rightarrow> string \<Rightarrow> string \<Rightarrow> bool" where
  "supports_devin_model a requested canonical upstream =
     (if ac_kind a \<noteq> Devin \<or> is_manually_disabled a then False
      else if list_ex (\<lambda>m. m = requested \<or> m = canonical \<or> m = upstream) (ac_unsupported_models a)
      then False
      else case ac_devin_catalog a of
             None \<Rightarrow> False
           | Some c \<Rightarrow> list_ex (\<lambda>m. public_id m = requested \<or> public_id m = canonical \<or>
                                     model_uid m = upstream \<or> model_uid m = requested) (dc_models c))"

definition devin_upstream_model_uid :: "account \<Rightarrow> string \<Rightarrow> string option" where
  "devin_upstream_model_uid a model =
     (if ac_kind a \<noteq> Devin then None
      else case ac_devin_catalog a of
             None \<Rightarrow> None
           | Some c \<Rightarrow> map_option model_uid
                         (find (\<lambda>m. public_id m = model \<or> model_uid m = model) (dc_models c)))"

definition devin_model_supports_vision :: "account \<Rightarrow> string \<Rightarrow> bool" where
  "devin_model_supports_vision a model =
     (if ac_kind a \<noteq> Devin then False
      else case ac_devin_catalog a of
             None \<Rightarrow> False
           | Some c \<Rightarrow> list_ex (\<lambda>m. (public_id m = model \<or> model_uid m = model) \<and> supports_images m) (dc_models c))"

definition with_devin_prefix :: "string \<Rightarrow> string" where
  "with_devin_prefix model = (if starts_with ''devin/'' model then model else ''devin/'' @ model)"

definition without_devin_prefix :: "string \<Rightarrow> string" where
  "without_devin_prefix model = (case strip_prefix ''devin/'' model of Some s \<Rightarrow> s | None \<Rightarrow> model)"

definition declares_model ::
  "(string \<Rightarrow> string option) \<Rightarrow> registry_snapshot \<Rightarrow> registry_snapshot \<Rightarrow> account \<Rightarrow> string \<Rightarrow> bool" where
  "declares_model host_of embedded s a model =
     (case ac_inner a of
        GenericAccount g \<Rightarrow>
          if ga_provider g = ''xai'' then model \<in> set (ga_models g)
          else ga_models g = [] \<or> model \<in> set (ga_models g)
      | DevinAccount _ \<Rightarrow>
          supports_devin_model a model (with_devin_prefix model) (without_devin_prefix model)
      | ClaudeAccount _ \<Rightarrow>
          (let bound = is_model_in_snapshot pid_claude s (strip_claude_route_prefix model) in
           if starts_with ''anthropic-'' model \<or> starts_with ''anthropic/'' model
           then \<not> is_nekos_relay host_of a \<and> bound
           else if starts_with ''nekos-'' model \<or> starts_with ''nekos/'' model
           then is_nekos_relay host_of a \<and> bound
           else bound)
      | AntigravityAccount _ \<Rightarrow> supports_antigravity_model embedded a model
      | _ \<Rightarrow> serves_model_in (ac_kind a) s model)"

definition supports_model_in ::
  "(string \<Rightarrow> string option) \<Rightarrow> registry_snapshot \<Rightarrow> registry_snapshot \<Rightarrow> account \<Rightarrow> string \<Rightarrow> bool" where
  "supports_model_in host_of embedded s a model =
     (if \<not> declares_model host_of embedded s a model then False
      else model \<notin> set (ac_unsupported_models a))"

definition mark_model_unsupported :: "string \<Rightarrow> account \<Rightarrow> account" where
  "mark_model_unsupported model a =
     (if model \<in> set (ac_unsupported_models a) then a
      else a\<lparr>ac_unsupported_models := ac_unsupported_models a @ [model]\<rparr>)"

section \<open>Benches\<close>

definition quota_group_for :: "account \<Rightarrow> string \<Rightarrow> string option" where
  "quota_group_for a model = model_quota_group (ac_provider_name a) model"

definition earliest_group_cooldown_ms :: "account \<Rightarrow> int \<Rightarrow> int option" where
  "earliest_group_cooldown_ms a now_ms =
     min_by_key (\<lambda>d. d) (filter (\<lambda>d. d > now_ms) (omap_values (ac_group_cooldowns a)))"

text \<open>\<open>entry(key).or_insert(until)\<close> followed by the maximum\<close>

definition extend_deadline :: "string \<Rightarrow> int \<Rightarrow> (string, int) omap \<Rightarrow> (string, int) omap" where
  "extend_deadline key until m =
     omap_insert key (case omap_get m key of None \<Rightarrow> until | Some old \<Rightarrow> max old until) m"

definition set_group_cooldown :: "string \<Rightarrow> int \<Rightarrow> account \<Rightarrow> bool \<times> account" where
  "set_group_cooldown model until a =
     (case quota_group_for a model of
        None \<Rightarrow> (False, a)
      | Some grp \<Rightarrow> (True, a\<lparr>ac_group_cooldowns := extend_deadline grp until (ac_group_cooldowns a)\<rparr>))"

definition deadline_passed :: "(string, int) omap \<Rightarrow> string \<Rightarrow> int \<Rightarrow> bool" where
  "deadline_passed m key now_ms = (case omap_get m key of None \<Rightarrow> True | Some until \<Rightarrow> until \<le> now_ms)"

definition group_available :: "account \<Rightarrow> string \<Rightarrow> int \<Rightarrow> bool" where
  "group_available a model now_ms =
     (if \<not> deadline_passed (ac_group_cooldowns a) (model_bench_key model) now_ms then False
      else case quota_group_for a model of
             None \<Rightarrow> True
           | Some grp \<Rightarrow> deadline_passed (ac_group_cooldowns a) grp now_ms)"

definition set_model_cooldown :: "string \<Rightarrow> int \<Rightarrow> account \<Rightarrow> account" where
  "set_model_cooldown model until a =
     a\<lparr>ac_group_cooldowns := extend_deadline (model_bench_key model) until (ac_group_cooldowns a)\<rparr>"

text \<open>Division of \<open>i64\<close> truncates towards zero.\<close>

definition i64_div :: "int \<Rightarrow> int \<Rightarrow> int" where
  "i64_div x d = (if 0 \<le> x then x div d else - ((- x) div d))"

definition group_reset_at_unix :: "account \<Rightarrow> string \<Rightarrow> int option" where
  "group_reset_at_unix a model =
     (case quota_group_for a model of
        None \<Rightarrow> None
      | Some grp \<Rightarrow> map_option (\<lambda>until. i64_div until 1000) (omap_get (ac_group_cooldowns a) grp))"

definition account_reset_at_unix :: "account \<Rightarrow> int option" where
  "account_reset_at_unix a =
     (case ac_health a of Cooldown until \<Rightarrow> Some (i64_div until 1000) | _ \<Rightarrow> None)"

definition set_group_credit_bench :: "string \<Rightarrow> int \<Rightarrow> account \<Rightarrow> account" where
  "set_group_credit_bench model until a =
     (case quota_group_for a model of
        None \<Rightarrow> a
      | Some grp \<Rightarrow> a\<lparr>ac_credit_benched := extend_deadline grp until (ac_credit_benched a)\<rparr>)"

definition group_credit_benched :: "account \<Rightarrow> string \<Rightarrow> int \<Rightarrow> bool" where
  "group_credit_benched a model now_ms =
     (case quota_group_for a model of
        None \<Rightarrow> False
      | Some grp \<Rightarrow> \<not> deadline_passed (ac_credit_benched a) grp now_ms)"

definition set_group_bench_kind :: "string \<Rightarrow> bench_kind \<Rightarrow> account \<Rightarrow> bool \<times> account" where
  "set_group_bench_kind model kind a =
     (case quota_group_for a model of
        None \<Rightarrow> (False, a)
      | Some grp \<Rightarrow> (True, a\<lparr>ac_bench_kinds := omap_insert grp kind (ac_bench_kinds a)\<rparr>))"

definition set_account_bench_kind :: "bench_kind \<Rightarrow> account \<Rightarrow> account" where
  "set_account_bench_kind kind a =
     a\<lparr>ac_bench_kinds := omap_insert ACCOUNT_BENCH_SCOPE kind (ac_bench_kinds a)\<rparr>"

definition account_bench_kind :: "account \<Rightarrow> int \<Rightarrow> bench_kind option" where
  "account_bench_kind a now_ms =
     (case ac_health a of
        Cooldown until \<Rightarrow> if until > now_ms then omap_get (ac_bench_kinds a) ACCOUNT_BENCH_SCOPE else None
      | _ \<Rightarrow> None)"

definition bench_kind_for_model :: "account \<Rightarrow> string \<Rightarrow> int \<Rightarrow> bench_kind option" where
  "bench_kind_for_model a model now_ms =
     (case quota_group_for a model of
        Some grp \<Rightarrow>
          if \<not> deadline_passed (ac_group_cooldowns a) grp now_ms
          then omap_get (ac_bench_kinds a) grp else account_bench_kind a now_ms
      | None \<Rightarrow> account_bench_kind a now_ms)"

section \<open>Reload\<close>

definition clone_for_snapshot :: "devin_catalog option \<Rightarrow> account \<Rightarrow> account" where
  "clone_for_snapshot catalog a = a\<lparr>ac_devin_catalog := catalog\<rparr>"


definition adopt_runtime_state :: "account \<Rightarrow> account \<Rightarrow> account" where
  "adopt_runtime_state previous target =
     (if \<not> same_credential_identity target previous then target
      else target\<lparr>ac_health :=
                    (if ac_health target \<noteq> Disabled \<and> ac_health previous \<noteq> Disabled
                     then ac_health previous else ac_health target),
                  ac_usage := ac_usage previous,
                  ac_unsupported_models := ac_unsupported_models previous,
                  ac_group_cooldowns := ac_group_cooldowns previous,
                  ac_ok_count := ac_ok_count previous,
                  ac_last_activity := ac_last_activity previous,
                  ac_fail_count := ac_fail_count previous,
                  ac_devin_catalog :=
                    (if ac_kind target = Devin \<and> ac_kind previous = Devin
                     then ac_devin_catalog previous else ac_devin_catalog target)\<rparr>)"

section \<open>What the schedulers see\<close>

definition account_view :: "int \<Rightarrow> account \<Rightarrow> account_member" where
  "account_view now a =
     \<lparr>am_id = ac_id a, am_kind = ac_kind a, relay_api_key = ac_relay_key a, am_health = ac_health a,
      am_primary = us_primary (usage_snapshot_at a now),
      am_secondary = us_secondary (usage_snapshot_at a now)\<rparr>"

end
