(* ===== verification/Json.thy ===== *)
theory Json
  imports Usage Text_Parsing
begin

text \<open>
  JSON values as the source handles them: the variants of \<open>serde_json::Value\<close> and \<open>Number\<close>, with an
  object as the sorted map that \<open>serde_json\<close> uses by default, and the accessors the modelled code
  calls. Parsing and printing text are arguments where they are needed.
\<close>

datatype json_number = PosInt nat | NegInt int | Float f64

datatype json =
    JNull
  | JBool bool
  | JNumber json_number
  | JString string
  | JArray "json list"
  | JObject "(string \<times> json) list"

fun json_get :: "json \<Rightarrow> string \<Rightarrow> json option" where
  "json_get (JObject m) key = omap_get m key"
| "json_get _ key = None"

fun json_as_str :: "json \<Rightarrow> string option" where
  "json_as_str (JString s) = Some s"
| "json_as_str _ = None"

fun json_as_bool :: "json \<Rightarrow> bool option" where
  "json_as_bool (JBool b) = Some b"
| "json_as_bool _ = None"

fun json_as_array :: "json \<Rightarrow> json list option" where
  "json_as_array (JArray xs) = Some xs"
| "json_as_array _ = None"

fun json_as_object :: "json \<Rightarrow> (string, json) omap option" where
  "json_as_object (JObject m) = Some m"
| "json_as_object _ = None"

fun number_as_i64 :: "json_number \<Rightarrow> int option" where
  "number_as_i64 (PosInt n) = (if int n \<le> i64_max then Some (int n) else None)"
| "number_as_i64 (NegInt i) = Some i"
| "number_as_i64 (Float f) = None"

fun number_as_u64 :: "json_number \<Rightarrow> nat option" where
  "number_as_u64 (PosInt n) = Some n"
| "number_as_u64 _ = None"

fun json_as_i64 :: "json \<Rightarrow> int option" where
  "json_as_i64 (JNumber n) = number_as_i64 n"
| "json_as_i64 _ = None"

fun json_as_u64 :: "json \<Rightarrow> nat option" where
  "json_as_u64 (JNumber n) = number_as_u64 n"
| "json_as_u64 _ = None"

definition json_str_at :: "json \<Rightarrow> string \<Rightarrow> string option" where
  "json_str_at v key = Option.bind (json_get v key) json_as_str"

definition json_set :: "string \<Rightarrow> json \<Rightarrow> json \<Rightarrow> json" where
  "json_set key x v = (case v of JObject m \<Rightarrow> JObject (omap_insert key x m) | _ \<Rightarrow> v)"

lemma json_get_set: "json_get (json_set k x (JObject m)) k' = (if k' = k then Some x else json_get (JObject m) k')"
  by (simp add: json_set_def)

definition json_of_i64 :: "int \<Rightarrow> json" where
  "json_of_i64 i = JNumber (if 0 \<le> i then PosInt (nat i) else NegInt i)"

end
