(* ===== verification/Cooldowns.thy ===== *)
theory Cooldowns
  imports Account Json
begin

text \<open>
  How an upstream rejection benches an account, \<^verbatim>\<open>crates/gateway/src/relay.rs\<close>: the deadline read
  from response headers or from a Cline message, the cause read from the body, and
  \<open>record_cooldown\<close> with the benches it sets. A header map is the list of its names, in lower
  case, with what \<open>to_str\<close> yields for the value. Parsing the body as JSON is an argument.
\<close>

type_synonym header_map = "(string \<times> string option) list"

definition header_str :: "header_map \<Rightarrow> string \<Rightarrow> string option" where
  "header_str hs name = Option.bind (map_of hs name) id"

section \<open>Deadlines\<close>

definition CLINE_CREDIT_BACKOFF_SECS :: int where "CLINE_CREDIT_BACKOFF_SECS = 300"

definition i64_clamp :: "int \<Rightarrow> int \<Rightarrow> int \<Rightarrow> int" where
  "i64_clamp lo hi x = max lo (min hi x)"

definition i64_saturating_mul :: "int \<Rightarrow> int \<Rightarrow> int" where
  "i64_saturating_mul a b = i64_saturate (a * b)"

definition cooldown_deadline_ms :: "int \<Rightarrow> int \<Rightarrow> int" where
  "cooldown_deadline_ms now_ms retry_after =
     (let bounded = i64_clamp 0 MAX_COOLDOWN_SECS retry_after
      in i64_saturating_add now_ms (i64_saturating_mul bounded 1000))"

definition reset_header_delay :: "int \<Rightarrow> string \<times> string option \<Rightarrow> int option" where
  "reset_header_delay now_unix h =
     (let (name, value) = h; lower = to_ascii_lowercase name in
      if \<not> (ends_with ''-reset-at'' lower \<or> ends_with ''-reset-after-seconds'' lower) then None
      else case Option.bind value (\<lambda>v. parse_i64 (trim v)) of
             None \<Rightarrow> None
           | Some secs \<Rightarrow>
               let delay = (if ends_with ''-reset-after-seconds'' lower then secs
                            else i64_saturating_sub secs now_unix)
               in if delay > 0 then Some delay else None)"

definition cooldown_deadline_from_headers :: "header_map \<Rightarrow> int \<Rightarrow> int" where
  "cooldown_deadline_from_headers hs now_ms =
     (let now_unix = i64_div now_ms 1000;
          retry_after = Option.bind (header_str hs ''retry-after'') (\<lambda>v. parse_i64 (trim v));
          secs = (case retry_after of
                    Some s \<Rightarrow> s
                  | None \<Rightarrow>
                      (case min_by_key (\<lambda>d. d) (List.map_filter (reset_header_delay now_unix) hs) of
                         Some d \<Rightarrow> d | None \<Rightarrow> 300))
      in cooldown_deadline_ms now_ms secs)"

section \<open>Messages in the body\<close>

definition CAP_PREFIX :: string where "CAP_PREFIX = ''Daily free limit reached on model ''"
definition TRY_AGAIN :: string where "TRY_AGAIN = ''. Try again in ''"

definition cap_time_part :: "int \<times> int \<Rightarrow> string \<Rightarrow> int \<times> int" where
  "cap_time_part hm part =
     (let (hours, mins) = hm in
      case strip_suffix ''h'' part of
        Some h \<Rightarrow> (case parse_i64 h of Some v \<Rightarrow> (i64_clamp 0 8760 v, mins) | None \<Rightarrow> hm)
      | None \<Rightarrow>
          (case strip_suffix ''m'' part of
             Some m \<Rightarrow> (case parse_i64 m of Some v \<Rightarrow> (hours, i64_clamp 0 525600 v) | None \<Rightarrow> hm)
           | None \<Rightarrow> hm))"

definition cap_total_secs :: "string \<Rightarrow> int" where
  "cap_total_secs time_str =
     (let (hours, mins) = foldl cap_time_part (0, 0) (split_whitespace time_str);
          total = i64_clamp 0 MAX_COOLDOWN_SECS
                    (i64_saturating_add (i64_saturating_mul hours 3600) (i64_saturating_mul mins 60))
      in if total > 0 then total else 300)"

definition parse_cap_message :: "string \<Rightarrow> (string \<times> int) option" where
  "parse_cap_message message =
     (case str_find CAP_PREFIX message of
        None \<Rightarrow> None
      | Some pos \<Rightarrow>
          let remainder = drop (pos + length CAP_PREFIX) message in
          case str_find TRY_AGAIN remainder of
            None \<Rightarrow> None
          | Some try_pos \<Rightarrow>
              let model = trim (take try_pos remainder) in
              if model = [] then None
              else Some (model, cap_total_secs (trim (drop (try_pos + length TRY_AGAIN) remainder))))"

type_synonym json_parser = "string \<Rightarrow> json option"

definition parse_cline_cap_error :: "json_parser \<Rightarrow> string \<Rightarrow> (string \<times> int) option" where
  "parse_cline_cap_error parse body =
     (case parse body of
        None \<Rightarrow> None
      | Some v \<Rightarrow>
          (case Option.bind (json_get v ''error'') (\<lambda>e. json_str_at e ''message'') of
             None \<Rightarrow> None | Some message \<Rightarrow> parse_cap_message message))"

definition cline_402_fallback :: "json_parser \<Rightarrow> string \<Rightarrow> string \<Rightarrow> string \<times> int" where
  "cline_402_fallback parse body requested =
     (case parse_cline_cap_error parse body of
        Some r \<Rightarrow> r | None \<Rightarrow> (requested, CLINE_CREDIT_BACKOFF_SECS))"

definition failure_is_insufficient_credits :: "json_parser \<Rightarrow> string \<Rightarrow> bool" where
  "failure_is_insufficient_credits parse body =
     (case parse body of
        None \<Rightarrow> False
      | Some v \<Rightarrow>
          (case json_str_at v ''code'' of
             Some code \<Rightarrow> code = ''insufficient_credits''
           | None \<Rightarrow>
               (case Option.bind (json_get v ''error'') (\<lambda>e. json_str_at e ''code'') of
                  Some code \<Rightarrow> code = ''insufficient_credits'' | None \<Rightarrow> False)))"

definition PLAN_QUOTA_BIZ_CODE :: int where "PLAN_QUOTA_BIZ_CODE = 1005"

definition failure_is_limit_exhaustion :: "json_parser \<Rightarrow> string \<Rightarrow> bool" where
  "failure_is_limit_exhaustion parse body =
     (if parse_cline_cap_error parse body \<noteq> None \<or> failure_is_insufficient_credits parse body then True
      else case parse body of
             None \<Rightarrow> False
           | Some v \<Rightarrow>
               (case Option.bind (json_get v ''error'') (\<lambda>e. Option.bind (json_get e ''code'') json_as_i64) of
                  Some code \<Rightarrow> code = PLAN_QUOTA_BIZ_CODE | None \<Rightarrow> False))"

definition claude_model_scoped_rejection :: "header_map \<Rightarrow> bool" where
  "claude_model_scoped_rejection hs =
     (let get = (\<lambda>name. map_option (\<lambda>v. to_ascii_lowercase (trim v)) (header_str hs name));
          allows = (\<lambda>name. get name = Some ''allowed'' \<or> get name = Some ''allowed_warning'')
      in get ''anthropic-ratelimit-unified-status'' = Some ''rejected'' \<and>
         (get ''anthropic-ratelimit-unified-representative-claim'' = Some ''overage'' \<or>
          get ''anthropic-ratelimit-unified-representative-claim'' = Some ''model'') \<and>
         allows ''anthropic-ratelimit-unified-5h-status'' \<and>
         allows ''anthropic-ratelimit-unified-7d-status'')"

section \<open>The Cline display bucket\<close>

definition canonical_cline_quota_model :: "string \<Rightarrow> string" where
  "canonical_cline_quota_model model = ''cline-free/'' @ cline_quota_slug model"

definition record_bucket_in :: "string \<Rightarrow> f64 \<Rightarrow> int \<Rightarrow> quota_bucket list \<Rightarrow> quota_bucket list" where
  "record_bucket_in canonical percent reset_at buckets =
     (let kept = filter (\<lambda>b. case bucket_id b of
                               None \<Rightarrow> True
                             | Some ident \<Rightarrow>
                                 \<not> (ident \<noteq> canonical \<and> canonical_cline_quota_model ident = canonical)) buckets;
          same = (\<lambda>b. bucket_id b = Some canonical);
          label = canonical @ '' (Daily limit)''
      in if list_ex same kept
         then update_first same
                (\<lambda>b. b\<lparr>qb_used_percent := Some percent, qb_reset_at_unix := Some reset_at,
                       qb_display_name := Some label\<rparr>) kept
         else kept @ [\<lparr>bucket_id = Some canonical, qb_display_name = Some label,
                       qb_window = Some ''Daily'', qb_used_percent = Some percent,
                       qb_reset_at_unix = Some reset_at\<rparr>])"

definition record_cline_quota_bucket ::
  "string \<Rightarrow> int \<Rightarrow> int \<Rightarrow> f64 \<Rightarrow> int \<Rightarrow> account \<Rightarrow> account" where
  "record_cline_quota_bucket model reset_seconds now_unix percent snapshot_now a =
     (let canonical = canonical_cline_quota_model model;
          reset_at = i64_add now_unix reset_seconds;
          usage = usage_snapshot_at a snapshot_now;
          ours = (\<lambda>g. qg_display_name g = Some CLINE_GROUP_NAME);
          groups = (if list_ex ours (us_groups usage) then us_groups usage
                    else us_groups usage @
                         [\<lparr>qg_display_name = Some CLINE_GROUP_NAME,
                           qg_models = Some ''Cline Free Models'', qg_buckets = []\<rparr>]);
          groups' = update_first ours
                      (\<lambda>g. g\<lparr>qg_buckets := record_bucket_in canonical percent reset_at (qg_buckets g)\<rparr>) groups
      in set_usage (usage\<lparr>us_groups := groups', us_observed_at_unix := Some now_unix\<rparr>) a)"

section \<open>Benching\<close>

definition bench_exhausted_quota ::
  "string option \<Rightarrow> int \<Rightarrow> bench_kind \<Rightarrow> account \<Rightarrow> account" where
  "bench_exhausted_quota model until kind a =
     (let account_wide = set_account_bench_kind kind (set_health (Cooldown until) a) in
      case model of
        None \<Rightarrow> account_wide
      | Some m \<Rightarrow>
          (case set_group_cooldown m until a of
             (True, a') \<Rightarrow> snd (set_group_bench_kind m kind a')
           | (False, _) \<Rightarrow> account_wide))"

definition bench_cline_cap :: "string \<Rightarrow> string option \<Rightarrow> int \<Rightarrow> account \<Rightarrow> account" where
  "bench_cline_cap cap_model requested until a =
     (let a1 = bench_exhausted_quota (Some cap_model) until BenchQuotaExhausted a in
      case requested of
        Some r \<Rightarrow> if r \<noteq> cap_model then bench_exhausted_quota (Some r) until BenchQuotaExhausted a1 else a1
      | None \<Rightarrow> a1)"

definition label_credit_bench :: "string \<Rightarrow> string option \<Rightarrow> int \<Rightarrow> account \<Rightarrow> account" where
  "label_credit_bench cap_model requested until a =
     (let a1 = set_group_credit_bench cap_model until a;
          a2 = (case set_group_bench_kind cap_model BenchOutOfCredit a1 of
                  (True, a') \<Rightarrow> a' | (False, _) \<Rightarrow> set_account_bench_kind BenchOutOfCredit a1)
      in case requested of
           Some r \<Rightarrow> if r \<noteq> cap_model then set_group_credit_bench r until a2 else a2
         | None \<Rightarrow> a2)"

section \<open>Recording a cooldown\<close>

record cline_cap_event =
  ce_account :: string
  ce_model :: string
  ce_cap_at_ms :: int
  ce_reset_at_unix :: int
  ce_credit_driven :: bool

record last_error =
  le_unix_ms :: int
  le_status :: nat
  le_message :: string

text \<open>
  What a relayed request changes beside the account: the counter of failed-over attempts, the last
  errors the monitor shows, and the cap events handed to the request history.
\<close>

record relay_effects =
  re_failed_over :: nat
  re_last_errors :: "(string, last_error) omap"
  re_cap_events :: "cline_cap_event list"

record cooldown_env =
  cd_parse :: json_parser
  cd_env :: "string \<Rightarrow> string option"
  cd_now_ms :: int
  cd_tracker_now :: int
  cd_snapshot_now :: int
  cd_instant :: int

definition failure_bench_kind :: "json_parser \<Rightarrow> string \<Rightarrow> bench_kind" where
  "failure_bench_kind parse body =
     (if failure_is_insufficient_credits parse body then BenchOutOfCredit
      else if failure_is_limit_exhaustion parse body then BenchQuotaExhausted
      else BenchRateLimited)"

definition cline_cap_recorded ::
  "cooldown_env \<Rightarrow> string \<Rightarrow> int \<Rightarrow> account \<Rightarrow> account \<times> cline_cap_event \<times> int" where
  "cline_cap_recorded env cap_model reset_secs a =
     (let now_secs = i64_div (cd_now_ms env) 1000;
          (tracker, trackers) = tracker_for_model (cd_env env) cap_model (ac_cline_trackers a);
          reset_at = resolve_cline_deadline (Some tracker) now_secs reset_secs;
          a1 = record_cline_quota_bucket cap_model (i64_sub reset_at now_secs) now_secs (Fin 100)
                 (cd_snapshot_now env) (a\<lparr>ac_cline_trackers := trackers\<rparr>);
          a2 = a1\<lparr>ac_cline_trackers :=
                    update_tracker (cd_env env) cap_model (on_cap_429_at reset_at (cd_tracker_now env))
                      (ac_cline_trackers a1)\<rparr>;
          event = \<lparr>ce_account = ac_id a, ce_model = cap_model, ce_cap_at_ms = cd_now_ms env,
                   ce_reset_at_unix = reset_at, ce_credit_driven = False\<rparr>
      in (a2, event, i64_saturating_mul reset_at 1000))"

definition finish_cooldown :: "cooldown_env \<Rightarrow> account \<times> relay_effects \<Rightarrow> account \<times> relay_effects" where
  "finish_cooldown env s =
     (let (a, re) = s
      in (record_fail (cd_instant env) a,
          re\<lparr>re_failed_over := u64_wrapping_add (re_failed_over re) 1,
             re_last_errors := omap_remove (ac_id a) (re_last_errors re)\<rparr>))"

definition record_cooldown ::
  "cooldown_env \<Rightarrow> header_map \<Rightarrow> string \<Rightarrow> string option \<Rightarrow> account \<times> relay_effects \<Rightarrow> account \<times> relay_effects" where
  "record_cooldown env hs body model s =
     (let (a, re) = s;
          header_until = cooldown_deadline_from_headers hs (cd_now_ms env)
      in case (if ac_kind a = Claude \<and> claude_model_scoped_rejection hs then model else None) of
           Some m \<Rightarrow> finish_cooldown env (set_model_cooldown m header_until a, re)
         | None \<Rightarrow>
           let kind = failure_bench_kind (cd_parse env) body;
               (a1, re1, effective, until) =
                 (case (if ac_provider_name a = ''cline''
                        then parse_cline_cap_error (cd_parse env) body else None) of
                    Some (cap_model, secs) \<Rightarrow>
                      (case cline_cap_recorded env cap_model secs a of
                         (a', event, deadline) \<Rightarrow>
                           (a', re\<lparr>re_cap_events := re_cap_events re @ [event]\<rparr>, Some cap_model, deadline))
                  | None \<Rightarrow> (a, re, model, header_until));
               a2 = (case (if ac_provider_name a1 = ''cline'' \<and> effective \<noteq> model then effective else None) of
                       Some cap_model \<Rightarrow> bench_cline_cap cap_model model until a1
                     | None \<Rightarrow>
                         bench_exhausted_quota (case effective of Some m \<Rightarrow> Some m | None \<Rightarrow> model) until kind a1)
           in finish_cooldown env (a2, re1))"

section \<open>Retry rounds\<close>

definition account_retry_limit :: "account \<Rightarrow> int \<Rightarrow> nat" where
  "account_retry_limit a global_retry =
     nat (max 0 (case account_request_retry a of Some r \<Rightarrow> r | None \<Rightarrow> max 0 global_retry))"

definition retry_round_allows :: "account \<Rightarrow> nat \<Rightarrow> int \<Rightarrow> bool" where
  "retry_round_allows a r global_retry \<longleftrightarrow> r = 0 \<or> account_retry_limit a global_retry \<ge> r"

definition retry_status :: "nat \<Rightarrow> bool" where
  "retry_status status \<longleftrightarrow> status \<in> {403, 408, 429, 500, 502, 503, 504}"

definition retry_round_wait_ms :: "int list \<Rightarrow> int \<Rightarrow> int \<Rightarrow> nat option" where
  "retry_round_wait_ms deadlines now_ms max_interval =
     (let max_wait = min u64_max (nat (max 0 max_interval) * 1000)
      in min_by_key (\<lambda>w. w)
           (filter (\<lambda>w. w \<le> max_wait)
             (map (\<lambda>d. nat (max 0 (i64_saturating_sub d now_ms))) deadlines)))"

end
