(* ===== verification/Cooldown_Props.thy ===== *)
theory Cooldown_Props
  imports Cooldowns
begin

text \<open>
  What the benches guarantee: deadlines are bounded, a rejected account rests until its deadline
  and only for the models concerned, deadlines of quota groups never move backwards, the recorded
  cause is the one reported, and automatic recovery never overrides an operator.
\<close>

section \<open>Deadlines\<close>

lemma i64_clamp_bounds: "lo \<le> hi \<Longrightarrow> lo \<le> i64_clamp lo hi x" "lo \<le> hi \<Longrightarrow> i64_clamp lo hi x \<le> hi"
  by (simp_all add: i64_clamp_def)

lemma cooldown_deadline_ms_exact:
  assumes "0 \<le> now" "now + 86400000 \<le> i64_max"
  shows "cooldown_deadline_ms now secs = now + 1000 * i64_clamp 0 86400 secs"
proof -
  let ?c = "i64_clamp 0 86400 secs"
  have c: "0 \<le> ?c" "?c \<le> 86400" by (simp_all add: i64_clamp_bounds)
  then have "in_i64 (?c * 1000)" by (simp add: in_i64_def i64_max_def i64_min_def)
  then have mul: "i64_saturating_mul ?c 1000 = ?c * 1000"
    by (simp add: i64_saturating_mul_def i64_saturate_exact)
  have "in_i64 (now + ?c * 1000)"
    using c assms by (simp add: in_i64_def i64_max_def i64_min_def)
  with mul show ?thesis
    by (simp add: cooldown_deadline_ms_def MAX_COOLDOWN_SECS_def i64_saturating_add_def
        i64_saturate_exact)
qed

lemma cooldown_deadline_bounded:
  assumes "0 \<le> now" "now + 86400000 \<le> i64_max"
  shows "now \<le> cooldown_deadline_from_headers hs now \<and>
         cooldown_deadline_from_headers hs now \<le> now + 86400000"
  using assms i64_clamp_bounds[of 0 86400]
  by (simp add: cooldown_deadline_from_headers_def cooldown_deadline_ms_exact Let_def)

lemma cap_total_secs_bounded: "0 < cap_total_secs s \<and> cap_total_secs s \<le> MAX_COOLDOWN_SECS"
  by (auto simp: cap_total_secs_def MAX_COOLDOWN_SECS_def i64_clamp_def Let_def split: prod.split)

lemma parse_cline_cap_bounded:
  "parse_cline_cap_error parse body = Some (m, secs) \<Longrightarrow> m \<noteq> [] \<and> 0 < secs \<and> secs \<le> MAX_COOLDOWN_SECS"
  using cap_total_secs_bounded
  by (auto simp: parse_cline_cap_error_def parse_cap_message_def Let_def split: option.splits if_splits)

section \<open>Deadline maps\<close>

lemma deadline_passed_extend:
  "deadline_passed (extend_deadline k until m) k' now \<longleftrightarrow>
     deadline_passed m k' now \<and> (k' = k \<longrightarrow> until \<le> now)"
  by (auto simp: deadline_passed_def extend_deadline_def split: option.split)

definition deadline_le :: "(string, int) omap \<Rightarrow> (string, int) omap \<Rightarrow> bool" where
  "deadline_le m m' \<longleftrightarrow> (\<forall>k d. omap_get m k = Some d \<longrightarrow> (\<exists>d'. omap_get m' k = Some d' \<and> d \<le> d'))"

lemma deadline_le_refl [simp, intro]: "deadline_le m m"
  by (simp add: deadline_le_def)

lemma deadline_le_trans [trans]: "deadline_le m m' \<Longrightarrow> deadline_le m' m'' \<Longrightarrow> deadline_le m m''"
  unfolding deadline_le_def by (meson order_trans)

lemma deadline_le_extend [simp, intro]: "deadline_le m (extend_deadline k until m)"
  by (auto simp: deadline_le_def extend_deadline_def)

section \<open>What each bench changes\<close>

text \<open>The identity of an account, which no bench touches\<close>

lemma set_group_cooldown_simps:
  "set_group_cooldown m until a =
     (case quota_group_for a m of
        None \<Rightarrow> (False, a)
      | Some g \<Rightarrow> (True, a\<lparr>ac_group_cooldowns := extend_deadline g until (ac_group_cooldowns a)\<rparr>))"
  by (simp add: set_group_cooldown_def)

lemma bench_exhausted_group:
  "quota_group_for a m = Some g \<Longrightarrow>
     bench_exhausted_quota (Some m) until kind a =
       a\<lparr>ac_group_cooldowns := extend_deadline g until (ac_group_cooldowns a),
          ac_bench_kinds := omap_insert g kind (ac_bench_kinds a)\<rparr>"
  by (simp add: bench_exhausted_quota_def set_group_cooldown_def set_group_bench_kind_def
      quota_group_for_def)

lemma bench_exhausted_account:
  "m = None \<or> quota_group_for a (the m) = None \<Longrightarrow>
     bench_exhausted_quota m until kind a =
       a\<lparr>ac_health := Cooldown until,
          ac_bench_kinds := omap_insert ACCOUNT_BENCH_SCOPE kind (ac_bench_kinds a)\<rparr>"
  by (cases m) (auto simp: bench_exhausted_quota_def set_group_cooldown_def set_health_def
      set_account_bench_kind_def)

text \<open>Every bench is one of the two.\<close>

lemma bench_exhausted_cases:
  obtains g where "m \<noteq> None" "quota_group_for a (the m) = Some g"
    "bench_exhausted_quota m until kind a =
       a\<lparr>ac_group_cooldowns := extend_deadline g until (ac_group_cooldowns a),
          ac_bench_kinds := omap_insert g kind (ac_bench_kinds a)\<rparr>"
  | "m = None \<or> quota_group_for a (the m) = None"
    "bench_exhausted_quota m until kind a =
       a\<lparr>ac_health := Cooldown until,
          ac_bench_kinds := omap_insert ACCOUNT_BENCH_SCOPE kind (ac_bench_kinds a)\<rparr>"
proof (cases m)
  case (Some x)
  show ?thesis
  proof (cases "quota_group_for a x")
    case None
    with Some that(2) show ?thesis by (simp add: bench_exhausted_account)
  next
    case g: (Some g)
    with Some that(1) show ?thesis by (simp add: bench_exhausted_group)
  qed
qed (use that(2) in \<open>simp add: bench_exhausted_account\<close>)

lemma bench_exhausted_inner [simp]:
  "ac_inner (bench_exhausted_quota m until kind a) = ac_inner a"
  "ac_id (bench_exhausted_quota m until kind a) = ac_id a"
  "ac_usage (bench_exhausted_quota m until kind a) = ac_usage a"
  by (rule bench_exhausted_cases[of m a until kind], simp_all)+


lemma bench_cline_cap_inner [simp]:
  "ac_inner (bench_cline_cap c r until a) = ac_inner a"
  "ac_id (bench_cline_cap c r until a) = ac_id a"
  by (simp_all add: bench_cline_cap_def Let_def split: option.split)

text \<open>Whether routing may use the account for a model, as far as health and benches go\<close>

definition rested :: "account \<Rightarrow> string \<Rightarrow> int \<Rightarrow> bool" where
  "rested a model now \<longleftrightarrow> is_available (ac_health a) now \<and> group_available a model now"

text \<open>A bench for one model holds for the models of its group, and without a group for all.\<close>

definition same_bench :: "account \<Rightarrow> string \<Rightarrow> string \<Rightarrow> bool" where
  "same_bench a m m' \<longleftrightarrow> quota_group_for a m = None \<or> quota_group_for a m = quota_group_for a m'"

lemma same_bench_refl [simp]: "same_bench a m m"
  by (simp add: same_bench_def)

lemma same_bench_inner: "ac_inner a = ac_inner b \<Longrightarrow> same_bench a = same_bench b"
  by (simp add: same_bench_def quota_group_for_def fun_eq_iff)

lemma bench_exhausted_not_rested:
  assumes "now < until" "same_bench a m m'"
  shows "\<not> rested (bench_exhausted_quota (Some m) until kind a) m' now"
proof (cases "quota_group_for a m")
  case None
  then show ?thesis using assms(1) by (simp add: bench_exhausted_account rested_def)
next
  case (Some g)
  with assms(2) have "quota_group_for a m' = Some g" by (simp add: same_bench_def)
  with Some assms(1) show ?thesis
    by (simp add: bench_exhausted_group rested_def group_available_def quota_group_for_def deadline_passed_extend)
qed

lemma bench_keeps_unrested:
  assumes "\<not> rested a m now" "now < until"
  shows "\<not> rested (bench_exhausted_quota m' until kind a) m now"
proof (cases rule: bench_exhausted_cases[of m' a until kind])
  case (1 g)
  with assms show ?thesis
    by (auto simp: rested_def group_available_def quota_group_for_def deadline_passed_extend
        split: option.splits if_splits)
qed (use assms in \<open>auto simp: rested_def\<close>)

lemma bench_cline_cap_not_rested:
  assumes "now < until" "same_bench a m m'"
  shows "\<not> rested (bench_cline_cap c (Some m) until a) m' now"
proof -
  have "same_bench (bench_exhausted_quota (Some c) until BenchQuotaExhausted a) m m'"
    using assms(2) same_bench_inner[of "bench_exhausted_quota (Some c) until BenchQuotaExhausted a" a] by simp
  then show ?thesis using assms by (auto simp: bench_cline_cap_def Let_def bench_exhausted_not_rested)
qed

lemma rested_cong:
  "ac_health a = ac_health b \<Longrightarrow> ac_group_cooldowns a = ac_group_cooldowns b \<Longrightarrow>
   ac_inner a = ac_inner b \<Longrightarrow> rested a = rested b"
  by (simp add: rested_def group_available_def quota_group_for_def fun_eq_iff split: option.split)

lemma rested_record_fail [simp]: "rested (record_fail t a) = rested a"
  by (rule rested_cong) (simp_all add: record_fail_def)

section \<open>Recording a cooldown\<close>

definition cooldown_until :: "cooldown_env \<Rightarrow> header_map \<Rightarrow> string \<Rightarrow> account \<Rightarrow> int" where
  "cooldown_until env hs body a =
     (case (if ac_provider_name a = ''cline'' then parse_cline_cap_error (cd_parse env) body else None) of
        Some (cap_model, secs) \<Rightarrow> snd (snd (cline_cap_recorded env cap_model secs a))
      | None \<Rightarrow> cooldown_deadline_from_headers hs (cd_now_ms env))"

lemma set_usage_fields [simp]:
  "ac_inner (set_usage u a) = ac_inner a" "ac_id (set_usage u a) = ac_id a"
  "ac_health (set_usage u a) = ac_health a"
  "ac_group_cooldowns (set_usage u a) = ac_group_cooldowns a"
  "ac_bench_kinds (set_usage u a) = ac_bench_kinds a"
  by (simp_all add: set_usage_def Let_def)

lemma record_cline_quota_bucket_fields [simp]:
  "ac_inner (record_cline_quota_bucket m s n p t a) = ac_inner a"
  "ac_id (record_cline_quota_bucket m s n p t a) = ac_id a"
  "ac_health (record_cline_quota_bucket m s n p t a) = ac_health a"
  "ac_group_cooldowns (record_cline_quota_bucket m s n p t a) = ac_group_cooldowns a"
  "ac_bench_kinds (record_cline_quota_bucket m s n p t a) = ac_bench_kinds a"
  by (simp_all add: record_cline_quota_bucket_def Let_def)

lemma cline_cap_recorded_fields:
  assumes "cline_cap_recorded env cap secs a = (a', event, until)"
  shows "ac_inner a' = ac_inner a" "ac_id a' = ac_id a" "ac_health a' = ac_health a"
    "ac_group_cooldowns a' = ac_group_cooldowns a" "ac_bench_kinds a' = ac_bench_kinds a"
  using assms by (auto simp: cline_cap_recorded_def Let_def split: prod.splits)

lemma finish_cooldown_account [simp]:
  "fst (finish_cooldown env (a, re)) = record_fail (cd_instant env) a"
  by (simp add: finish_cooldown_def)

text \<open>The account after a rejection: one of three benches.\<close>

lemma record_cooldown_account:
  assumes "fst (record_cooldown env hs body model (a, re)) = b"
  obtains m where "model = Some m" "ac_kind a = Claude"
      "b = record_fail (cd_instant env)
             (set_model_cooldown m (cooldown_deadline_from_headers hs (cd_now_ms env)) a)"
      "claude_model_scoped_rejection hs"
  | cap a1 where "ac_provider_name a = ''cline''" "model \<noteq> Some cap"
      "ac_inner a1 = ac_inner a" "ac_health a1 = ac_health a"
      "ac_group_cooldowns a1 = ac_group_cooldowns a"
      "b = record_fail (cd_instant env)
             (bench_cline_cap cap model (cooldown_until env hs body a) a1)"
  | a1 kind where "ac_inner a1 = ac_inner a" "ac_health a1 = ac_health a"
      "ac_group_cooldowns a1 = ac_group_cooldowns a"
      "b = record_fail (cd_instant env)
             (bench_exhausted_quota model (cooldown_until env hs body a) kind a1)"
proof (cases "if ac_kind a = Claude \<and> claude_model_scoped_rejection hs then model else None")
  case (Some m)
  then have c: "model = Some m" "ac_kind a = Claude" "claude_model_scoped_rejection hs" by (auto split: if_splits)
  have "b = record_fail (cd_instant env)
      (set_model_cooldown m (cooldown_deadline_from_headers hs (cd_now_ms env)) a)"
    using assms Some by (simp add: record_cooldown_def Let_def)
  from that(1)[OF c(1,2) this c(3)] show ?thesis .
next
  case None
  note scoped = this
  let ?cap = "if ac_provider_name a = ''cline'' then parse_cline_cap_error (cd_parse env) body else None"
  show ?thesis
  proof (cases ?cap)
    case None
    show ?thesis
    proof (rule that(3))
      have eq: "(case model of None \<Rightarrow> model | Some x \<Rightarrow> Some x) = model" by (cases model) simp_all
      show "b = record_fail (cd_instant env) (bench_exhausted_quota model (cooldown_until env hs body a)
          (failure_bench_kind (cd_parse env) body) a)"
        using assms scoped None by (simp add: record_cooldown_def cooldown_until_def Let_def eq)
    qed simp_all
  next
    case (Some p)
    obtain cap secs where p: "p = (cap, secs)" by (cases p)
    have cline: "ac_provider_name a = ''cline''" using Some by (auto split: if_splits)
    obtain a1 ev until where r: "cline_cap_recorded env cap secs a = (a1, ev, until)"
      by (cases "cline_cap_recorded env cap secs a")
    note f = cline_cap_recorded_fields[OF r]
    have until: "cooldown_until env hs body a = until"
      using Some p r by (simp add: cooldown_until_def)
    show ?thesis
    proof (cases "Some cap = model")
      case True
      show ?thesis
        by (rule that(3)[of a1 "failure_bench_kind (cd_parse env) body"])
           (use assms scoped Some p r f until True in
            \<open>auto simp: record_cooldown_def Let_def\<close>)
    next
      case False
      show ?thesis
        by (rule that(2)[of cap a1])
           (use assms scoped Some p r f until False cline in
            \<open>auto simp: record_cooldown_def Let_def\<close>)
    qed
  qed
qed

section \<open>A rejected account rests\<close>

lemma claude_not_cline: "ac_kind a = Claude \<Longrightarrow> ac_provider_name a = ''claude''"
  by (cases "ac_inner a") simp_all

text \<open>
  The models that a rejection recorded under one name keeps from the account: that name, and,
  unless the rejection is of a single Claude model, every model of the same quota group, or every
  model when the name has no group, since then the whole account is benched.
\<close>

definition rejection_covers :: "header_map \<Rightarrow> account \<Rightarrow> string \<Rightarrow> string \<Rightarrow> bool" where
  "rejection_covers hs a recorded model \<longleftrightarrow>
     recorded = model \<or>
     \<not> (ac_kind a = Claude \<and> claude_model_scoped_rejection hs) \<and> same_bench a recorded model"

lemma cooldown_rests:
  assumes b: "fst (record_cooldown env hs body (Some m) (a, re)) = b"
    and t: "t < cooldown_until env hs body a" and c: "rejection_covers hs a m m'"
  shows "\<not> rested b m' t"
proof (cases rule: record_cooldown_account[OF b])
  case (1 n)
  have "cooldown_until env hs body a = cooldown_deadline_from_headers hs (cd_now_ms env)"
    using claude_not_cline[OF 1(2)] by (simp add: cooldown_until_def)
  with 1 t c show ?thesis
    by (auto simp: rested_def group_available_def set_model_cooldown_def deadline_passed_extend rejection_covers_def)
next
  case (2 cap a1)
  then have "same_bench a1 m m'" using c same_bench_inner[of a1 a] by (auto simp: rejection_covers_def)
  with 2 t show ?thesis by (simp add: bench_cline_cap_not_rested)
next
  case (3 a1 kind)
  then have "same_bench a1 m m'" using c same_bench_inner[of a1 a] by (auto simp: rejection_covers_def)
  with 3 t show ?thesis by (simp add: bench_exhausted_not_rested)
qed

lemma quota_group_antigravity:
  "ac_kind a = Antigravity \<Longrightarrow>
     quota_group_for a m = Some (if starts_with ''gemini-'' m then ''gemini'' else ''3p'')"
  by (cases "ac_inner a") (simp_all add: quota_group_for_def model_quota_group_def)

lemma bench_other_group:
  assumes "quota_group_for a m = Some g" "quota_group_for a m' = Some g'" "g \<noteq> g'"
    and "g \<noteq> model_bench_key m'"
  shows "rested (bench_exhausted_quota (Some m) until kind a) m' t = rested a m' t"
  using assms
  by (simp add: bench_exhausted_group rested_def group_available_def deadline_passed_extend
      quota_group_for_def)

text \<open>
  C10. A quota rejection stays in its family: when an Antigravity account is rejected for a Gemini model,
  its third-party models are exactly as available as before, at every time, and the other way
  round.
\<close>

theorem cooldown_spares_other_family:
  assumes "ac_kind a = Antigravity" "starts_with ''gemini-'' m \<noteq> starts_with ''gemini-'' m'"
  shows "rested (fst (record_cooldown env hs body (Some m) (a, re))) m' t = rested a m' t"
proof -
  have b: "fst (record_cooldown env hs body (Some m) (a, re)) =
      fst (record_cooldown env hs body (Some m) (a, re))" ..
  show ?thesis
  proof (cases rule: record_cooldown_account[OF b])
    case (2 cap a1)
    with assms(1) show ?thesis by (cases "ac_inner a") simp_all
  next
    case (3 a1 kind)
    have "ac_kind a1 = Antigravity" using 3(1) assms(1) by simp
    note g = quota_group_antigravity[OF this]
    have "rested (bench_exhausted_quota (Some m) (cooldown_until env hs body a) kind a1) m' t = rested a1 m' t"
      by (rule bench_other_group[OF g g]) (use assms(2) in \<open>auto simp: model_bench_key_def\<close>)
    also have "rested a1 m' t = rested a m' t" using rested_cong[OF 3(2,3,1)] by simp
    finally show ?thesis using 3(4) by simp
  qed (use assms(1) in simp)
qed

section \<open>Causes\<close>

lemma bench_records_cause:
  "t < until \<Longrightarrow> bench_kind_for_model (bench_exhausted_quota (Some m) until kind a) m t = Some kind"
  by (rule bench_exhausted_cases[of "Some m" a until kind])
     (auto simp: bench_kind_for_model_def account_bench_kind_def quota_group_for_def
        deadline_passed_extend)

text \<open>A reload keeps the deadline of a bench and forgets its cause.\<close>

lemma reload_forgets_cause:
  assumes "same_credential_identity target previous" "ac_bench_kinds target = []"
  shows "group_available (adopt_runtime_state previous target) m t =
           (deadline_passed (ac_group_cooldowns previous) (model_bench_key m) t \<and>
            (case quota_group_for target m of
               None \<Rightarrow> True | Some g \<Rightarrow> deadline_passed (ac_group_cooldowns previous) g t))"
    and "bench_kind_for_model (adopt_runtime_state previous target) m t = None"
  using assms
  by (auto simp: group_available_def adopt_runtime_state_def quota_group_for_def
      bench_kind_for_model_def account_bench_kind_def split: option.split health.split)

section \<open>Histories of an account\<close>

datatype account_op =
    OpRecordOk int int
  | OpRecordFail int
  | OpClearAuthFailure
  | OpReleaseCodex int
  | OpSetHealth health
  | OpSetUsage account_usage
  | OpHeaders account_usage
  | OpUnsupported string
  | OpModelCooldown string int
  | OpBench "string option" int bench_kind
  | OpCapBench string "string option" int
  | OpCreditBench string "string option" int

fun account_step :: "account \<Rightarrow> account_op \<Rightarrow> account" where
  "account_step a (OpRecordOk instant now) = record_ok instant now a"
| "account_step a (OpRecordFail instant) = record_fail instant a"
| "account_step a OpClearAuthFailure = snd (clear_auth_failure a)"
| "account_step a (OpReleaseCodex now) = snd (release_codex_cooldown_if_quota_free now a)"
| "account_step a (OpSetHealth h) = set_health h a"
| "account_step a (OpSetUsage u) = set_usage u a"
| "account_step a (OpHeaders h) = update_usage_from_headers h a"
| "account_step a (OpUnsupported m) = mark_model_unsupported m a"
| "account_step a (OpModelCooldown m until) = set_model_cooldown m until a"
| "account_step a (OpBench m until kind) = bench_exhausted_quota m until kind a"
| "account_step a (OpCapBench c r until) = bench_cline_cap c r until a"
| "account_step a (OpCreditBench c r until) = label_credit_bench c r until a"

lemma bench_deadlines_grow:
  "deadline_le (ac_group_cooldowns a) (ac_group_cooldowns (bench_exhausted_quota m until kind a))"
  by (rule bench_exhausted_cases[of m a until kind]) auto

lemma cap_deadlines_grow:
  "deadline_le (ac_group_cooldowns a) (ac_group_cooldowns (bench_cline_cap c r until a))"
  by (auto simp: bench_cline_cap_def Let_def split: option.split
      intro: bench_deadlines_grow deadline_le_trans)

lemma label_credit_bench_fields [simp]:
  "ac_group_cooldowns (label_credit_bench c r until a) = ac_group_cooldowns a"
  "ac_health (label_credit_bench c r until a) = ac_health a"
  by (auto simp: label_credit_bench_def set_group_credit_bench_def set_group_bench_kind_def
      set_account_bench_kind_def Let_def split: option.split)

lemma account_step_deadlines:
  "deadline_le (ac_group_cooldowns a) (ac_group_cooldowns (account_step a x))"
proof (cases x)
  case (OpReleaseCodex now)
  then show ?thesis
    by (auto simp: release_codex_cooldown_if_quota_free_def Let_def split: health.split)
qed (auto simp: record_ok_def record_fail_def clear_auth_failure_def set_health_def
      update_usage_from_headers_def mark_model_unsupported_def set_model_cooldown_def
      bench_deadlines_grow cap_deadlines_grow)


lemma group_unavailable_mono:
  assumes "deadline_le (ac_group_cooldowns a) (ac_group_cooldowns b)" "ac_inner b = ac_inner a"
    and "\<not> group_available a m t"
  shows "\<not> group_available b m t"
  using assms
  by (fastforce simp: group_available_def deadline_passed_def deadline_le_def quota_group_for_def
      split: option.splits if_splits)

lemma account_step_inner [simp]: "ac_inner (account_step a x) = ac_inner a"
proof (cases x)
  case (OpReleaseCodex now)
  then show ?thesis
    by (auto simp: release_codex_cooldown_if_quota_free_def Let_def split: health.split)
next
  case (OpCreditBench c r until)
  then show ?thesis
    by (auto simp: label_credit_bench_def set_group_credit_bench_def set_group_bench_kind_def
        set_account_bench_kind_def Let_def split: option.split)
qed (auto simp: record_ok_def record_fail_def clear_auth_failure_def set_health_def
      update_usage_from_headers_def mark_model_unsupported_def set_model_cooldown_def)

interpretation account_machine:
  invariant_machine a account_step
    "\<lambda>b. deadline_le (ac_group_cooldowns a) (ac_group_cooldowns b) \<and> ac_inner b = ac_inner a" for a
  by unfold_locales (auto intro: deadline_le_trans account_step_deadlines)

text \<open>
  C9. Nothing that happens to an account hands a benched quota group back early: once a model is
  benched until some time, no sequence of served requests, failures, polls, refreshes, header
  updates, health changes and further benches makes it available before that time.
\<close>

theorem benched_group_stays_benched:
  "\<not> group_available a m t \<Longrightarrow> \<not> group_available (foldl account_step a xs) m t"
  using account_machine.inv_reachable[of a xs] by (blast dest: group_unavailable_mono)

text \<open>
  Automatic recovery: a served request, a quota poll and a refreshed credential end a cooldown or
  an authentication failure, and never the decision of an operator.
\<close>

fun recovery_op :: "account_op \<Rightarrow> bool" where
  "recovery_op (OpSetHealth _) = False"
| "recovery_op (OpBench _ _ _) = False"
| "recovery_op (OpCapBench _ _ _) = False"
| "recovery_op _ = True"

lemma recovery_step_keeps_disabled:
  "recovery_op x \<Longrightarrow> ac_health a = Disabled \<Longrightarrow> ac_health (account_step a x) = Disabled"
  by (cases x) (auto simp: record_ok_def record_fail_def clear_auth_failure_def
      release_codex_cooldown_if_quota_free_def update_usage_from_headers_def
      mark_model_unsupported_def set_model_cooldown_def Let_def)

text \<open>
  C11. Automatic recovery respects the operator: an account that is disabled stays disabled through
  every sequence of served requests, failures, quota polls, credential refreshes and header updates.
\<close>

theorem recovery_keeps_disabled:
  "list_all recovery_op xs \<Longrightarrow> ac_health a = Disabled \<Longrightarrow>
     ac_health (foldl account_step a xs) = Disabled"
  by (induction xs arbitrary: a) (auto simp: recovery_step_keeps_disabled)

text \<open>A bench of the whole account replaces whatever health it had, a later deadline included.\<close>

lemma account_bench_overrides:
  "ac_kind a \<noteq> Antigravity \<Longrightarrow> ac_provider_name a \<noteq> ''cline'' \<Longrightarrow> ac_provider_name a \<noteq> ''antigravity'' \<Longrightarrow>
     ac_health (bench_exhausted_quota m until kind a) = Cooldown until"
  by (rule bench_exhausted_cases[of m a until kind])
     (auto simp: quota_group_for_def model_quota_group_def)

section \<open>Dated model names\<close>

lemma str_contains_iff: "str_contains n s \<longleftrightarrow> (\<exists>a b. s = a @ n @ b)"
proof (induction s)
  case Nil
  then show ?case by (auto simp: str_contains_def)
next
  case (Cons c cs)
  have "str_contains n (c # cs) \<longleftrightarrow> prefix n (c # cs) \<or> str_contains n cs"
    by (auto simp: str_contains_def)
  also have "\<dots> \<longleftrightarrow> (\<exists>a b. c # cs = a @ n @ b)"
  proof
    assume "prefix n (c # cs) \<or> str_contains n cs"
    then show "\<exists>a b. c # cs = a @ n @ b"
      unfolding Cons.IH prefix_def by (metis append_Cons append_Nil)
  next
    assume "\<exists>a b. c # cs = a @ n @ b"
    then obtain a b where ab: "c # cs = a @ n @ b" by blast
    then show "prefix n (c # cs) \<or> str_contains n cs"
      unfolding Cons.IH prefix_def by (cases a) auto
  qed
  finally show ?case .
qed

lemma str_contains_append_disjoint:
  assumes "n \<noteq> []" "last n \<notin> set s"
  shows "str_contains n (m @ s) = str_contains n m"
proof
  assume "str_contains n (m @ s)"
  then obtain a b where ab: "m @ s = (a @ n) @ b" by (auto simp: str_contains_iff)
  have "\<exists>b'. m = (a @ n) @ b'"
  proof (rule ccontr)
    assume no: "\<nexists>b'. m = (a @ n) @ b'"
    from ab no obtain us where us: "a @ n = m @ us" "s = us @ b"
      by (metis append_eq_append_conv2)
    with no have "us \<noteq> []" by auto
    moreover have "last us = last n" using us(1) assms(1) \<open>us \<noteq> []\<close> by (metis last_appendR)
    ultimately have "last n \<in> set s" using us(2) by (metis UnCI last_in_set set_append)
    with assms(2) show False ..
  qed
  then show "str_contains n m" by (auto simp: str_contains_iff)
next
  assume "str_contains n m"
  then show "str_contains n (m @ s)" unfolding str_contains_iff by (metis append.assoc)
qed

lemma split_date_suffix_dated:
  assumes "length d = 4" "list_all is_digit d"
  shows "split_date_suffix (m @ CHR ''-'' # d) = Some m"
proof -
  have "CHR ''-'' \<notin> set d" using assms(2) by (auto simp: list_all_iff is_digit_def)
  then have "rsplit_once (CHR ''-'') (m @ CHR ''-'' # d) = Some (m, d)"
    by (simp add: rsplit_once_Some)
  with assms show ?thesis by (simp add: split_date_suffix_def)
qed

lemma dated_name_same_group:
  assumes "length d = 4" "list_all is_digit d" "split_date_suffix m = None"
  shows "model_quota_group ''cline'' (m @ CHR ''-'' # d) = model_quota_group ''cline'' m"
proof -
  have "CHR ''h'' \<notin> set (CHR ''-'' # d)" using assms(2) by (auto simp: list_all_iff is_digit_def)
  then have "str_contains n (m @ CHR ''-'' # d) = str_contains n m"
    if "n \<in> {''deepseek-v4.1-flash'', ''gemini-3.8-flash''}" for n
    using that by (intro str_contains_append_disjoint) auto
  with assms show ?thesis by (simp add: model_quota_group_def split_date_suffix_dated)
qed

end
