(* ===== verification/Cooldown_Examples.thy ===== *)
theory Cooldown_Examples
  imports Cooldown_Props
begin

text \<open>The properties of usage readings, benches and recovery applied to concrete accounts.\<close>

definition spent_usage :: account_usage where
  "spent_usage =
     account_usage_default\<lparr>us_primary := quota_window_default\<lparr>used_percent := Some (Fin 100),
                              qw_reset_at_unix := Some 50\<rparr>,
                           us_observed_at_unix := Some 1\<rparr>"

lemma spent_usage_exhausted: "is_claude_included_quota_exhausted spent_usage 10"
  by code_simp

theorem exhaustion_expires_witness:
  "is_claude_included_quota_exhausted spent_usage 10 \<and>
   (\<exists>t. \<not> is_codex_included_quota_exhausted spent_usage None t \<and> \<not> is_claude_included_quota_exhausted spent_usage t)"
  using exhaustion_expires[of spent_usage None] spent_usage_exhausted by blast

definition plain_native :: native_account where
  "plain_native =
     \<lparr>na_identity_slug = ''a'', na_access_token = ''t'', na_refresh_token = [], na_email = [],
      na_account_id = [], na_expired = [], na_api_key = None, na_plan = None, na_disabled = False\<rparr>"

definition plain_antigravity :: account where
  "plain_antigravity = account_new ''a'' ''a.json'' 0 (AntigravityAccount plain_native)"

definition plain_env :: cooldown_env where
  "plain_env =
     \<lparr>cd_parse = (\<lambda>_. None), cd_env = (\<lambda>_. None), cd_now_ms = 0, cd_tracker_now = 0, cd_snapshot_now = 0,
      cd_instant = 0\<rparr>"

definition no_effects :: relay_effects where
  "no_effects = \<lparr>re_failed_over = 0, re_last_errors = [], re_cap_events = []\<rparr>"

theorem cooldown_spares_other_family_witness:
  "rested (fst (record_cooldown plain_env [] [] (Some ''gemini-3'') (plain_antigravity, no_effects))) ''claude-x'' 0"
proof -
  have "ac_kind plain_antigravity = Antigravity" by code_simp
  moreover have "starts_with ''gemini-'' ''gemini-3'' \<noteq> starts_with ''gemini-'' ''claude-x''" by code_simp
  moreover have "rested plain_antigravity ''claude-x'' 0" by code_simp
  ultimately show ?thesis using cooldown_spares_other_family by blast
qed

definition benched_antigravity :: account where
  "benched_antigravity = snd (set_group_cooldown ''gemini-3'' 1000 plain_antigravity)"

theorem benched_group_stays_benched_witness:
  "\<not> group_available (foldl account_step benched_antigravity
       [OpRecordOk 5 10, OpSetHealth Available, OpBench (Some ''gemini-3'') 20 BenchRateLimited]) ''gemini-2'' 999"
proof -
  have "\<not> group_available benched_antigravity ''gemini-2'' 999" by code_simp
  then show ?thesis by (rule benched_group_stays_benched)
qed

theorem recovery_keeps_disabled_witness:
  "ac_health (foldl account_step (plain_antigravity\<lparr>ac_health := Disabled\<rparr>)
     [OpClearAuthFailure, OpRecordOk 5 10, OpReleaseCodex 10]) = Disabled"
  by (rule recovery_keeps_disabled) simp_all

theorem clamped_caps_keep_deadline_witness:
  "cap_deadlines [(10, 90000), (20, 200000)] ((cline_tracker_with_config 5)\<lparr>ct_reset_override := 50\<rparr>) = [50, 50]"
  using clamped_caps_keep_deadline[of "(cline_tracker_with_config 5)\<lparr>ct_reset_override := 50\<rparr>" 50
      "[(10, 90000), (20, 200000)]"]
  by (simp add: estimated_reset_unix_def MAX_COOLDOWN_SECS_def numeral_2_eq_2)

end
