(* ===== verification/Pool_Exhaustion.thy ===== *)
theory Pool_Exhaustion
  imports Cooldown_Props
begin

text \<open>
  What a client is told when every account is benched, \<^verbatim>\<open>crates/gateway/src/relay.rs\<close>: the
  earliest reset, the cause the benches agree on, and the response with its \<open>Retry-After\<close>.
\<close>

section \<open>Definitions\<close>

definition format_reset_eta :: "nat \<Rightarrow> string" where
  "format_reset_eta total_secs =
     (let hours = total_secs div 3600; mins = (total_secs mod 3600) div 60 in
      if hours > 0 then dec_of_nat hours @ ''h '' @ dec_of_nat mins @ ''m'' else dec_of_nat mins @ ''m'')"

definition member_may_serve_model ::
  "(string \<Rightarrow> string option) \<Rightarrow> registry_snapshot \<Rightarrow> string \<Rightarrow> account \<Rightarrow> bool" where
  "member_may_serve_model host_of embedded model a \<longleftrightarrow>
     quota_group_for a model \<noteq> None \<or> supports_model_in host_of embedded embedded a model"

definition member_resets :: "string option \<Rightarrow> account \<Rightarrow> int list" where
  "member_resets canonical a =
     List.map_filter (\<lambda>r. r) [Option.bind canonical (group_reset_at_unix a), account_reset_at_unix a]"

definition earlier_reset :: "int \<Rightarrow> int option \<Rightarrow> int \<Rightarrow> int option" where
  "earlier_reset now earliest reset =
     (if reset > now then Some (case earliest of None \<Rightarrow> reset | Some cur \<Rightarrow> min cur reset) else earliest)"

definition earliest_exhaustion_reset_unix_secs ::
  "(string \<Rightarrow> string option) \<Rightarrow> registry_snapshot \<Rightarrow> int \<Rightarrow> account list \<Rightarrow> string option \<Rightarrow> int option" where
  "earliest_exhaustion_reset_unix_secs host_of embedded now members canonical =
     foldl (\<lambda>earliest a.
         if (case canonical of Some model \<Rightarrow> \<not> member_may_serve_model host_of embedded model a | None \<Rightarrow> False)
         then earliest else foldl (earlier_reset now) earliest (member_resets canonical a))
       None members"

datatype pool_bench_cause = PoolQuotaExhausted | PoolRateLimited | PoolOutOfCredit | PoolMixed

definition member_benched :: "int \<Rightarrow> string \<Rightarrow> account \<Rightarrow> bool" where
  "member_benched now model a \<longleftrightarrow>
     (case group_reset_at_unix a model of Some reset \<Rightarrow> reset > now | None \<Rightarrow> False) \<or>
     (case ac_health a of Cooldown until \<Rightarrow> until > i64_saturating_mul now 1000 | _ \<Rightarrow> False)"

record cause_flags =
  saw_benched :: bool
  saw_cap :: bool
  saw_transient :: bool
  saw_credit :: bool

definition cause_step ::
  "(string \<Rightarrow> string option) \<Rightarrow> registry_snapshot \<Rightarrow> int \<Rightarrow> string \<Rightarrow> cause_flags \<Rightarrow> account \<Rightarrow> cause_flags" where
  "cause_step host_of embedded now model f a =
     (let now_ms = i64_saturating_mul now 1000 in
      if \<not> member_may_serve_model host_of embedded model a then f
      else if \<not> member_benched now model a then f
      else
        let f = f\<lparr>saw_benched := True\<rparr> in
        if group_credit_benched a model now_ms then f\<lparr>saw_credit := True\<rparr>
        else case bench_kind_for_model a model now_ms of
               Some BenchOutOfCredit \<Rightarrow> f\<lparr>saw_credit := True\<rparr>
             | Some BenchQuotaExhausted \<Rightarrow> f\<lparr>saw_cap := True\<rparr>
             | Some BenchRateLimited \<Rightarrow> f\<lparr>saw_transient := True\<rparr>
             | None \<Rightarrow> f\<lparr>saw_cap := True, saw_transient := True\<rparr>)"

definition no_flags :: cause_flags where
  "no_flags = \<lparr>saw_benched = False, saw_cap = False, saw_transient = False, saw_credit = False\<rparr>"

definition agreed_cause :: "cause_flags \<Rightarrow> pool_bench_cause option" where
  "agreed_cause f =
     (if \<not> saw_benched f then None
      else if saw_credit f \<and> \<not> saw_cap f \<and> \<not> saw_transient f then Some PoolOutOfCredit
      else if \<not> saw_credit f \<and> saw_cap f \<and> \<not> saw_transient f then Some PoolQuotaExhausted
      else if \<not> saw_credit f \<and> \<not> saw_cap f \<and> saw_transient f then Some PoolRateLimited
      else Some PoolMixed)"

definition benched_pool_cause ::
  "(string \<Rightarrow> string option) \<Rightarrow> registry_snapshot \<Rightarrow> int \<Rightarrow> account list \<Rightarrow> string option \<Rightarrow> pool_bench_cause option" where
  "benched_pool_cause host_of embedded now members canonical =
     (case canonical of
        None \<Rightarrow> None
      | Some model \<Rightarrow>
          agreed_cause (foldl (cause_step host_of embedded now model) no_flags members))"

datatype resp_body = JsonBody json | RawBody string

record relay_response =
  rs_status :: nat
  rs_content_type :: "string option"
  rs_retry_after :: "string option"
  rs_body :: resp_body

definition quoted :: "string \<Rightarrow> string" where "quoted s = [CHR 0x27] @ s @ [CHR 0x27]"

definition exhaustion_message :: "pool_bench_cause option \<Rightarrow> string \<Rightarrow> string option \<Rightarrow> string" where
  "exhaustion_message cause model eta =
     (case cause of
        Some PoolOutOfCredit \<Rightarrow>
          ''all pool accounts are out of credit for model '' @ quoted model @ ''; add credits to resume'' @
          (case eta of Some e \<Rightarrow> '', earliest retry in '' @ e | None \<Rightarrow> [])
      | Some PoolRateLimited \<Rightarrow>
          ''every account that can serve model '' @ quoted model @ '' is temporarily rate-limited'' @
          (case eta of Some e \<Rightarrow> ''; earliest retry in '' @ e | None \<Rightarrow> [])
      | _ \<Rightarrow>
          ''all pool accounts are daily-exhausted for model '' @ quoted model @
          (case eta of Some e \<Rightarrow> ''; earliest known quota reset in '' @ e | None \<Rightarrow> []))"

definition exhaustion_retry_after :: "int \<Rightarrow> int option \<Rightarrow> nat option" where
  "exhaustion_retry_after now_ms earliest =
     map_option (\<lambda>until_secs. nat (max (i64_div (i64_sub (i64_mul until_secs 1000) now_ms) 1000) 0)) earliest"

definition exhaustion_failure_response ::
  "(string \<Rightarrow> string option) \<Rightarrow> registry_snapshot \<Rightarrow> int \<Rightarrow> int \<Rightarrow> account list \<Rightarrow> string option \<Rightarrow> relay_response" where
  "exhaustion_failure_response host_of embedded now now_ms members canonical =
     (let retry_after_secs = exhaustion_retry_after now_ms
            (earliest_exhaustion_reset_unix_secs host_of embedded now members canonical);
          positive = (case retry_after_secs of Some s \<Rightarrow> if s > 0 then Some s else None | None \<Rightarrow> None);
          message = exhaustion_message (benched_pool_cause host_of embedded now members canonical)
            (case canonical of Some m \<Rightarrow> m | None \<Rightarrow> ''the requested model'') (map_option format_reset_eta positive)
      in \<lparr>rs_status = 503, rs_content_type = Some ''application/json'',
          rs_retry_after = map_option dec_of_nat positive,
          rs_body = JsonBody (JObject
            [(''error'', JObject
                [(''code'', JString ''MODEL_QUOTA_EXHAUSTED''), (''message'', JString message),
                 (''retry_after_seconds'',
                  case retry_after_secs of None \<Rightarrow> JNull | Some s \<Rightarrow> JNumber (PosInt s)),
                 (''type'', JString ''quota_exhausted'')]),
             (''type'', JString ''error'')])\<rparr>)"

section \<open>The earliest reset\<close>

text \<open>The resets that count: of accounts that may serve the model, in the future\<close>

definition future_resets ::
  "(string \<Rightarrow> string option) \<Rightarrow> registry_snapshot \<Rightarrow> int \<Rightarrow> account list \<Rightarrow> string option \<Rightarrow> int set" where
  "future_resets host_of embedded now members canonical =
     {r. r > now \<and> (\<exists>a \<in> set members.
        (\<forall>model. canonical = Some model \<longrightarrow> member_may_serve_model host_of embedded model a) \<and>
        r \<in> set (member_resets canonical a))}"

definition is_minimum :: "int set \<Rightarrow> int option \<Rightarrow> bool" where
  "is_minimum R m \<longleftrightarrow> (case m of None \<Rightarrow> R = {} | Some r \<Rightarrow> r \<in> R \<and> (\<forall>s \<in> R. r \<le> s))"

lemma earlier_reset_minimum:
  "is_minimum R m \<Longrightarrow> is_minimum (if r > now then insert r R else R) (earlier_reset now m r)"
  by (auto simp: is_minimum_def earlier_reset_def min_def split: option.splits)

lemma earlier_resets_minimum:
  "is_minimum R m \<Longrightarrow> is_minimum (R \<union> {r \<in> set rs. r > now}) (foldl (earlier_reset now) m rs)"
proof (induction rs arbitrary: R m)
  case (Cons r rs)
  have "R \<union> {x \<in> set (r # rs). x > now} = (if r > now then insert r R else R) \<union> {x \<in> set rs. x > now}" by auto
  with Cons.IH[OF earlier_reset_minimum[OF Cons.prems]] show ?case by simp
qed simp

lemma earliest_reset_minimum:
  "is_minimum (future_resets host_of embedded now members canonical)
     (earliest_exhaustion_reset_unix_secs host_of embedded now members canonical)"
proof -
  let ?skip = "\<lambda>a. case canonical of Some model \<Rightarrow> \<not> member_may_serve_model host_of embedded model a | None \<Rightarrow> False"
  let ?R = "\<lambda>as. {r. r > now \<and> (\<exists>a \<in> set as. \<not> ?skip a \<and> r \<in> set (member_resets canonical a))}"
  have "is_minimum (?R members) (foldl (\<lambda>e a. if ?skip a then e
      else foldl (earlier_reset now) e (member_resets canonical a)) None members)"
  proof (induction members rule: rev_induct)
    case Nil
    then show ?case by (simp add: is_minimum_def)
  next
    case (snoc a as)
    show ?case
    proof (cases "?skip a")
      case True
      then have "?R (as @ [a]) = ?R as" by auto
      with True snoc show ?thesis by simp
    next
      case False
      then have "?R (as @ [a]) = ?R as \<union> {r \<in> set (member_resets canonical a). r > now}" by auto
      with False earlier_resets_minimum[OF snoc] show ?thesis by simp
    qed
  qed
  moreover have "future_resets host_of embedded now members canonical = ?R members"
    by (cases canonical) (auto simp: future_resets_def)
  ultimately show ?thesis by (simp add: earliest_exhaustion_reset_unix_secs_def)
qed

section \<open>The cause\<close>

text \<open>The cause an account gives, when it is benched for the model\<close>

definition member_cause :: "int \<Rightarrow> string \<Rightarrow> account \<Rightarrow> bench_kind option" where
  "member_cause now model a =
     (if group_credit_benched a model (i64_saturating_mul now 1000) then Some BenchOutOfCredit
      else bench_kind_for_model a model (i64_saturating_mul now 1000))"

definition blocking ::
  "(string \<Rightarrow> string option) \<Rightarrow> registry_snapshot \<Rightarrow> int \<Rightarrow> string \<Rightarrow> account list \<Rightarrow> account set" where
  "blocking host_of embedded now model members =
     {a \<in> set members. member_may_serve_model host_of embedded model a \<and> member_benched now model a}"

text \<open>The flags a set of causes raises\<close>

definition flags_of :: "bench_kind option set \<Rightarrow> cause_flags" where
  "flags_of S =
     \<lparr>saw_benched = (S \<noteq> {}), saw_cap = (Some BenchQuotaExhausted \<in> S \<or> None \<in> S),
      saw_transient = (Some BenchRateLimited \<in> S \<or> None \<in> S), saw_credit = (Some BenchOutOfCredit \<in> S)\<rparr>"

lemma cause_step_flags:
  "cause_step host_of embedded now model (flags_of S) a =
     flags_of (if member_may_serve_model host_of embedded model a \<and> member_benched now model a
               then insert (member_cause now model a) S else S)"
  by (auto simp: cause_step_def Let_def member_cause_def flags_of_def split: option.splits bench_kind.splits)

lemma cause_flags_eq:
  "foldl (cause_step host_of embedded now model) no_flags members =
     flags_of (member_cause now model ` blocking host_of embedded now model members)"
proof (induction members rule: rev_induct)
  case Nil
  then show ?case by (simp add: no_flags_def flags_of_def blocking_def)
next
  case (snoc a as)
  have "blocking host_of embedded now model (as @ [a]) =
      (if member_may_serve_model host_of embedded model a \<and> member_benched now model a
       then insert a (blocking host_of embedded now model as) else blocking host_of embedded now model as)"
    by (auto simp: blocking_def)
  with snoc show ?case by (simp add: cause_step_flags)
qed

fun cause_of :: "bench_kind \<Rightarrow> pool_bench_cause" where
  "cause_of BenchQuotaExhausted = PoolQuotaExhausted"
| "cause_of BenchRateLimited = PoolRateLimited"
| "cause_of BenchOutOfCredit = PoolOutOfCredit"

lemma benched_cause_unanimous:
  "benched_pool_cause host_of embedded now members (Some model) = Some (cause_of kind) \<longleftrightarrow>
     member_cause now model ` blocking host_of embedded now model members = {Some kind}"
proof -
  have "agreed_cause (flags_of S) = Some (cause_of kind) \<longleftrightarrow> S = {Some kind}" for S
  proof -
    have "x \<in> {None, Some BenchQuotaExhausted, Some BenchRateLimited, Some BenchOutOfCredit}" for x
      by (cases x; cases "the x") simp_all
    then have "S \<in> Pow {None, Some BenchQuotaExhausted, Some BenchRateLimited, Some BenchOutOfCredit}" by blast
    then show ?thesis
      by (cases kind) (auto simp: Pow_insert agreed_cause_def flags_of_def)
  qed
  then show ?thesis by (simp add: benched_pool_cause_def cause_flags_eq)
qed

section \<open>The response\<close>

text \<open>
  The retry delay is the earliest one that is known: a response with a delay belongs to an
  account that may serve the model and is benched until then, and no such account comes back
  earlier; a response without one means that no such account has a deadline ahead.
\<close>

lemma retry_after_is_earliest:
  "exhaustion_retry_after now_ms (earliest_exhaustion_reset_unix_secs host_of embedded now members canonical) =
     (if future_resets host_of embedded now members canonical = {} then None
      else Some (nat (max (i64_div (i64_sub (i64_mul (Min (future_resets host_of embedded now members canonical)) 1000)
        now_ms) 1000) 0)))"
proof -
  let ?R = "future_resets host_of embedded now members canonical"
  have "?R \<subseteq> (\<Union>a \<in> set members. set (member_resets canonical a))" by (auto simp: future_resets_def)
  then have fin: "finite ?R" by (rule finite_subset) simp
  have m: "is_minimum ?R (earliest_exhaustion_reset_unix_secs host_of embedded now members canonical)"
    by (rule earliest_reset_minimum)
  show ?thesis
  proof (cases "earliest_exhaustion_reset_unix_secs host_of embedded now members canonical")
    case None
    with m show ?thesis by (simp add: is_minimum_def exhaustion_retry_after_def)
  next
    case (Some r)
    with m have "r \<in> ?R" "\<forall>s \<in> ?R. r \<le> s" by (simp_all add: is_minimum_def)
    then have "Min ?R = r" using fin by (intro Min_eqI) auto
    with Some \<open>r \<in> ?R\<close> show ?thesis by (auto simp: exhaustion_retry_after_def)
  qed
qed

text \<open>
  What a client should be told: of missing credit or of a passing rate limit only when all the
  accounts that block the model are benched for that one reason, and of exhausted quota in every
  other case, a bench without a recorded cause included.
\<close>

definition blocking_causes ::
  "(string \<Rightarrow> string option) \<Rightarrow> registry_snapshot \<Rightarrow> int \<Rightarrow> account list \<Rightarrow> string option \<Rightarrow> bench_kind option set" where
  "blocking_causes host_of embedded now members canonical =
     (case canonical of
        None \<Rightarrow> {}
      | Some model \<Rightarrow> member_cause now model ` blocking host_of embedded now model members)"

definition told :: "bench_kind option set \<Rightarrow> string \<Rightarrow> string option \<Rightarrow> string" where
  "told causes name eta =
     (if causes = {Some BenchOutOfCredit}
      then ''all pool accounts are out of credit for model '' @ quoted name @ ''; add credits to resume'' @
        (case eta of Some e \<Rightarrow> '', earliest retry in '' @ e | None \<Rightarrow> [])
      else if causes = {Some BenchRateLimited}
      then ''every account that can serve model '' @ quoted name @ '' is temporarily rate-limited'' @
        (case eta of Some e \<Rightarrow> ''; earliest retry in '' @ e | None \<Rightarrow> [])
      else ''all pool accounts are daily-exhausted for model '' @ quoted name @
        (case eta of Some e \<Rightarrow> ''; earliest known quota reset in '' @ e | None \<Rightarrow> []))"

definition response_message :: "relay_response \<Rightarrow> json option" where
  "response_message r =
     (case rs_body r of
        JsonBody j \<Rightarrow> Option.bind (json_get j ''error'') (\<lambda>e. json_get e ''message'')
      | RawBody _ \<Rightarrow> None)"

text \<open>The whole seconds until the earliest reset of an account that may serve the model\<close>

definition known_delay ::
  "(string \<Rightarrow> string option) \<Rightarrow> registry_snapshot \<Rightarrow> int \<Rightarrow> int \<Rightarrow> account list \<Rightarrow> string option \<Rightarrow> nat option" where
  "known_delay host_of embedded now now_ms members canonical =
     (let resets = future_resets host_of embedded now members canonical;
          delay = nat (max (i64_div (i64_sub (i64_mul (Min resets) 1000) now_ms) 1000) 0)
      in if resets = {} \<or> delay = 0 then None else Some delay)"

lemma exhaustion_message_told:
  "exhaustion_message (benched_pool_cause host_of embedded now members canonical) name eta =
     told (blocking_causes host_of embedded now members canonical) name eta"
proof (cases canonical)
  case None
  then show ?thesis by (simp add: benched_pool_cause_def exhaustion_message_def told_def blocking_causes_def)
next
  case (Some model)
  let ?cause = "benched_pool_cause host_of embedded now members (Some model)"
  let ?causes = "member_cause now model ` blocking host_of embedded now model members"
  have u: "?cause = Some PoolOutOfCredit \<longleftrightarrow> ?causes = {Some BenchOutOfCredit}"
    "?cause = Some PoolRateLimited \<longleftrightarrow> ?causes = {Some BenchRateLimited}"
    using benched_cause_unanimous[of host_of embedded now members model BenchOutOfCredit]
      benched_cause_unanimous[of host_of embedded now members model BenchRateLimited] by simp_all
  show ?thesis
  proof (cases ?cause)
    case None
    with u Some show ?thesis by (auto simp: exhaustion_message_def told_def blocking_causes_def)
  next
    case (Some c)
    with u \<open>canonical = Some model\<close> show ?thesis
      by (cases c) (auto simp: exhaustion_message_def told_def blocking_causes_def)
  qed
qed

text \<open>
  C22. The response for an exhausted pool says what the benches say. Its message speaks of missing
  credit, or of a passing rate limit, exactly when some account that may serve the model is benched
  and all such accounts are benched for that reason; in every other case (exhausted quota, several
  reasons, a bench without a recorded cause, no bench, no model) it has the conservative wording of a
  daily exhaustion. The delay in the message and in \<open>Retry-After\<close> is that of the earliest reset ahead
  of any account that may serve the model, in whole seconds; it is left out when there is no such
  reset or when it is less than a second away.
\<close>

theorem exhaustion_response_is_truthful:
  fixes host_of embedded now now_ms members canonical
  defines "r \<equiv> exhaustion_failure_response host_of embedded now now_ms members canonical"
    and "delay \<equiv> known_delay host_of embedded now now_ms members canonical"
  shows "rs_status r = 503 \<and> rs_retry_after r = map_option dec_of_nat delay \<and>
    response_message r =
      Some (JString (told (blocking_causes host_of embedded now members canonical)
        (case canonical of Some model \<Rightarrow> model | None \<Rightarrow> ''the requested model'')
        (map_option format_reset_eta delay)))"
proof -
  have "(case exhaustion_retry_after now_ms
            (earliest_exhaustion_reset_unix_secs host_of embedded now members canonical) of
           Some s \<Rightarrow> if s > 0 then Some s else None | None \<Rightarrow> None) = delay"
    by (auto simp: retry_after_is_earliest delay_def known_delay_def Let_def)
  then show ?thesis
    by (simp add: r_def exhaustion_failure_response_def Let_def exhaustion_message_told response_message_def)
qed

end
