(* ===== verification/Model_Listing.thy ===== *)
theory Model_Listing
  imports Account Json
begin

text \<open>
  The model list of \<^verbatim>\<open>crates/gateway/src/models_route.rs\<close>: which registry models the loaded
  accounts can serve, the prefixed names of Claude models, the scope of delegated API keys and the
  payload of \<open>/v1/models\<close>. The embedded registry snapshot and the host of a URL are arguments.
\<close>

section \<open>Provider identities\<close>

fun provider_id_for_kind :: "provider_kind \<Rightarrow> provider_id option" where
  "provider_id_for_kind Codex = Some pid_codex"
| "provider_id_for_kind Antigravity = Some pid_antigravity"
| "provider_id_for_kind Claude = Some pid_claude"
| "provider_id_for_kind Cursor = Some pid_cursor"
| "provider_id_for_kind Kiro = Some pid_kiro"
| "provider_id_for_kind Vertex = Some pid_vertex"
| "provider_id_for_kind Zcode = Some pid_zcode"
| "provider_id_for_kind OpenCode = Some pid_opencode"
| "provider_id_for_kind Devin = None"
| "provider_id_for_kind Generic = None"

record model_entry =
  me_id :: string
  me_owned_by :: string

definition DEFAULT_MODELS :: "string list" where
  "DEFAULT_MODELS =
     [''gpt-5.6-sol'', ''gpt-5.6-luna'', ''gpt-5.6-terra'', ''gpt-5.5'', ''gpt-5.4'', ''gpt-5.4-mini'',
      ''gpt-5.3-codex-spark'', ''gpt-6-astra'', ''gpt-daybreak-blue-latest'']"

fun kind_matches_provider :: "account \<Rightarrow> provider_kind \<Rightarrow> string \<Rightarrow> bool" where
  "kind_matches_provider a Codex p = (p = ''codex'')"
| "kind_matches_provider a Antigravity p = (p = ''antigravity'')"
| "kind_matches_provider a Claude p = (p = ''claude'')"
| "kind_matches_provider a Cursor p = (p = ''cursor'')"
| "kind_matches_provider a Kiro p = (p = ''kiro'')"
| "kind_matches_provider a Vertex p = (p = ''vertex'')"
| "kind_matches_provider a Zcode p = (p = ''zcode'')"
| "kind_matches_provider a Devin p = (p = ''devin'')"
| "kind_matches_provider a OpenCode p = (p = ''opencode'')"
| "kind_matches_provider a Generic p = (ac_provider_name a = p)"

definition member_matches_provider_binding ::
  "account \<Rightarrow> provider_id \<Rightarrow> provider_binding \<Rightarrow> model_id \<Rightarrow> bool" where
  "member_matches_provider_binding a p b m =
     (let upstream = effective_upstream_id b m in
      if pb_policy b = PolicyOpen \<and> ac_kind a = Codex then True
      else if \<not> kind_matches_provider a (ac_kind a) (pid_str p) then False
      else if ac_kind a = Generic \<and>
              (case account_generic_models (ac_inner a) of Some (_, models) \<Rightarrow> models \<noteq> [] | None \<Rightarrow> False)
      then (case account_generic_models (ac_inner a) of
              Some (_, models) \<Rightarrow> list_ex (\<lambda>x. x = mid_str m \<or> x = upstream) models | None \<Rightarrow> False)
      else if ac_kind a = Devin then supports_devin_model a (mid_str m) (mid_str m) upstream
      else if ac_kind a = Antigravity then
        (case antigravity_discovered_models a of
           Some models \<Rightarrow> available_in models upstream
         | None \<Rightarrow> pb_source b \<noteq> Discovered)
      else True)"

section \<open>Listing\<close>

definition entry_owner :: "model_descriptor \<Rightarrow> string" where
  "entry_owner d =
     (if owned_by d \<noteq> [] then owned_by d
      else case md_bindings d of (p, _) # _ \<Rightarrow> pid_str p | [] \<Rightarrow> ''unknown'')"

definition can_serve :: "account list \<Rightarrow> resolved_model \<Rightarrow> bool" where
  "can_serve active resolved =
     list_ex (\<lambda>b. list_ex (\<lambda>a. member_matches_provider_binding a (pb_provider_id b) b (canonical_id resolved)) active)
       (eligible_bindings resolved)"

definition project_model_entries :: "registry_snapshot \<Rightarrow> account list \<Rightarrow> model_entry list" where
  "project_model_entries s members =
     (let active = filter (\<lambda>a. \<not> is_manually_disabled a) members in
      if active = [] then []
      else List.map_filter
        (\<lambda>(m, d). case registry_resolve s (mid_str m) of
                     Inl _ \<Rightarrow> None
                   | Inr resolved \<Rightarrow>
                       if can_serve active resolved
                       then Some \<lparr>me_id = mid_str m, me_owned_by = entry_owner d\<rparr> else None)
        (rg_models s))"

section \<open>Delegated keys\<close>

record scoped_api_key =
  sk_id :: string
  sk_name :: string
  sk_key_identifier :: string
  sk_key_prefix :: string
  sk_raw_key :: "string option"
  allowed_providers :: "string list"
  allowed_accounts :: "string list"
  allowed_models :: "string list"
  token_limit :: nat
  token_used :: nat
  is_active :: bool
  created_at_ms :: int
  expires_at_ms :: "int option"

definition is_usable_at :: "scoped_api_key \<Rightarrow> int \<Rightarrow> bool" where
  "is_usable_at k now_ms \<longleftrightarrow>
     is_active k \<and> (case expires_at_ms k of Some t \<Rightarrow> now_ms < t | None \<Rightarrow> True)"

definition is_exhausted :: "scoped_api_key \<Rightarrow> bool" where
  "is_exhausted k \<longleftrightarrow> token_limit k > 0 \<and> token_used k \<ge> token_limit k"

definition allow_list_admits :: "string list \<Rightarrow> string \<Rightarrow> bool" where
  "allow_list_admits allow candidate \<longleftrightarrow>
     allow = [] \<or> list_ex (\<lambda>x. x = ''*'' \<or> x = candidate) allow"

text \<open>\<open>Path::file_stem\<close> of a file name\<close>

definition file_stem :: "string \<Rightarrow> string" where
  "file_stem name =
     (case rsplit_once (CHR ''.'') name of
        None \<Rightarrow> name | Some (stem, _) \<Rightarrow> if stem = [] then name else stem)"

definition account_allowed :: "account \<Rightarrow> string \<Rightarrow> bool" where
  "account_allowed a x \<longleftrightarrow>
     x = ac_id a \<or> x = ac_file_name a \<or> x = file_stem (ac_file_name a) \<or>
     (case account_email (ac_inner a) of Some e \<Rightarrow> e \<noteq> [] \<and> x = e | None \<Rightarrow> False) \<or>
     (case credential_account_id (ac_inner a) of Some i \<Rightarrow> i \<noteq> [] \<and> x = i | None \<Rightarrow> False)"

definition member_matches_scope :: "account \<Rightarrow> scoped_api_key option \<Rightarrow> bool" where
  "member_matches_scope a scoped =
     (case scoped of
        None \<Rightarrow> True
      | Some k \<Rightarrow>
          if \<not> allow_list_admits (allowed_providers k) (ac_provider_name a) then False
          else if allowed_accounts k = [] \<or> ''*'' \<in> set (allowed_accounts k) then True
          else list_ex (account_allowed a) (allowed_accounts k))"

section \<open>Prefixed names\<close>

definition model_bound_to_provider :: "registry_snapshot \<Rightarrow> string \<Rightarrow> provider_id \<Rightarrow> bool" where
  "model_bound_to_provider s model p =
     (case model_id_new model of
        Inl _ \<Rightarrow> False
      | Inr m \<Rightarrow> (case omap_get (rg_models s) m of
                    None \<Rightarrow> False | Some d \<Rightarrow> omap_contains (md_bindings d) p))"

definition prefixed_model_aliases ::
  "(string \<Rightarrow> string option) \<Rightarrow> model_entry list \<Rightarrow> account list \<Rightarrow> registry_snapshot \<Rightarrow>
   (string \<times> string \<times> string) list" where
  "prefixed_model_aliases host_of entries members s =
     (let has_official = list_ex (\<lambda>a. ac_kind a = Claude \<and> \<not> is_nekos_relay host_of a \<and>
                                       \<not> is_manually_disabled a) members;
          has_nekos = list_ex (\<lambda>a. ac_kind a = Claude \<and> is_nekos_relay host_of a \<and>
                                    \<not> is_manually_disabled a) members
      in if \<not> has_official \<and> \<not> has_nekos then []
         else concat (map (\<lambda>e.
           if model_bound_to_provider s (me_id e) pid_claude
           then (if has_official
                 then [(''anthropic/'' @ me_id e, me_id e, ''anthropic''),
                       (''anthropic-'' @ me_id e, me_id e, ''anthropic'')] else []) @
                (if has_nekos
                 then [(''nekos/'' @ me_id e, me_id e, ''nekos''),
                       (''nekos-'' @ me_id e, me_id e, ''nekos'')] else [])
           else []) entries))"

definition expand_prefixed_models ::
  "(string \<Rightarrow> string option) \<Rightarrow> model_entry list \<Rightarrow> account list \<Rightarrow> registry_snapshot \<Rightarrow> model_entry list" where
  "expand_prefixed_models host_of entries members s =
     (let pairs = prefixed_model_aliases host_of entries members s
      in entries @ map (\<lambda>(i, _, owner). \<lparr>me_id = i, me_owned_by = owner\<rparr>) pairs)"

section \<open>Names from the environment and the static list\<close>

definition model_ids_from_env :: "string option \<Rightarrow> string list" where
  "model_ids_from_env raw =
     (case raw of
        None \<Rightarrow> DEFAULT_MODELS
      | Some s \<Rightarrow>
          (let parsed = filter (\<lambda>x. x \<noteq> []) (map trim (split_where (\<lambda>c. c = CHR '','') s))
           in if parsed \<noteq> [] then parsed else DEFAULT_MODELS))"

fun kind_owner :: "provider_kind \<Rightarrow> string option" where
  "kind_owner Antigravity = Some ''google''"
| "kind_owner Vertex = Some ''google-vertex''"
| "kind_owner Claude = Some ''anthropic''"
| "kind_owner Zcode = Some ''z-ai''"
| "kind_owner Kiro = Some ''kiro''"
| "kind_owner Cursor = Some ''cursor''"
| "kind_owner _ = None"

definition kind_entries :: "registry_snapshot \<Rightarrow> provider_kind \<Rightarrow> model_entry list" where
  "kind_entries embedded kind =
     (if kind = Codex then []
      else case (provider_id_for_kind kind, kind_owner kind) of
             (Some p, Some owner) \<Rightarrow>
               map (\<lambda>m. \<lparr>me_id = mid_str m, me_owned_by = owner\<rparr>)
                 (contributed_model_ids (contribution_for_provider embedded p))
           | _ \<Rightarrow> [])"

definition model_entries ::
  "registry_snapshot \<Rightarrow> provider_kind list \<Rightarrow> string option \<Rightarrow> model_entry list" where
  "model_entries embedded providers env_override =
     (if Codex \<in> set providers
      then map (\<lambda>i. \<lparr>me_id = i, me_owned_by = ''openai''\<rparr>) (model_ids_from_env env_override) else []) @
     concat (map (kind_entries embedded) providers)"

text \<open>The filter by \<open>HashSet::insert\<close>: the first entry of each id.\<close>

fun first_of_each :: "string list \<Rightarrow> model_entry list \<Rightarrow> model_entry list" where
  "first_of_each seen [] = []"
| "first_of_each seen (e # es) =
     (if me_id e \<in> set seen then first_of_each seen es
      else e # first_of_each (me_id e # seen) es)"

definition single_model_payload :: "model_entry \<Rightarrow> int \<Rightarrow> json" where
  "single_model_payload e created =
     JObject [(''created'', json_of_i64 created), (''id'', JString (me_id e)),
              (''object'', JString ''model''), (''owned_by'', JString (me_owned_by e))]"

definition models_payload :: "model_entry list \<Rightarrow> int \<Rightarrow> json" where
  "models_payload entries created =
     JObject [(''data'', JArray (map (\<lambda>e. single_model_payload e created) (first_of_each [] entries))),
              (''object'', JString ''list'')]"

end
