(* ===== verification/Runtime_Pool.thy ===== *)
theory Runtime_Pool
  imports Model_Listing Registry_Snapshot_Props
begin

text \<open>
  The runtime composition of \<^verbatim>\<open>crates/gateway/src/runtime_state.rs\<close>: the pool snapshot with the
  permissions captured for each account, the registry with what the accounts contribute to it, the
  candidate composition, and the container that publishes compositions under one lock. A critical
  section of the container is one operation on its state. The host of a URL, the hash of a token
  and the embedded registry snapshot are arguments.
\<close>

section \<open>Pool snapshots\<close>

record account_permissions =
  ap_identity_slug :: string
  ap_provider_kind :: provider_kind
  ap_disabled :: bool
  ap_access_token :: string
  ap_effective_base_url :: string
  ap_devin_models :: "string list option"
  ap_devin_discovered :: "discovered_devin_model list option"
  ap_antigravity_models :: "(string, model_availability) omap option"
  ap_unsupported_models :: "string list"

definition perm_marks_unsupported :: "account_permissions \<Rightarrow> string \<Rightarrow> string \<Rightarrow> string \<Rightarrow> bool" where
  "perm_marks_unsupported p requested canonical upstream =
     list_ex (\<lambda>m. m = requested \<or> m = canonical \<or> m = upstream) (ap_unsupported_models p)"

definition perm_supports_devin_model :: "account_permissions \<Rightarrow> string \<Rightarrow> string \<Rightarrow> string \<Rightarrow> bool" where
  "perm_supports_devin_model p requested canonical upstream =
     (if ap_provider_kind p \<noteq> Devin \<or> ap_disabled p then False
      else if perm_marks_unsupported p requested canonical upstream then False
      else case ap_devin_models p of
             None \<Rightarrow> False
           | Some models \<Rightarrow>
               list_ex (\<lambda>m. m = requested \<or> m = canonical \<or> m = upstream \<or>
                            without_devin_prefix m = upstream) models)"

definition perm_supports_antigravity_model ::
  "registry_snapshot \<Rightarrow> account_permissions \<Rightarrow> string \<Rightarrow> string \<Rightarrow> string \<Rightarrow> bool" where
  "perm_supports_antigravity_model embedded p requested canonical upstream =
     (if ap_provider_kind p \<noteq> Antigravity \<or> ap_disabled p then False
      else if perm_marks_unsupported p requested canonical upstream then False
      else case ap_antigravity_models p of
             Some discovered \<Rightarrow> available_in discovered upstream
           | None \<Rightarrow> is_model_in_snapshot pid_antigravity embedded upstream)"

definition perm_devin_vision :: "account_permissions \<Rightarrow> string \<Rightarrow> bool" where
  "perm_devin_vision p model =
     (if ap_provider_kind p \<noteq> Devin \<or> ap_disabled p then False
      else case ap_devin_discovered p of
             None \<Rightarrow> False
           | Some discovered \<Rightarrow>
               list_ex (\<lambda>m. (public_id m = model \<or> model_uid m = model) \<and> supports_images m) discovered)"

record pool_snapshot =
  ps_generation :: nat
  models_created_unix :: int
  ps_members :: "account list"
  ps_models :: "model_entry list"
  ps_registry :: registry_snapshot
  permissions :: "(string, account_permissions) omap"

definition permissions_of :: "account \<Rightarrow> account_permissions" where
  "permissions_of a =
     \<lparr>ap_identity_slug = ac_id a, ap_provider_kind = ac_kind a, ap_disabled = is_manually_disabled a,
      ap_access_token = access_token (ac_inner a), ap_effective_base_url = effective_base_url a,
      ap_devin_models = devin_models a, ap_devin_discovered = devin_discovered_models a,
      ap_antigravity_models = antigravity_discovered_models a,
      ap_unsupported_models = ac_unsupported_models a\<rparr>"

definition pool_new_with_created ::
  "nat \<Rightarrow> account list \<Rightarrow> model_entry list \<Rightarrow> registry_snapshot \<Rightarrow> int \<Rightarrow> pool_snapshot" where
  "pool_new_with_created gen members models registry created =
     \<lparr>ps_generation = gen, models_created_unix = created, ps_members = members, ps_models = models,
      ps_registry = registry,
      permissions = foldl (\<lambda>m a. omap_insert (ac_id a) (permissions_of a) m) [] members\<rparr>"

definition pool_permissions :: "pool_snapshot \<Rightarrow> string \<Rightarrow> account_permissions option" where
  "pool_permissions pool ident = omap_get (permissions pool) ident"

definition is_devin_model_eligible :: "pool_snapshot \<Rightarrow> string \<Rightarrow> string \<Rightarrow> bool" where
  "is_devin_model_eligible pool ident model =
     (case pool_permissions pool ident of
        None \<Rightarrow> False
      | Some p \<Rightarrow> perm_supports_devin_model p model (with_devin_prefix model) (without_devin_prefix model))"

definition pool_devin_vision :: "pool_snapshot \<Rightarrow> string \<Rightarrow> string \<Rightarrow> bool" where
  "pool_devin_vision pool ident model =
     (case pool_permissions pool ident of None \<Rightarrow> False | Some p \<Rightarrow> perm_devin_vision p model)"

definition is_antigravity_model_eligible ::
  "registry_snapshot \<Rightarrow> pool_snapshot \<Rightarrow> string \<Rightarrow> string \<Rightarrow> bool" where
  "is_antigravity_model_eligible embedded pool ident model =
     (let stripped = (case strip_prefix ''antigravity/'' model of Some s \<Rightarrow> s | None \<Rightarrow> model)
      in case pool_permissions pool ident of
           None \<Rightarrow> False
         | Some p \<Rightarrow> perm_supports_antigravity_model embedded p model stripped stripped)"

definition find_member :: "pool_snapshot \<Rightarrow> string \<Rightarrow> account option" where
  "find_member pool ident = find (\<lambda>a. ac_id a = ident) (ps_members pool)"

section \<open>What accounts contribute to the registry\<close>

text \<open>The closure of \<open>retain\<close>: it removes the binding from the descriptor and may drop the model.\<close>

definition strip_descriptor :: "model_descriptor \<Rightarrow> model_descriptor option" where
  "strip_descriptor d =
     (let discovered = (case omap_get (md_bindings d) pid_antigravity of
                          None \<Rightarrow> False | Some b \<Rightarrow> pb_source b = Discovered);
          bs = (if discovered then omap_remove pid_antigravity (md_bindings d) else md_bindings d)
      in if discovered \<and> bs = [] then None else Some (d\<lparr>md_bindings := bs\<rparr>))"

definition strip_discovered :: "(model_id, model_descriptor) omap \<Rightarrow> (model_id, model_descriptor) omap" where
  "strip_discovered models = List.map_filter (\<lambda>(m, d). map_option (Pair m) (strip_descriptor d)) models"

text \<open>\<open>entry(model).or_insert(fresh)\<close> followed by \<open>bindings.entry(provider).or_insert(binding)\<close>\<close>

definition contribute_binding ::
  "model_id \<Rightarrow> model_descriptor \<Rightarrow> provider_binding \<Rightarrow> registry_snapshot \<Rightarrow> registry_snapshot" where
  "contribute_binding m fresh b s =
     (let d = (case omap_get (rg_models s) m of Some d \<Rightarrow> d | None \<Rightarrow> fresh);
          d' = (if omap_contains (md_bindings d) (pb_provider_id b) then d
                else d\<lparr>md_bindings := omap_insert (pb_provider_id b) b (md_bindings d)\<rparr>)
      in s\<lparr>rg_models := omap_insert m d' (rg_models s)\<rparr>)"

definition ensure_provider :: "provider_id \<Rightarrow> registry_snapshot \<Rightarrow> registry_snapshot" where
  "ensure_provider p s =
     (if omap_contains (rg_providers s) p then s
      else s\<lparr>rg_providers := omap_insert p PolicyDiscovered (rg_providers s)\<rparr>)"

definition generic_contribution ::
  "registry_snapshot \<Rightarrow> account \<Rightarrow> registry_error + registry_snapshot" where
  "generic_contribution s a =
     (case account_generic_models (ac_inner a) of
        None \<Rightarrow> Inr s
      | Some (name, models) \<Rightarrow>
          if models = [] then Inr s
          else rbind (provider_id_canonical name) (\<lambda>p.
            if omap_get (rg_providers s) p = Some PolicyClosed then Inr s
            else try_fold (\<lambda>s model.
                   rbind (model_id_new model) (\<lambda>m.
                     Inr (contribute_binding m (model_descriptor_new m (pid_str p))
                            (provider_binding_new p PolicyDiscovered Discovered) s)))
                 (ensure_provider p s) models))"

definition devin_model_contribution ::
  "registry_snapshot \<Rightarrow> discovered_devin_model \<Rightarrow> registry_error + registry_snapshot" where
  "devin_model_contribution s model =
     rbind (model_id_new (public_id model)) (\<lambda>m.
       Inr (contribute_binding m
              (md_with_capabilities {Chat, Tools} (model_descriptor_new m ''devin''))
              (pb_with_capabilities {Chat, Tools}
                (pb_with_upstream_id (model_uid model)
                  (provider_binding_new pid_devin PolicyDiscovered Discovered))) s))"

definition devin_contribution ::
  "registry_snapshot \<Rightarrow> account \<Rightarrow> registry_error + registry_snapshot" where
  "devin_contribution s a =
     (if ac_kind a = Devin \<and> \<not> is_manually_disabled a then
        (case devin_discovered_models a of
           None \<Rightarrow> Inr s
         | Some models \<Rightarrow>
             if models = [] then Inr s
             else try_fold devin_model_contribution (ensure_provider pid_devin s) models)
      else Inr s)"

definition is_conversation_id :: "string \<Rightarrow> bool" where
  "is_conversation_id i =
     (case strip_prefix ''chat_'' i of
        None \<Rightarrow> False | Some rest \<Rightarrow> rest \<noteq> [] \<and> list_all is_digit rest)"

definition antigravity_model_contribution ::
  "registry_snapshot \<Rightarrow> string \<times> model_availability \<Rightarrow> registry_snapshot" where
  "antigravity_model_contribution s nm =
     (if \<not> (case ma_available (snd nm) of Some x \<Rightarrow> x | None \<Rightarrow> True) then s
      else if is_conversation_id (fst nm) then s
      else case model_id_new (fst nm) of
             Inl _ \<Rightarrow> s
           | Inr m \<Rightarrow>
               contribute_binding m
                 (md_with_capabilities {Chat, Tools} (model_descriptor_new m ''google''))
                 (pb_with_priority 100 (pb_with_capabilities {Chat, Tools}
                    (provider_binding_new pid_antigravity PolicyDiscovered Discovered))) s)"

definition antigravity_contribution :: "registry_snapshot \<Rightarrow> account \<Rightarrow> registry_snapshot" where
  "antigravity_contribution s a =
     (if ac_kind a = Antigravity \<and> \<not> is_manually_disabled a then
        (case antigravity_discovered_models a of
           None \<Rightarrow> s
         | Some models \<Rightarrow>
             if models = [] then s
             else foldl antigravity_model_contribution (ensure_provider pid_antigravity s) models)
      else s)"

definition registry_with_account_contributions ::
  "account list \<Rightarrow> registry_snapshot \<Rightarrow> registry_error + registry_snapshot" where
  "registry_with_account_contributions members registry =
     rbind (try_fold generic_contribution
              (registry\<lparr>rg_models := strip_discovered (rg_models registry)\<rparr>) members) (\<lambda>s.
     rbind (try_fold devin_contribution s members) (\<lambda>s.
     let effective = foldl antigravity_contribution s members in
     rbind (registry_validate effective) (\<lambda>_. Inr effective)))"

section \<open>Compositions\<close>

definition env_contribution ::
  "account list \<Rightarrow> string option \<Rightarrow> registry_snapshot \<Rightarrow> registry_error + registry_snapshot" where
  "env_contribution members models_env s =
     (case models_env of
        None \<Rightarrow> Inr s
      | Some raw \<Rightarrow>
          if list_ex (\<lambda>a. ac_kind a = Codex \<and> \<not> is_manually_disabled a) members
          then try_fold (\<lambda>s i.
                 rbind (model_id_new i) (\<lambda>m.
                   Inr (contribute_binding m (model_descriptor_new m ''openai'')
                          (pb_with_capabilities {Chat}
                            (provider_binding_new pid_codex PolicyOpen LocalOverride)) s)))
               s (model_ids_from_env (Some raw))
          else Inr s)"

definition add_prefix_alias ::
  "registry_snapshot \<Rightarrow> string \<times> string \<times> string \<Rightarrow> registry_snapshot" where
  "add_prefix_alias s pair =
     (case (model_id_new (fst pair), model_id_new (fst (snd pair))) of
        (Inr alias_id, Inr target) \<Rightarrow>
          if omap_contains (rg_models s) alias_id \<or> omap_contains (rg_aliases s) alias_id then s
          else s\<lparr>rg_aliases := omap_insert alias_id
                   \<lparr>ar_alias = alias_id, ar_target = target, ar_provider_id = None\<rparr> (rg_aliases s)\<rparr>
      | _ \<Rightarrow> s)"

definition compute_candidate_composition_with_created ::
  "(string \<Rightarrow> string option) \<Rightarrow> nat \<Rightarrow> account list \<Rightarrow> registry_snapshot \<Rightarrow> string option \<Rightarrow> int \<Rightarrow>
   registry_error + pool_snapshot" where
  "compute_candidate_composition_with_created host_of gen members registry models_env created =
     rbind (registry_with_account_contributions members registry) (\<lambda>s.
     rbind (env_contribution members models_env s) (\<lambda>s.
     let base = project_model_entries s members;
         s' = foldl add_prefix_alias s (prefixed_model_aliases host_of base members s)
     in rbind (registry_validate s') (\<lambda>_.
        let models = expand_prefixed_models host_of (project_model_entries s' members) members s'
        in Inr (pool_new_with_created gen members models s' created))))"

text \<open>The cast \<open>generation as i64\<close> wraps.\<close>

definition compute_candidate_composition ::
  "(string \<Rightarrow> string option) \<Rightarrow> nat \<Rightarrow> account list \<Rightarrow> registry_snapshot \<Rightarrow> string option \<Rightarrow>
   registry_error + pool_snapshot" where
  "compute_candidate_composition host_of gen members registry models_env =
     compute_candidate_composition_with_created host_of gen members registry models_env (i64_wrap (int gen))"

section \<open>Scoped lists\<close>

definition scoped_model_entries ::
  "(string \<Rightarrow> string option) \<Rightarrow> pool_snapshot \<Rightarrow> scoped_api_key \<Rightarrow> model_entry list" where
  "scoped_model_entries host_of pool scoped =
     (let permitted = filter (\<lambda>a. member_matches_scope a (Some scoped)) (ps_members pool) in
      if permitted = [] then []
      else
        let visible = expand_prefixed_models host_of
                        (project_model_entries (ps_registry pool) permitted) permitted (ps_registry pool);
            published = filter (\<lambda>e. list_ex (\<lambda>c. me_id c = me_id e) visible) (ps_models pool);
            entries = foldl (\<lambda>kept e. if list_ex (\<lambda>k. me_id k = me_id e) kept then kept else kept @ [e])
                        published visible
        in filter (\<lambda>e. allow_list_admits (allowed_models scoped) (me_id e)) entries)"

definition resolve_visible_models ::
  "(string \<Rightarrow> string option) \<Rightarrow> pool_snapshot \<Rightarrow> scoped_api_key option \<Rightarrow> model_entry list" where
  "resolve_visible_models host_of pool scoped =
     (case scoped of Some k \<Rightarrow> scoped_model_entries host_of pool k | None \<Rightarrow> ps_models pool)"

definition find_model_entry ::
  "(string \<Rightarrow> string option) \<Rightarrow> pool_snapshot \<Rightarrow> scoped_api_key option \<Rightarrow> string \<Rightarrow> model_entry option" where
  "find_model_entry host_of pool scoped ident =
     find (\<lambda>e. me_id e = ident) (first_of_each [] (resolve_visible_models host_of pool scoped))"

definition has_stale_devin_members :: "account list \<Rightarrow> nat \<Rightarrow> bool" where
  "has_stale_devin_members members now =
     list_ex (\<lambda>a. ac_kind a = Devin \<and> \<not> is_manually_disabled a \<and>
                  (case ac_devin_catalog a of None \<Rightarrow> True | Some c \<Rightarrow> devin_is_stale c now)) members"

end
