(* ===== verification/Routing.thy ===== *)
theory Routing
  imports Runtime_Pool Router Scheduler Claude_Budget Claude_Reset_Order
begin

text \<open>
  Routing of a request to an account, \<^verbatim>\<open>crates/gateway/src/relay.rs\<close> from
  \<open>member_matches_api_key_binding\<close> to \<open>provider_for_member\<close>, and
  \<open>routable_accounts_for_model\<close> of \<^verbatim>\<open>crates/gateway/src/runtime_state.rs\<close>: the model is resolved to
  provider classes, the accounts that may serve it are collected and ordered, and the router picks
  one of them. The parts of \<open>AppState\<close> that routing reads are one record; \<open>usage_snapshot\<close> reads its
  own clock, which is a field of that record. The host of a URL and the embedded registry snapshot
  are fields too.
\<close>

section \<open>What routing reads\<close>

datatype claude_route_mode = OauthFirst | ApiKeyFirst | ApiKeyOnly

record api_key_binding =
  kb_key_identifier :: string
  kb_account :: "string option"
  kb_provider :: "string option"

record route_env =
  rv_scheduler :: scheduler_registry
  rv_credit_codex_account_ids :: "string list"
  rv_claude_suspected_accounts :: "string list"
  rv_claude_api_key_budgets :: "(string, nat) omap"
  rv_claude_route_mode :: claude_route_mode
  rv_claude_budgets :: budget_tracker
  rv_claude_egress_clients :: "(string, bool) omap"
  rv_claude_ranks :: cached_ranks
  rv_usage_now :: int
  rv_host_of :: "string \<Rightarrow> string option"
  rv_embedded :: registry_snapshot

abbreviation rv_usage :: "route_env \<Rightarrow> account \<Rightarrow> account_usage" where
  "rv_usage env a \<equiv> usage_snapshot_at a (rv_usage_now env)"

definition is_codex_account_credit_enabled :: "route_env \<Rightarrow> string \<Rightarrow> bool" where
  "is_codex_account_credit_enabled env ident \<longleftrightarrow> ident \<in> set (rv_credit_codex_account_ids env)"

text \<open>A client that did not build is a present entry without a client.\<close>

definition claude_egress_invalid :: "route_env \<Rightarrow> account \<Rightarrow> bool" where
  "claude_egress_invalid env a \<longleftrightarrow>
     ac_kind a = Claude \<and> omap_get (rv_claude_egress_clients env) (ac_id a) = Some False"

section \<open>Resolving\<close>

record resolved_provider_class =
  rp_binding :: provider_binding
  rp_upstream_model :: string

record resolved_route =
  canonical_model :: string
  route_capabilities :: "model_capability set"
  provider_classes :: "resolved_provider_class list"

definition member_matches_api_key_binding :: "account \<Rightarrow> api_key_binding option \<Rightarrow> bool" where
  "member_matches_api_key_binding a binding =
     (case binding of
        None \<Rightarrow> True
      | Some b \<Rightarrow>
          (case kb_account b of None \<Rightarrow> True | Some account \<Rightarrow> ac_id a = account) \<and>
          (case kb_provider b of None \<Rightarrow> True | Some provider \<Rightarrow> ac_provider_name a = provider))"

definition member_provider_id :: "account \<Rightarrow> provider_id option" where
  "member_provider_id a =
     (case ac_kind a of
        Codex \<Rightarrow> Some pid_codex
      | Antigravity \<Rightarrow> Some pid_antigravity
      | Claude \<Rightarrow> Some pid_claude
      | Cursor \<Rightarrow> Some pid_cursor
      | Kiro \<Rightarrow> Some pid_kiro
      | Zcode \<Rightarrow> Some pid_zcode
      | Vertex \<Rightarrow> Some pid_vertex
      | Devin \<Rightarrow> Some pid_devin
      | OpenCode \<Rightarrow> Some pid_opencode
      | Generic \<Rightarrow> (case provider_id_canonical (ac_provider_name a) of Inr p \<Rightarrow> Some p | Inl _ \<Rightarrow> None))"

definition account_declares_binding_model ::
  "route_env \<Rightarrow> pool_snapshot \<Rightarrow> account \<Rightarrow> string \<Rightarrow> string \<Rightarrow> resolved_provider_class \<Rightarrow> bool" where
  "account_declares_binding_model env pool a requested canonical pc =
     (let upstream = rp_upstream_model pc in
      if list_ex (\<lambda>m. m = requested \<or> m = canonical \<or> m = upstream) (ac_unsupported_models a) then False
      else if ac_kind a = Devin then
        is_devin_model_eligible pool (ac_id a) requested \<or>
        is_devin_model_eligible pool (ac_id a) canonical \<or>
        is_devin_model_eligible pool (ac_id a) upstream
      else if ac_kind a = Antigravity then
        (if (case pool_permissions pool (ac_id a) of
               None \<Rightarrow> False | Some p \<Rightarrow> ap_antigravity_models p = None)
         then pb_source (rp_binding pc) \<noteq> Discovered
         else is_antigravity_model_eligible (rv_embedded env) pool (ac_id a) upstream)
      else case account_generic_models (ac_inner a) of
             None \<Rightarrow> True
           | Some (_, models) \<Rightarrow>
               models = [] \<or> list_ex (\<lambda>m. m = requested \<or> m = canonical \<or> m = upstream) models)"

datatype model_prefix = PrefixAnthropic | PrefixNekos

definition parse_model_prefix :: "string \<Rightarrow> model_prefix option \<times> string" where
  "parse_model_prefix model =
     (case first_stripped [''anthropic-'', ''anthropic/''] model of
        Some stripped \<Rightarrow> (Some PrefixAnthropic, stripped)
      | None \<Rightarrow>
          (case first_stripped [''nekos-'', ''nekos/''] model of
             Some stripped \<Rightarrow> (Some PrefixNekos, stripped)
           | None \<Rightarrow> (None, model)))"

definition is_dated_version_of :: "string \<Rightarrow> string \<Rightarrow> bool" where
  "is_dated_version_of base ident =
     (case Option.bind (strip_prefix base ident) (strip_prefix ''-'') of
        None \<Rightarrow> False | Some date \<Rightarrow> length date = 8 \<and> list_all is_digit date)"

text \<open>An undated Claude name stands for its dated version when there is exactly one.\<close>

definition dated_model :: "registry_snapshot \<Rightarrow> string \<Rightarrow> string" where
  "dated_model s base =
     (case filter (\<lambda>m. is_dated_version_of base (mid_str m)) (omap_keys (rg_models s)) of
        [target] \<Rightarrow> mid_str target | _ \<Rightarrow> base)"

definition resolve_model :: "pool_snapshot \<Rightarrow> string \<Rightarrow> registry_error + resolved_model" where
  "resolve_model pool requested =
     (let s = ps_registry pool; base = snd (parse_model_prefix requested) in
      rbind (model_id_new base) (\<lambda>base_id.
      if omap_contains (rg_aliases s) base_id then registry_resolve s base
      else
        let name = (if omap_contains (rg_models s) base_id then base
                    else if starts_with ''claude-'' base then dated_model s base else base)
        in rbind (model_id_new name) (\<lambda>canonical.
           if globally_excluded s canonical then Inl (ModelExcluded canonical)
           else if starts_with ''claude-'' name \<and> \<not> omap_contains (rg_models s) canonical
           then (if excluded_for s canonical pid_claude then Inl (UnknownModel canonical)
                 else Inr \<lparr>canonical_id = canonical, rm_descriptor = None,
                           eligible_bindings =
                             [provider_binding_new pid_claude PolicyClosed EmbeddedFallback],
                           rm_capabilities = {}, rm_source = EmbeddedFallback\<rparr>)
           else registry_resolve s name)))"

definition provider_loaded :: "pool_snapshot \<Rightarrow> provider_binding \<Rightarrow> bool" where
  "provider_loaded pool b = list_ex (\<lambda>a. member_provider_id a = Some (pb_provider_id b)) (ps_members pool)"

definition resolve_route ::
  "pool_snapshot \<Rightarrow> string option \<Rightarrow> model_capability option \<Rightarrow> registry_error + resolved_route option" where
  "resolve_route pool requested capability =
     (case requested of
        None \<Rightarrow> Inr None
      | Some model \<Rightarrow>
          rbind (resolve_model pool model) (\<lambda>resolved.
            Inr (Some
              \<lparr>canonical_model = mid_str (canonical_id resolved),
               route_capabilities = rm_capabilities resolved,
               provider_classes =
                 map (\<lambda>b. \<lparr>rp_binding = b, rp_upstream_model = effective_upstream_id b (canonical_id resolved)\<rparr>)
                   (filter (provider_loaded pool)
                     (filter (\<lambda>b. case capability of None \<Rightarrow> True | Some c \<Rightarrow> c \<in> pb_capabilities b)
                       (eligible_bindings resolved)))\<rparr>)))"

section \<open>Eligibility\<close>

definition claude_member_routable :: "route_env \<Rightarrow> account \<Rightarrow> bool" where
  "claude_member_routable env a =
     (if ac_kind a \<noteq> Claude \<or> is_nekos_relay (rv_host_of env) a then True
      else if ac_id a \<in> set (rv_claude_suspected_accounts env) then False
      else if claude_egress_invalid env a then False
      else if ac_relay_key a \<noteq> None
      then \<not> is_over (rv_claude_api_key_budgets env) (ac_id a) (rv_claude_budgets env)
      else rv_claude_route_mode env \<noteq> ApiKeyOnly)"

definition codex_quota_blocks :: "route_env \<Rightarrow> string option \<Rightarrow> int \<Rightarrow> account \<Rightarrow> bool" where
  "codex_quota_blocks env model now_ms a =
     (let usage = rv_usage env a;
          snap = sr_snapshot (rv_scheduler env);
          scheduler_fail_open = sn_enabled snap \<and> fail_open snap
      in is_codex_hard_limit_reached usage \<or>
         (\<not> is_codex_account_credit_enabled env (ac_id a) \<and> \<not> scheduler_fail_open \<and>
          is_codex_included_quota_exhausted usage model (i64_div now_ms 1000)))"

text \<open>The filters that both paths of \<open>eligible_indices\<close> apply before the model is considered\<close>

definition member_admitted ::
  "route_env \<Rightarrow> string option \<Rightarrow> int \<Rightarrow> api_key_binding option \<Rightarrow> scoped_api_key option \<Rightarrow> account \<Rightarrow> bool" where
  "member_admitted env model now_ms binding scoped a \<longleftrightarrow>
     is_available (ac_health a) now_ms \<and> permits (rv_scheduler env) (ac_id a) \<and>
     member_matches_api_key_binding a binding \<and> member_matches_scope a scoped \<and>
     \<not> (ac_kind a = Codex \<and> codex_quota_blocks env model now_ms a) \<and>
     \<not> (ac_kind a = Claude \<and> is_claude_included_quota_exhausted (rv_usage env a) (i64_div now_ms 1000)) \<and>
     claude_member_routable env a"

definition prefix_admits :: "route_env \<Rightarrow> model_prefix option \<Rightarrow> account \<Rightarrow> bool" where
  "prefix_admits env prefix_of a =
     (case prefix_of of
        Some PrefixAnthropic \<Rightarrow> \<not> (ac_kind a \<noteq> Claude \<or> is_nekos_relay (rv_host_of env) a)
      | Some PrefixNekos \<Rightarrow> \<not> (ac_kind a \<noteq> Claude \<or> \<not> is_nekos_relay (rv_host_of env) a)
      | None \<Rightarrow> \<not> (ac_kind a = Claude \<and> is_nekos_relay (rv_host_of env) a))"

definition provider_for_member :: "resolved_route \<Rightarrow> account \<Rightarrow> resolved_provider_class option" where
  "provider_for_member route a =
     (case member_provider_id a of
        None \<Rightarrow> None
      | Some p \<Rightarrow> find (\<lambda>pc. pb_provider_id (rp_binding pc) = p) (provider_classes route))"

text \<open>The body of the loop over the members: the priority under which one is ranked.\<close>

definition member_rank ::
  "route_env \<Rightarrow> pool_snapshot \<Rightarrow> resolved_route \<Rightarrow> string \<Rightarrow> int \<Rightarrow> api_key_binding option \<Rightarrow>
   scoped_api_key option \<Rightarrow> account \<Rightarrow> int option" where
  "member_rank env pool route requested now_ms binding scoped a =
     (if \<not> member_admitted env (Some (canonical_model route)) now_ms binding scoped a then None
      else if \<not> prefix_admits env (fst (parse_model_prefix requested)) a then None
      else if \<not> group_available a (canonical_model route) now_ms then None
      else case find (\<lambda>pc. member_provider_id a = Some (pb_provider_id (rp_binding pc))) (provider_classes route) of
             None \<Rightarrow> None
           | Some pc \<Rightarrow>
               if account_declares_binding_model env pool a requested (canonical_model route) pc
               then Some (pb_priority (rp_binding pc)) else None)"

definition is_claude_oauth :: "route_env \<Rightarrow> account \<Rightarrow> bool" where
  "is_claude_oauth env a \<longleftrightarrow>
     ac_kind a = Claude \<and> \<not> is_nekos_relay (rv_host_of env) a \<and> ac_relay_key a = None"

definition is_claude_api_key :: "route_env \<Rightarrow> account \<Rightarrow> bool" where
  "is_claude_api_key env a \<longleftrightarrow>
     ac_kind a = Claude \<and> \<not> is_nekos_relay (rv_host_of env) a \<and> ac_relay_key a \<noteq> None"

definition claude_key_slot :: "route_env \<Rightarrow> account list \<Rightarrow> nat \<Rightarrow> bool" where
  "claude_key_slot env members index \<longleftrightarrow>
     index < length members \<and> (is_claude_oauth env (members ! index) \<or> is_claude_api_key env (members ! index))"

definition prefer_claude_api_keys :: "route_env \<Rightarrow> nat list \<Rightarrow> account list \<Rightarrow> nat list" where
  "prefer_claude_api_keys env ordered members =
     (let slots = map fst (filter (\<lambda>(_, index). claude_key_slot env members index) (enumerated ordered));
          claude = sort_key (\<lambda>index. \<not> is_claude_api_key env (members ! index)) (map (\<lambda>slot. ordered ! slot) slots)
      in foldl (\<lambda>xs (slot, index). xs[slot := index]) ordered (zip slots claude))"

definition eligible_indices ::
  "route_env \<Rightarrow> pool_snapshot \<Rightarrow> resolved_route option \<Rightarrow> string option \<Rightarrow> int \<Rightarrow> api_key_binding option \<Rightarrow>
   scoped_api_key option \<Rightarrow> nat list \<times> cached_ranks" where
  "eligible_indices env pool route requested now_ms binding scoped =
     (case route of
        None \<Rightarrow>
          (map fst (filter (\<lambda>(_, a). member_admitted env None now_ms binding scoped a)
             (enumerated (ps_members pool))), rv_claude_ranks env)
      | Some route \<Rightarrow>
          (let requested = (case requested of Some m \<Rightarrow> m | None \<Rightarrow> canonical_model route);
               ranked = List.map_filter (\<lambda>(i, a). map_option (Pair i)
                          (member_rank env pool route requested now_ms binding scoped a))
                        (enumerated (ps_members pool));
               ordered = map fst (sort_key (\<lambda>item. - snd item) ranked);
               views = map (account_view (rv_usage_now env)) (ps_members pool);
               now_unix = i64_div now_ms 1000;
               (ranks, cached) = claude_ranks views now_unix (rv_claude_ranks env);
               ordered = reorder_claude_slots ordered views ranks now_unix;
               ordered = (if rv_claude_route_mode env = ApiKeyFirst
                          then prefer_claude_api_keys env ordered (ps_members pool) else ordered)
           in (ordered, cached)))"

definition eligible_account_ids_for_model :: "route_env \<Rightarrow> pool_snapshot \<Rightarrow> string \<Rightarrow> int \<Rightarrow> string list" where
  "eligible_account_ids_for_model env pool model now_ms =
     (case resolve_route pool (Some model) None of
        Inr (Some route) \<Rightarrow>
          List.map_filter
            (\<lambda>i. if i < length (ps_members pool) then Some (ac_id (ps_members pool ! i)) else None)
            (fst (eligible_indices env pool (Some route) (Some model) now_ms None None))
      | _ \<Rightarrow> [])"

section \<open>Bound sessions\<close>

definition BOUND_COOLDOWN_HOLD_MS :: int where "BOUND_COOLDOWN_HOLD_MS = 120000"

definition route_serves_claude :: "resolved_route option \<Rightarrow> bool" where
  "route_serves_claude route =
     (case route of
        None \<Rightarrow> True
      | Some r \<Rightarrow> list_ex (\<lambda>pc. pb_provider_id (rp_binding pc) = pid_claude) (provider_classes r))"

datatype bound_member = BoundEligible | ShortCooldown int | BoundUnusable

definition bound_member_state ::
  "route_env \<Rightarrow> pool_snapshot \<Rightarrow> resolved_route option \<Rightarrow> string option \<Rightarrow> string \<Rightarrow> nat list \<Rightarrow>
   api_key_binding option \<Rightarrow> scoped_api_key option \<Rightarrow> int \<Rightarrow> bound_member" where
  "bound_member_state env pool route requested bound_id elig binding scoped now_ms =
     (case position (\<lambda>a. ac_id a = bound_id) (ps_members pool) of
        None \<Rightarrow> BoundUnusable
      | Some index \<Rightarrow>
          (let a = ps_members pool ! index in
           if \<not> is_claude_oauth env a then BoundUnusable
           else if index \<in> set elig then BoundEligible
           else case ac_health a of
                  Cooldown until \<Rightarrow>
                    (let remaining = i64_sub until now_ms in
                     if remaining \<le> 0 \<or> remaining > BOUND_COOLDOWN_HOLD_MS then BoundUnusable
                     else if \<not> member_matches_api_key_binding a binding \<or> \<not> member_matches_scope a scoped \<or>
                             \<not> claude_member_routable env a \<or>
                             is_claude_included_quota_exhausted (rv_usage env a) (i64_div now_ms 1000)
                     then BoundUnusable
                     else if (case route of
                                None \<Rightarrow> False
                              | Some r \<Rightarrow>
                                  (let model = (case requested of Some m \<Rightarrow> m | None \<Rightarrow> canonical_model r);
                                       declared = list_ex (\<lambda>pc.
                                         member_provider_id a = Some (pb_provider_id (rp_binding pc)) \<and>
                                         account_declares_binding_model env pool a model (canonical_model r) pc)
                                         (provider_classes r)
                                   in \<not> declared \<or> \<not> group_available a (canonical_model r) until))
                     then BoundUnusable
                     else ShortCooldown (i64_div (i64_add remaining 999) 1000))
                | _ \<Rightarrow> BoundUnusable))"

section \<open>Selection\<close>

abbreviation view_member :: "route_env \<Rightarrow> account \<Rightarrow> pool_member" where
  "view_member env a \<equiv> pool_member_of (account_view (rv_usage_now env) a)"

definition bound_provider ::
  "pool_snapshot \<Rightarrow> session_hint \<Rightarrow> nat list \<Rightarrow> nat list \<Rightarrow> router \<Rightarrow> provider_id option" where
  "bound_provider pool hint elig exclude r =
     Option.bind (affinity_key hint) (\<lambda>key.
     Option.bind (bound_affinity_member key r) (\<lambda>bound_id.
     Option.bind (find (\<lambda>i. i \<notin> set exclude \<and> i < length (ps_members pool) \<and>
                            ac_id (ps_members pool ! i) = bound_id) elig) (\<lambda>i.
       member_provider_id (ps_members pool ! i))))"

definition select_among ::
  "route_env \<Rightarrow> pool_snapshot \<Rightarrow> int \<Rightarrow> session_hint \<Rightarrow> nat list \<Rightarrow> router \<Rightarrow> nat option \<times> router" where
  "select_among env pool now hint origin r =
     (let (choice, r') = select now (map (\<lambda>i. view_member env (ps_members pool ! i)) origin) hint r
      in (Option.bind choice (\<lambda>k. if k < length origin then Some (origin ! k) else None), r'))"

definition select_index ::
  "route_env \<Rightarrow> pool_snapshot \<Rightarrow> int \<Rightarrow> session_hint \<Rightarrow> nat list \<Rightarrow> nat list \<Rightarrow> router \<Rightarrow> nat option \<times> router" where
  "select_index env pool now hint elig exclude r =
     (let kept = filter (\<lambda>i. i \<notin> set exclude) elig in
      case bound_provider pool hint elig exclude r of
        None \<Rightarrow>
          if list_ex (\<lambda>i. i \<ge> length (ps_members pool)) kept then (None, r)
          else select_among env pool now hint kept r
      | Some target \<Rightarrow>
          if list_ex (\<lambda>i. i \<ge> length (ps_members pool)) kept then (None, r)
          else select_among env pool now hint
                 (filter (\<lambda>i. member_provider_id (ps_members pool ! i) = Some target) kept) r)"

section \<open>Accounts that could serve a model\<close>

definition binding_routes_member ::
  "route_env \<Rightarrow> pool_snapshot \<Rightarrow> string \<Rightarrow> model_id \<Rightarrow> account \<Rightarrow> provider_binding \<Rightarrow> bool" where
  "binding_routes_member env pool model canonical_mid a b =
     (let canonical = mid_str canonical_mid;
          upstream = effective_upstream_id b canonical_mid;
          among = list_ex (\<lambda>i. i = model \<or> i = canonical \<or> i = upstream);
          generic = (case account_generic_models (ac_inner a) of
                       None \<Rightarrow> True | Some (_, models) \<Rightarrow> models = [] \<or> among models)
      in if provider_id_canonical (ac_provider_name a) \<noteq> Inr (pb_provider_id b) then False
         else if among (ac_unsupported_models a) then False
         else case pool_permissions pool (ac_id a) of
                Some p \<Rightarrow>
                  if ap_disabled p then False
                  else if ap_provider_kind p = Devin then perm_supports_devin_model p model canonical upstream
                  else if ap_provider_kind p = Antigravity then
                    (if ap_antigravity_models p = None then pb_source b \<noteq> Discovered
                     else perm_supports_antigravity_model (rv_embedded env) p model canonical upstream)
                  else generic
              | None \<Rightarrow>
                  if ac_kind a = Devin then supports_devin_model a model canonical upstream
                  else if ac_kind a = Antigravity then
                    supports_antigravity_model (rv_embedded env) a model \<or>
                    supports_antigravity_model (rv_embedded env) a canonical \<or>
                    supports_antigravity_model (rv_embedded env) a upstream
                  else generic)"

definition routable_accounts_for_model :: "route_env \<Rightarrow> pool_snapshot \<Rightarrow> string \<Rightarrow> account list" where
  "routable_accounts_for_model env pool model =
     (case resolve_model pool model of
        Inl _ \<Rightarrow> []
      | Inr resolved \<Rightarrow>
          filter (\<lambda>a. prefix_admits env (fst (parse_model_prefix model)) a \<and>
                      list_ex (binding_routes_member env pool model (canonical_id resolved) a)
                        (eligible_bindings resolved))
            (ps_members pool))"

end
