(* ===== verification/Runtime_State.thy ===== *)
theory Runtime_State
  imports Runtime_Pool
begin

text \<open>
  The container of the published composition, \<open>UnifiedRuntimeState\<close> of
  \<^verbatim>\<open>crates/gateway/src/runtime_state.rs\<close>, and the discovery of Devin models that publishes through
  it, \<open>refresh_account_models\<close> of \<^verbatim>\<open>crates/gateway/src/devin_catalog.rs\<close>. Every operation holds the
  coordinator's lock for its whole effect; the two halves of a discovery, before and after the
  upstream call, are separate operations.
\<close>

section \<open>Container\<close>

record runtime_state =
  rt_pool :: pool_snapshot
  generation_seq :: nat
  models_env :: "string option"
  base_registry :: registry_snapshot

definition runtime_new :: "pool_snapshot \<Rightarrow> string option \<Rightarrow> runtime_state" where
  "runtime_new initial env =
     \<lparr>rt_pool = initial, generation_seq = ps_generation initial, models_env = env,
      base_registry = ps_registry initial\<rparr>"

datatype runtime_error = RtRegistry registry_error | RtCommit string

definition publish_candidate ::
  "pool_snapshot \<Rightarrow> runtime_state \<Rightarrow> (runtime_error + pool_snapshot) \<times> runtime_state" where
  "publish_candidate candidate rt =
     (case registry_validate (ps_registry candidate) of
        Inl e \<Rightarrow> (Inl (RtRegistry e), rt)
      | Inr _ \<Rightarrow>
          (Inr candidate,
           rt\<lparr>base_registry := ps_registry candidate, generation_seq := ps_generation candidate,
               rt_pool := candidate\<rparr>))"

abbreviation take_generation :: "runtime_state \<Rightarrow> nat" where
  "take_generation rt \<equiv> u64_wrapping_add (generation_seq rt) 1"

definition update_registry_with_created_and_commit ::
  "(string \<Rightarrow> string option) \<Rightarrow> registry_snapshot \<Rightarrow> int \<Rightarrow> (string + unit) \<Rightarrow> runtime_state \<Rightarrow>
   (runtime_error + pool_snapshot) \<times> runtime_state" where
  "update_registry_with_created_and_commit host_of next_registry created commit rt =
     (let gen = take_generation rt; rt = rt\<lparr>generation_seq := gen\<rparr> in
      case compute_candidate_composition_with_created host_of gen (ps_members (rt_pool rt))
             next_registry (models_env rt) created of
        Inl e \<Rightarrow> (Inl (RtRegistry e), rt)
      | Inr candidate \<Rightarrow>
          (case commit of
             Inl e \<Rightarrow> (Inl (RtCommit e), rt)
           | Inr _ \<Rightarrow> (Inr candidate, rt\<lparr>base_registry := next_registry, rt_pool := candidate\<rparr>)))"

definition update_registry ::
  "(string \<Rightarrow> string option) \<Rightarrow> registry_snapshot \<Rightarrow> runtime_state \<Rightarrow>
   (runtime_error + pool_snapshot) \<times> runtime_state" where
  "update_registry host_of next_registry rt =
     update_registry_with_created_and_commit host_of next_registry (models_created_unix (rt_pool rt))
       (Inr ()) rt"

definition reload_accounts ::
  "(string \<Rightarrow> string option) \<Rightarrow> account list \<Rightarrow> runtime_state \<Rightarrow>
   (runtime_error + pool_snapshot) \<times> runtime_state" where
  "reload_accounts host_of new_members rt =
     (let gen = take_generation rt; rt = rt\<lparr>generation_seq := gen\<rparr> in
      case compute_candidate_composition_with_created host_of gen new_members (base_registry rt)
             (models_env rt) (models_created_unix (rt_pool rt)) of
        Inl e \<Rightarrow> (Inl (RtRegistry e), rt)
      | Inr candidate \<Rightarrow> (Inr candidate, rt\<lparr>rt_pool := candidate\<rparr>))"

text \<open>The action that \<open>trigger_coalesced_refresh\<close> gives to the coordinator\<close>

definition refresh_composition ::
  "(string \<Rightarrow> string option) \<Rightarrow> runtime_state \<Rightarrow> (runtime_error + nat) \<times> runtime_state" where
  "refresh_composition host_of rt =
     (let gen = take_generation rt; rt = rt\<lparr>generation_seq := gen\<rparr> in
      case compute_candidate_composition_with_created host_of gen (ps_members (rt_pool rt))
             (base_registry rt) (models_env rt) (models_created_unix (rt_pool rt)) of
        Inl e \<Rightarrow> (Inl (RtRegistry e), rt)
      | Inr candidate \<Rightarrow> (Inr gen, rt\<lparr>rt_pool := candidate\<rparr>))"

section \<open>Devin discovery\<close>

definition devin_key_of :: "(string \<Rightarrow> string) \<Rightarrow> account \<Rightarrow> devin_cache_key" where
  "devin_key_of revision a =
     devin_cache_key_new revision (ac_id a) (access_token (ac_inner a)) (effective_base_url a)"

text \<open>The half of \<open>refresh_account_models\<close> before the call samples the request sequence.\<close>

definition begin_discovery ::
  "(string \<Rightarrow> string) \<Rightarrow> account \<Rightarrow> (devin_discovery_error + (devin_cache_key \<times> nat)) \<times> account" where
  "begin_discovery revision a =
     (if ac_kind a \<noteq> Devin then (Inl (DevinInternal ''account is not a Devin account''), a)
      else
        let request_seq = u64_wrapping_add (ac_devin_discovery_seq a) 1
        in (Inr (devin_key_of revision a, request_seq), a\<lparr>ac_devin_discovery_seq := request_seq\<rparr>))"

definition finish_discovery ::
  "(string \<Rightarrow> string) \<Rightarrow> devin_cache_key \<Rightarrow> nat \<Rightarrow> (devin_discovery_error + discovered_devin_model list) \<Rightarrow>
   devin_cache option \<Rightarrow> nat \<Rightarrow> account \<Rightarrow> devin_discovery_error + devin_catalog" where
  "finish_discovery revision key request_seq fetched cache now a =
     (if ac_kind a \<noteq> Devin then Inl (DevinInternal ''not a devin account'')
      else if is_manually_disabled a \<or> devin_key_of revision a \<noteq> key then Inl DevinStalePublication
      else case fetched of
             Inr models \<Rightarrow> Inr ((devin_catalog_new_success key models now)\<lparr>dc_sequence := request_seq\<rparr>)
           | Inl err \<Rightarrow>
               (let existing = (case ac_devin_catalog a of
                                  Some c \<Rightarrow> Some c
                                | None \<Rightarrow> Option.bind cache (\<lambda>c. devin_cache_get c key))
                in case existing of
                     Some c \<Rightarrow>
                       if dc_key c = key \<and> has_succeeded c
                       then Inr ((record_transient_failure (safe_message err) now c)
                                   \<lparr>dc_sequence := request_seq\<rparr>)
                       else Inl err
                   | None \<Rightarrow> Inl err))"

text \<open>The test that rejects a publication older than the catalog it would replace\<close>

definition out_of_order :: "devin_catalog \<Rightarrow> devin_catalog \<Rightarrow> bool" where
  "out_of_order existing incoming =
     (if dc_sequence incoming > 0 \<and> dc_sequence existing > 0
      then dc_sequence incoming \<le> dc_sequence existing
      else case (last_refresh_at existing, last_refresh_at incoming) of
             (Some t, Some t') \<Rightarrow> t' < t | _ \<Rightarrow> False)"

definition publication_is_stale :: "(string \<Rightarrow> string) \<Rightarrow> string \<Rightarrow> string \<Rightarrow> devin_catalog \<Rightarrow> account \<Rightarrow> bool" where
  "publication_is_stale revision target_id target_revision catalog a \<longleftrightarrow>
     ac_kind a \<noteq> Devin \<or> is_manually_disabled a \<or>
     revision (access_token (ac_inner a)) \<noteq> target_revision \<or>
     dc_key catalog \<noteq> (devin_key_of revision a)\<lparr>key_identity_slug := target_id\<rparr> \<or>
     (case ac_devin_catalog a of
        None \<Rightarrow> False
      | Some existing \<Rightarrow> dc_key existing = dc_key catalog \<and> out_of_order existing catalog)"

definition publish_devin_member_catalog ::
  "(string \<Rightarrow> string option) \<Rightarrow> (string \<Rightarrow> string) \<Rightarrow> string \<Rightarrow> string \<Rightarrow> devin_catalog \<Rightarrow>
   runtime_state \<times> devin_cache \<Rightarrow>
   (devin_discovery_error + pool_snapshot) \<times> runtime_state \<times> devin_cache" where
  "publish_devin_member_catalog host_of revision target_id target_revision catalog rc =
     (let rt = fst rc; cache = snd rc; current = rt_pool rt in
      case find_member current target_id of
        None \<Rightarrow> (Inl DevinStalePublication, rt, cache)
      | Some a \<Rightarrow>
          if publication_is_stale revision target_id target_revision catalog a
          then (Inl DevinStalePublication, rt, cache)
          else
            let members = map (\<lambda>m. if ac_id m = target_id then clone_for_snapshot (Some catalog) m else m)
                            (ps_members current);
                gen = take_generation rt;
                rt = rt\<lparr>generation_seq := gen\<rparr>
            in case compute_candidate_composition_with_created host_of gen members (ps_registry current)
                      (models_env rt) (models_created_unix current) of
                 Inl _ \<Rightarrow> (Inl (DevinInternal ''publication coordinator failed''), rt, cache)
               | Inr candidate \<Rightarrow>
                   (Inr candidate, rt\<lparr>rt_pool := candidate\<rparr>, devin_cache_insert (dc_key catalog) catalog cache))"

end
