(* ===== verification/Runtime_Props.thy ===== *)
theory Runtime_Props
  imports Runtime_State
begin

text \<open>
  What a composition keeps of the catalog, what accounts may add to it, and what the operations of
  the runtime container guarantee to readers.
\<close>

section \<open>Contributions\<close>

definition binding_of :: "registry_snapshot \<Rightarrow> model_id \<Rightarrow> provider_id \<Rightarrow> provider_binding option" where
  "binding_of s m p = Option.bind (omap_get (rg_models s) m) (\<lambda>d. omap_get (md_bindings d) p)"

text \<open>
  A registry grows into another one: nothing of it is lost and no binding changes; what is new
  satisfies \<open>P\<close>.
\<close>

definition grows :: "(model_id \<Rightarrow> provider_binding \<Rightarrow> bool) \<Rightarrow> registry_snapshot \<Rightarrow> registry_snapshot \<Rightarrow> bool" where
  "grows P s t \<longleftrightarrow>
     rg_version t = rg_version s \<and> rg_source t = rg_source s \<and>
     rg_aliases t = rg_aliases s \<and> rg_exclusions t = rg_exclusions s \<and>
     (\<forall>p q. omap_get (rg_providers s) p = Some q \<longrightarrow> omap_get (rg_providers t) p = Some q) \<and>
     (\<forall>m. omap_contains (rg_models s) m \<longrightarrow> omap_contains (rg_models t) m) \<and>
     (\<forall>m p b. binding_of s m p = Some b \<longrightarrow> binding_of t m p = Some b) \<and>
     (\<forall>m p b. binding_of t m p = Some b \<longrightarrow> binding_of s m p = Some b \<or> P m b)"

lemma grows_refl [simp]: "grows P s s"
  by (simp add: grows_def)

lemma grows_trans: "grows P s t \<Longrightarrow> grows P t u \<Longrightarrow> grows P s u"
  unfolding grows_def by (elim conjE, intro conjI) (simp, simp, simp, simp, blast+)

lemma grows_mono: "grows P s t \<Longrightarrow> (\<And>m b. P m b \<Longrightarrow> Q m b) \<Longrightarrow> grows Q s t"
  unfolding grows_def by blast

lemma ensure_provider_grows [simp]: "grows P s (ensure_provider p s)"
  by (auto simp: grows_def ensure_provider_def binding_of_def omap_contains_def)

lemma contribute_binding_grows:
  assumes "P m b" and "md_bindings fresh = []"
  shows "grows P s (contribute_binding m fresh b s)"
  using assms
  by (auto simp: grows_def contribute_binding_def binding_of_def Let_def omap_contains_def bind_eq_Some_conv
      split: option.splits if_splits)

lemma try_fold_grows:
  assumes "try_fold f s xs = Inr t"
    and step: "\<And>u x v. x \<in> set xs \<Longrightarrow> grows P s u \<Longrightarrow> f u x = Inr v \<Longrightarrow> grows P u v"
  shows "grows P s t"
  by (rule try_fold_invariant[OF assms(1), where P = "grows P s"])
    (auto intro: grows_trans step)

lemma foldl_grows:
  assumes "\<And>u x. x \<in> set xs \<Longrightarrow> grows P u (f u x)"
  shows "grows P s (foldl f s xs)"
  using assms by (induction xs arbitrary: s) (auto intro: grows_trans)

text \<open>What an account may add: a binding that is its own.\<close>

definition generic_adds :: "registry_snapshot \<Rightarrow> account \<Rightarrow> model_id \<Rightarrow> provider_binding \<Rightarrow> bool" where
  "generic_adds reg a m b \<longleftrightarrow>
     (\<exists>name models. account_generic_models (ac_inner a) = Some (name, models) \<and>
        provider_id_canonical name = Inr (pb_provider_id b) \<and>
        omap_get (rg_providers reg) (pb_provider_id b) \<noteq> Some PolicyClosed \<and>
        mid_str m \<in> set models)"

definition devin_adds :: "account \<Rightarrow> model_id \<Rightarrow> provider_binding \<Rightarrow> bool" where
  "devin_adds a m b \<longleftrightarrow>
     ac_kind a = Devin \<and> \<not> is_manually_disabled a \<and> pb_provider_id b = pid_devin \<and>
     (\<exists>models d. devin_discovered_models a = Some models \<and> d \<in> set models \<and>
        mid_str m = public_id d \<and> pb_upstream_model_id b = Some (model_uid d))"

definition antigravity_adds :: "account \<Rightarrow> model_id \<Rightarrow> provider_binding \<Rightarrow> bool" where
  "antigravity_adds a m b \<longleftrightarrow>
     ac_kind a = Antigravity \<and> \<not> is_manually_disabled a \<and> pb_provider_id b = pid_antigravity \<and>
     \<not> is_conversation_id (mid_str m) \<and>
     (\<exists>models v. antigravity_discovered_models a = Some models \<and> (mid_str m, v) \<in> set models \<and>
        ma_available v \<noteq> Some False)"

definition account_adds :: "registry_snapshot \<Rightarrow> account list \<Rightarrow> model_id \<Rightarrow> provider_binding \<Rightarrow> bool" where
  "account_adds reg members m b \<longleftrightarrow>
     pb_policy b = PolicyDiscovered \<and> pb_source b = Discovered \<and>
     (\<exists>a \<in> set members. generic_adds reg a m b \<or> devin_adds a m b \<or> antigravity_adds a m b)"

lemma model_id_new_str: "model_id_new x = Inr m \<Longrightarrow> mid_str m = x"
  by (auto simp: model_id_new_def Let_def trim_id split: if_splits)

lemmas binding_builders = provider_binding_new_def pb_with_capabilities_def pb_with_priority_def
  pb_with_upstream_id_def md_with_capabilities_def model_descriptor_new_def

lemma generic_contribution_grows:
  assumes "generic_contribution u a = Inr v" and "a \<in> set members" and gu: "grows (account_adds reg members) reg u"
  shows "grows (account_adds reg members) u v"
proof -
  consider "v = u" | name models p where "account_generic_models (ac_inner a) = Some (name, models)"
      "provider_id_canonical name = Inr p" "omap_get (rg_providers u) p \<noteq> Some PolicyClosed"
      "try_fold (\<lambda>s model. rbind (model_id_new model) (\<lambda>m. Inr (contribute_binding m
          (model_descriptor_new m (pid_str p)) (provider_binding_new p PolicyDiscovered Discovered) s)))
        (ensure_provider p u) models = Inr v"
    using assms(1) unfolding generic_contribution_def by (auto split: option.splits if_splits)
  then show ?thesis
  proof cases
    case 2
    have closed: "omap_get (rg_providers reg) p \<noteq> Some PolicyClosed" using gu 2(3) unfolding grows_def by blast
    have "grows (account_adds reg members) (ensure_provider p u) v"
    proof (rule try_fold_grows[OF 2(4)])
      fix w x t
      assume x: "x \<in> set models" and "rbind (model_id_new x) (\<lambda>m. Inr (contribute_binding m
        (model_descriptor_new m (pid_str p)) (provider_binding_new p PolicyDiscovered Discovered) w)) = Inr t"
      then obtain m where m: "model_id_new x = Inr m" and t: "t = contribute_binding m
        (model_descriptor_new m (pid_str p)) (provider_binding_new p PolicyDiscovered Discovered) w" by auto
      have "account_adds reg members m (provider_binding_new p PolicyDiscovered Discovered)"
        using assms(2) 2 x closed model_id_new_str[OF m]
        by (auto simp: account_adds_def generic_adds_def binding_builders)
      then show "grows (account_adds reg members) w t"
        unfolding t by (rule contribute_binding_grows) (simp add: binding_builders)
    qed
    then show ?thesis by (rule grows_trans[OF ensure_provider_grows])
  qed simp
qed

lemma devin_contribution_grows:
  assumes "devin_contribution u a = Inr v" and "a \<in> set members"
  shows "grows (account_adds reg members) u v"
proof -
  let ?b = "\<lambda>d. pb_with_capabilities {Chat, Tools} (pb_with_upstream_id (model_uid d)
    (provider_binding_new pid_devin PolicyDiscovered Discovered))"
  let ?d = "\<lambda>m. md_with_capabilities {Chat, Tools} (model_descriptor_new m ''devin'')"
  show ?thesis
  proof (cases "ac_kind a = Devin \<and> \<not> is_manually_disabled a \<and>
      devin_discovered_models a \<noteq> None \<and> devin_discovered_models a \<noteq> Some []")
    case True
    then obtain models where models: "devin_discovered_models a = Some models" by blast
    from True assms(1) have 2: "ac_kind a = Devin" "\<not> is_manually_disabled a"
      "devin_discovered_models a = Some models"
      "try_fold devin_model_contribution (ensure_provider pid_devin u) models = Inr v"
      by (simp_all add: devin_contribution_def models)
    have "grows (account_adds reg members) (ensure_provider pid_devin u) v"
    proof (rule try_fold_grows[OF 2(4)])
      fix w x t
      assume x: "x \<in> set models" and "devin_model_contribution w x = Inr t"
      then obtain m where m: "model_id_new (public_id x) = Inr m"
        and t: "t = contribute_binding m (?d m) (?b x) w" by (auto simp: devin_model_contribution_def)
      have "account_adds reg members m (?b x)"
        using assms(2) 2 x model_id_new_str[OF m]
        by (auto simp: account_adds_def devin_adds_def binding_builders)
      then show "grows (account_adds reg members) w t"
        unfolding t by (rule contribute_binding_grows) (simp add: binding_builders)
    qed
    then show ?thesis by (rule grows_trans[OF ensure_provider_grows])
  next
    case False
    with assms(1) have "v = u"
      by (auto simp: devin_contribution_def split: if_split_asm option.split_asm)
    then show ?thesis by simp
  qed
qed

lemma antigravity_contribution_grows:
  assumes "a \<in> set members"
  shows "grows (account_adds reg members) u (antigravity_contribution u a)"
proof (cases "ac_kind a = Antigravity \<and> \<not> is_manually_disabled a")
  case True
  show ?thesis
  proof (cases "antigravity_discovered_models a")
    case (Some models)
    have "grows (account_adds reg members) w (antigravity_model_contribution w x)" if "x \<in> set models" for w x
    proof (cases "ma_available (snd x) = Some False \<or> is_conversation_id (fst x)")
      case False
      show ?thesis
      proof (cases "model_id_new (fst x)")
        case (Inr m)
        let ?b = "pb_with_priority 100 (pb_with_capabilities {Chat, Tools}
          (provider_binding_new pid_antigravity PolicyDiscovered Discovered))"
        from that model_id_new_str[OF Inr] have "(mid_str m, snd x) \<in> set models" by (metis prod.collapse)
        with True Some False model_id_new_str[OF Inr] have "antigravity_adds a m ?b"
          by (auto simp: antigravity_adds_def binding_builders intro!: exI[of _ "snd x"])
        with assms have "account_adds reg members m ?b"
          by (auto simp: account_adds_def binding_builders)
        then have "grows (account_adds reg members) w (contribute_binding m
          (md_with_capabilities {Chat, Tools} (model_descriptor_new m ''google'')) ?b w)"
          by (rule contribute_binding_grows) (simp add: binding_builders)
        with False Inr show ?thesis
          by (auto simp: antigravity_model_contribution_def split: option.splits)
      qed (auto simp: antigravity_model_contribution_def)
    qed (auto simp: antigravity_model_contribution_def)
    then have "grows (account_adds reg members) (ensure_provider pid_antigravity u)
      (foldl antigravity_model_contribution (ensure_provider pid_antigravity u) models)"
      by (rule foldl_grows)
    with True Some show ?thesis
      by (auto simp: antigravity_contribution_def intro: grows_trans[OF ensure_provider_grows])
  qed (simp add: antigravity_contribution_def)
qed (auto simp: antigravity_contribution_def)

lemma omap_get_map_filter:
  "distinct (map fst xs) \<Longrightarrow>
   omap_get (List.map_filter (\<lambda>(k, v). map_option (Pair k) (f v)) xs) k = Option.bind (omap_get xs k) f"
proof (induction xs)
  case (Cons x xs)
  obtain k' v where x: "x = (k', v)" by fastforce
  with Cons have IH: "omap_get (List.map_filter (\<lambda>(k, v). map_option (Pair k) (f v)) xs) k =
      Option.bind (omap_get xs k) f"
    and none: "omap_get xs k' = None" by (simp_all add: map_of_eq_None_iff)
  show ?case
    using IH none by (cases "f v") (auto simp: x map_filter_simps)
qed (simp add: map_filter_simps)

lemma strip_binding:
  "Option.bind (strip_descriptor d) (\<lambda>d. omap_get (md_bindings d) p) =
     (case omap_get (md_bindings d) p of
        None \<Rightarrow> None
      | Some b \<Rightarrow> if p = pid_antigravity \<and> pb_source b = Discovered then None else Some b)"
proof -
  have empty: "omap_remove q bs = [] \<Longrightarrow> p \<noteq> q \<Longrightarrow> omap_get bs p = None"
    for q and bs :: "(provider_id, provider_binding) omap"
    using fun_cong[OF omap_get_remove[of q bs], of p] by simp
  show ?thesis
    using empty[of pid_antigravity "md_bindings d"]
    by (auto simp: strip_descriptor_def Let_def split: option.splits)
qed

lemma strip_discovered_binding:
  assumes "omap_ok (rg_models s)"
  shows "binding_of (s\<lparr>rg_models := strip_discovered (rg_models s)\<rparr>) m p =
    (case binding_of s m p of
       None \<Rightarrow> None
     | Some b \<Rightarrow> if p = pid_antigravity \<and> pb_source b = Discovered then None else Some b)"
  using omap_ok_distinct[OF assms]
  by (cases "omap_get (rg_models s) m")
    (simp_all add: binding_of_def strip_discovered_def omap_get_map_filter strip_binding)

definition env_adds :: "account list \<Rightarrow> string option \<Rightarrow> model_id \<Rightarrow> provider_binding \<Rightarrow> bool" where
  "env_adds members env m b \<longleftrightarrow>
     env \<noteq> None \<and> list_ex (\<lambda>a. ac_kind a = Codex \<and> \<not> is_manually_disabled a) members \<and>
     mid_str m \<in> set (model_ids_from_env env) \<and> pb_provider_id b = pid_codex \<and> pb_policy b = PolicyOpen"

lemma env_contribution_grows:
  assumes "env_contribution members env s = Inr t"
  shows "grows (env_adds members env) s t"
proof -
  let ?b = "pb_with_capabilities {Chat} (provider_binding_new pid_codex PolicyOpen LocalOverride)"
  consider "t = s" | raw where "env = Some raw"
      "list_ex (\<lambda>a. ac_kind a = Codex \<and> \<not> is_manually_disabled a) members"
      "try_fold (\<lambda>s i. rbind (model_id_new i) (\<lambda>m.
        Inr (contribute_binding m (model_descriptor_new m ''openai'') ?b s))) s (model_ids_from_env env) = Inr t"
    using assms unfolding env_contribution_def by (cases env) (auto split: if_splits)
  then show ?thesis
  proof cases
    case 2
    show ?thesis
    proof (rule try_fold_grows[OF 2(3)])
      fix w x v
      assume x: "x \<in> set (model_ids_from_env env)" and "rbind (model_id_new x) (\<lambda>m.
        Inr (contribute_binding m (model_descriptor_new m ''openai'') ?b w)) = Inr v"
      then obtain m where m: "model_id_new x = Inr m"
        and v: "v = contribute_binding m (model_descriptor_new m ''openai'') ?b w" by auto
      have "env_adds members env m ?b"
        using 2 x model_id_new_str[OF m] by (simp add: env_adds_def binding_builders)
      then show "grows (env_adds members env) w v"
        unfolding v by (rule contribute_binding_grows) (simp add: binding_builders)
    qed
  qed simp
qed

lemma registry_contributions_grow:
  assumes "registry_with_account_contributions members reg = Inr s"
  shows "grows (account_adds (reg\<lparr>rg_models := strip_discovered (rg_models reg)\<rparr>) members)
           (reg\<lparr>rg_models := strip_discovered (rg_models reg)\<rparr>) s"
proof -
  let ?r = "reg\<lparr>rg_models := strip_discovered (rg_models reg)\<rparr>"
  from assms obtain u v where u: "try_fold generic_contribution ?r members = Inr u"
    and v: "try_fold devin_contribution u members = Inr v"
    and s: "s = foldl antigravity_contribution v members"
    unfolding registry_with_account_contributions_def by (auto simp: Let_def)
  have "grows (account_adds ?r members) ?r u"
    by (rule try_fold_grows[OF u]) (rule generic_contribution_grows)
  moreover have "grows (account_adds ?r members) u v"
    by (rule try_fold_grows[OF v]) (rule devin_contribution_grows)
  moreover have "grows (account_adds ?r members) v s"
    unfolding s by (rule foldl_grows) (rule antigravity_contribution_grows)
  ultimately show ?thesis by (blast intro: grows_trans)
qed

section \<open>Compositions\<close>

text \<open>Prefixed names are added as aliases; no existing rule changes.\<close>

lemma add_prefix_aliases:
  "rg_models (foldl add_prefix_alias s ps) = rg_models s \<and>
   rg_exclusions (foldl add_prefix_alias s ps) = rg_exclusions s \<and>
   rg_providers (foldl add_prefix_alias s ps) = rg_providers s \<and>
   (\<forall>k r. omap_get (rg_aliases s) k = Some r \<longrightarrow> omap_get (rg_aliases (foldl add_prefix_alias s ps)) k = Some r)"
proof (induction ps arbitrary: s)
  case (Cons p ps)
  have step: "rg_models (add_prefix_alias s p) = rg_models s \<and>
      rg_exclusions (add_prefix_alias s p) = rg_exclusions s \<and>
      rg_providers (add_prefix_alias s p) = rg_providers s \<and>
      (\<forall>k r. omap_get (rg_aliases s) k = Some r \<longrightarrow> omap_get (rg_aliases (add_prefix_alias s p)) k = Some r)"
    by (auto simp: add_prefix_alias_def omap_contains_def split: sum.splits)
  show ?case unfolding foldl_Cons using step Cons.IH[of "add_prefix_alias s p"] by simp
qed simp

lemma composition_parts:
  assumes "compute_candidate_composition_with_created host_of gen members reg env created = Inr pool"
  obtains s t where "registry_with_account_contributions members reg = Inr s"
    "env_contribution members env s = Inr t"
    "ps_registry pool = foldl add_prefix_alias t
       (prefixed_model_aliases host_of (project_model_entries t members) members t)"
    "registry_validate (ps_registry pool) = Inr ()"
    "ps_models pool = expand_prefixed_models host_of (project_model_entries (ps_registry pool) members)
       members (ps_registry pool)"
    "pool = pool_new_with_created gen members (ps_models pool) (ps_registry pool) created"
  using assms unfolding compute_candidate_composition_with_created_def
  by (auto simp: Let_def pool_new_with_created_def)

lemma composition_binding:
  assumes "compute_candidate_composition_with_created host_of gen members reg env created = Inr pool"
  defines "r \<equiv> reg\<lparr>rg_models := strip_discovered (rg_models reg)\<rparr>"
  shows "binding_of r m p = Some b \<Longrightarrow> binding_of (ps_registry pool) m p = Some b"
    and "binding_of (ps_registry pool) m p = Some b \<Longrightarrow>
      binding_of r m p = Some b \<or> account_adds r members m b \<or> env_adds members env m b"
    and "rg_exclusions (ps_registry pool) = rg_exclusions reg"
proof -
  from assms(1) obtain s t where s: "registry_with_account_contributions members reg = Inr s"
    and t: "env_contribution members env s = Inr t"
    and pool: "ps_registry pool = foldl add_prefix_alias t
       (prefixed_model_aliases host_of (project_model_entries t members) members t)"
    by (rule composition_parts)
  note s = registry_contributions_grow[OF s, folded r_def] and t = env_contribution_grows[OF t]
  have same: "binding_of (ps_registry pool) m p = binding_of t m p"
    unfolding binding_of_def pool by (simp add: add_prefix_aliases)
  show "binding_of r m p = Some b \<Longrightarrow> binding_of (ps_registry pool) m p = Some b"
    using s t unfolding same grows_def by blast
  show "binding_of (ps_registry pool) m p = Some b \<Longrightarrow>
      binding_of r m p = Some b \<or> account_adds r members m b \<or> env_adds members env m b"
    using s t unfolding same grows_def by blast
  show "rg_exclusions (ps_registry pool) = rg_exclusions reg"
    using s t unfolding grows_def pool by (simp add: add_prefix_aliases r_def)
qed

lemma account_adds_providers:
  "account_adds (reg\<lparr>rg_models := ms\<rparr>) members m b = account_adds reg members m b"
  by (simp add: account_adds_def generic_adds_def)

text \<open>
  C12. Composing the runtime registry keeps the catalog: the result is valid, its exclusions are
  those of the catalog, every catalogued binding is kept as it is (the discovered bindings of
  Antigravity apart, which are recomputed), and a binding that is new has an owner. It belongs to
  a loaded account whose own model list or discovery names the model, and never to a provider that
  the catalog closes unless that is Devin or Antigravity, or it is a Codex model named in the
  environment while a Codex account is enabled.
\<close>

theorem composition_keeps_catalog:
  assumes "omap_ok (rg_models reg)"
    and "compute_candidate_composition_with_created host_of gen members reg env created = Inr pool"
  shows "registry_validate (ps_registry pool) = Inr () \<and>
    rg_exclusions (ps_registry pool) = rg_exclusions reg \<and>
    (\<forall>m p b. binding_of reg m p = Some b \<and> \<not> (p = pid_antigravity \<and> pb_source b = Discovered) \<longrightarrow>
       binding_of (ps_registry pool) m p = Some b) \<and>
    (\<forall>m p b. binding_of (ps_registry pool) m p = Some b \<longrightarrow>
       binding_of reg m p = Some b \<or> account_adds reg members m b \<or> env_adds members env m b)"
proof (intro conjI allI impI)
  show "registry_validate (ps_registry pool) = Inr ()" by (rule composition_parts[OF assms(2)])
  show "rg_exclusions (ps_registry pool) = rg_exclusions reg" by (rule composition_binding(3)[OF assms(2)])
next
  fix m p b
  assume "binding_of reg m p = Some b \<and> \<not> (p = pid_antigravity \<and> pb_source b = Discovered)"
  then have "binding_of (reg\<lparr>rg_models := strip_discovered (rg_models reg)\<rparr>) m p = Some b"
    unfolding strip_discovered_binding[OF assms(1)] by (elim conjE, simp)
  then show "binding_of (ps_registry pool) m p = Some b" by (rule composition_binding(1)[OF assms(2)])
next
  fix m p b
  assume "binding_of (ps_registry pool) m p = Some b"
  from composition_binding(2)[OF assms(2) this]
  show "binding_of reg m p = Some b \<or> account_adds reg members m b \<or> env_adds members env m b"
    unfolding strip_discovered_binding[OF assms(1)] account_adds_providers
    by (auto split: option.splits if_splits)
qed

section \<open>Advertised models\<close>

lemma set_map_filter: "set (List.map_filter f xs) = {y. \<exists>x \<in> set xs. f x = Some y}"
  by (force simp: map_filter_def)

lemma project_model_entriesE:
  assumes "e \<in> set (project_model_entries s members)"
  obtains m d resolved b a where "(m, d) \<in> set (rg_models s)" "me_id e = mid_str m"
    "registry_resolve s (mid_str m) = Inr resolved" "b \<in> set (eligible_bindings resolved)"
    "a \<in> set members" "\<not> is_manually_disabled a"
    "member_matches_provider_binding a (pb_provider_id b) b (canonical_id resolved)"
proof -
  let ?active = "filter (\<lambda>a. \<not> is_manually_disabled a) members"
  from assms obtain m d where md: "(m, d) \<in> set (rg_models s)"
    and e: "(case registry_resolve s (mid_str m) of Inl _ \<Rightarrow> None
             | Inr resolved \<Rightarrow> if can_serve ?active resolved
                 then Some \<lparr>me_id = mid_str m, me_owned_by = entry_owner d\<rparr> else None) = Some e"
    unfolding project_model_entries_def Let_def by (auto simp: set_map_filter split: if_splits)
  from e obtain resolved where r: "registry_resolve s (mid_str m) = Inr resolved"
    and serve: "can_serve ?active resolved" and i: "me_id e = mid_str m"
    by (auto split: sum.splits if_splits)
  from serve obtain b a where "b \<in> set (eligible_bindings resolved)" "a \<in> set ?active"
    "member_matches_provider_binding a (pb_provider_id b) b (canonical_id resolved)"
    unfolding can_serve_def list_ex_iff by blast
  with md r i show ?thesis by (intro that[of m d resolved b a]) auto
qed

lemma prefixed_model_aliases_entry:
  "(i, target, owner) \<in> set (prefixed_model_aliases host_of entries members s) \<Longrightarrow>
   \<exists>e \<in> set entries. me_id e = target \<and> model_bound_to_provider s target pid_claude \<and>
     i \<in> {''anthropic/'' @ target, ''anthropic-'' @ target, ''nekos/'' @ target, ''nekos-'' @ target}"
  by (auto simp: prefixed_model_aliases_def Let_def split: if_splits)

section \<open>Publication\<close>

datatype runtime_op =
    PublishCandidate pool_snapshot
  | UpdateRegistry registry_snapshot int "string + unit"
  | ReloadAccounts "account list"
  | RefreshComposition
  | PublishDevin string string devin_catalog

fun runtime_step ::
  "(string \<Rightarrow> string option) \<Rightarrow> (string \<Rightarrow> string) \<Rightarrow> runtime_state \<times> devin_cache \<Rightarrow> runtime_op \<Rightarrow>
   runtime_state \<times> devin_cache" where
  "runtime_step host_of revision (rt, c) (PublishCandidate candidate) = (snd (publish_candidate candidate rt), c)"
| "runtime_step host_of revision (rt, c) (UpdateRegistry reg created commit) =
     (snd (update_registry_with_created_and_commit host_of reg created commit rt), c)"
| "runtime_step host_of revision (rt, c) (ReloadAccounts members) =
     (snd (reload_accounts host_of members rt), c)"
| "runtime_step host_of revision (rt, c) RefreshComposition = (snd (refresh_composition host_of rt), c)"
| "runtime_step host_of revision (rt, c) (PublishDevin i target catalog) =
     snd (publish_devin_member_catalog host_of revision i target catalog (rt, c))"

lemma composition_generation:
  "compute_candidate_composition_with_created host_of gen members reg env created = Inr pool \<Longrightarrow>
   ps_generation pool = gen \<and> ps_members pool = members"
  by (erule composition_parts) (metis pool_new_with_created_def pool_snapshot.select_convs(1,3))

text \<open>
  \<open>publish_candidate\<close> takes the generation of the candidate as it is, and a 64-bit sequence may
  wrap. A run is sequenced when neither matters: every candidate handed to \<open>publish_candidate\<close> has a
  generation above the sequence at that moment, and the sequence is below its maximum whenever an
  operation starts.
\<close>

definition sequenced_op :: "runtime_state \<Rightarrow> runtime_op \<Rightarrow> bool" where
  "sequenced_op rt op \<longleftrightarrow>
     generation_seq rt < u64_max \<and>
     (case op of PublishCandidate candidate \<Rightarrow> generation_seq rt < ps_generation candidate | _ \<Rightarrow> True)"

fun sequenced ::
  "(string \<Rightarrow> string option) \<Rightarrow> (string \<Rightarrow> string) \<Rightarrow> runtime_state \<times> devin_cache \<Rightarrow> runtime_op list \<Rightarrow> bool" where
  "sequenced host_of revision s [] = True"
| "sequenced host_of revision s (op # ops) =
     (sequenced_op (fst s) op \<and> sequenced host_of revision (runtime_step host_of revision s op) ops)"

lemma sequenced_append:
  "sequenced host_of revision s (xs @ ys) \<longleftrightarrow>
     sequenced host_of revision s xs \<and> sequenced host_of revision (foldl (runtime_step host_of revision) s xs) ys"
  by (induction xs arbitrary: s) auto

text \<open>What one operation does to the published pool and the sequence\<close>

lemma runtime_step_cases:
  fixes host_of revision rt c op
  assumes "sequenced_op rt op"
  defines "rt' \<equiv> fst (runtime_step host_of revision (rt, c) op)"
  shows "(rt_pool rt' = rt_pool rt \<and> generation_seq rt \<le> generation_seq rt') \<or>
     (ps_generation (rt_pool rt') = generation_seq rt' \<and> generation_seq rt < generation_seq rt')"
proof -
  have g: "u64_wrapping_add (generation_seq rt) (Suc 0) = Suc (generation_seq rt)"
    using assms(1) by (simp add: u64_wrapping_add_exact sequenced_op_def)
  show ?thesis
  proof (cases op)
    case (PublishCandidate candidate)
    then show ?thesis
      using assms(1) by (auto simp: rt'_def publish_candidate_def sequenced_op_def split: sum.splits)
  next
    case (UpdateRegistry reg created commit)
    then show ?thesis
      by (auto simp: rt'_def update_registry_with_created_and_commit_def Let_def g
          dest: composition_generation split: sum.splits)
  next
    case (ReloadAccounts members)
    then show ?thesis
      by (auto simp: rt'_def reload_accounts_def Let_def g dest: composition_generation split: sum.splits)
  next
    case RefreshComposition
    then show ?thesis
      by (auto simp: rt'_def refresh_composition_def Let_def g dest: composition_generation split: sum.splits)
  next
    case (PublishDevin i target catalog)
    then show ?thesis
      by (auto simp: rt'_def publish_devin_member_catalog_def Let_def g dest: composition_generation
          split: sum.splits option.splits)
  qed
qed

lemma runtime_run_generations:
  assumes "foldl (runtime_step host_of revision) (rt, c) ops = (rt', c')"
    and "sequenced host_of revision (rt, c) ops" "ps_generation (rt_pool rt) \<le> generation_seq rt"
  shows "ps_generation (rt_pool rt) \<le> ps_generation (rt_pool rt') \<and>
    ps_generation (rt_pool rt') \<le> generation_seq rt' \<and>
    (ps_generation (rt_pool rt) = ps_generation (rt_pool rt') \<longrightarrow> rt_pool rt = rt_pool rt')"
  using assms
proof (induction ops arbitrary: rt c)
  case (Cons op ops)
  obtain rt1 c1 where s: "runtime_step host_of revision (rt, c) op = (rt1, c1)" by fastforce
  from Cons.prems(2) have op: "sequenced_op rt op" and rest: "sequenced host_of revision (rt1, c1) ops"
    by (simp_all add: s)
  from runtime_step_cases[OF op, of host_of revision c] s
  have step: "(rt_pool rt1 = rt_pool rt \<and> generation_seq rt \<le> generation_seq rt1) \<or>
     (ps_generation (rt_pool rt1) = generation_seq rt1 \<and> generation_seq rt < generation_seq rt1)" by simp
  then have "ps_generation (rt_pool rt1) \<le> generation_seq rt1" using Cons.prems(3) by auto
  moreover have "foldl (runtime_step host_of revision) (rt1, c1) ops = (rt', c')"
    using Cons.prems(1) by (simp add: s)
  ultimately have IH: "ps_generation (rt_pool rt1) \<le> ps_generation (rt_pool rt')"
    "ps_generation (rt_pool rt') \<le> generation_seq rt'"
    "ps_generation (rt_pool rt1) = ps_generation (rt_pool rt') \<longrightarrow> rt_pool rt1 = rt_pool rt'"
    using Cons.IH[OF _ rest] by blast+
  from step show ?case
  proof
    assume "rt_pool rt1 = rt_pool rt \<and> generation_seq rt \<le> generation_seq rt1"
    with IH show ?thesis by auto
  next
    assume "ps_generation (rt_pool rt1) = generation_seq rt1 \<and> generation_seq rt < generation_seq rt1"
    with IH(1-2) Cons.prems(3) show ?thesis by simp
  qed
qed simp

text \<open>
  C13. The generation identifies the published composition: along every sequenced run of
  candidate publications, registry updates, account reloads, refreshes and Devin publications the
  generation never decreases, and two states of the run with the same generation hold the same
  composition. Sequenced means that a candidate handed to \<open>publish_candidate\<close> carries a generation
  above the sequence and that the 64-bit sequence does not wrap.
\<close>

theorem generation_identifies_composition:
  fixes host_of revision initial env c before after
  assumes "sequenced host_of revision (runtime_new initial env, c) (before @ after)"
  defines "early \<equiv> fst (foldl (runtime_step host_of revision) (runtime_new initial env, c) before)"
    and "late \<equiv> fst (foldl (runtime_step host_of revision) (runtime_new initial env, c) (before @ after))"
  shows "ps_generation (rt_pool early) \<le> ps_generation (rt_pool late) \<and>
    (ps_generation (rt_pool early) = ps_generation (rt_pool late) \<longrightarrow> rt_pool early = rt_pool late)"
proof -
  obtain c' where e: "foldl (runtime_step host_of revision) (runtime_new initial env, c) before = (early, c')"
    unfolding early_def by (metis prod.collapse)
  from assms(1) e have s: "sequenced host_of revision (runtime_new initial env, c) before"
    "sequenced host_of revision (early, c') after" by (simp_all add: sequenced_append)
  have bound: "ps_generation (rt_pool early) \<le> generation_seq early"
    using runtime_run_generations[OF e s(1)] by (simp add: runtime_new_def)
  obtain c'' where "foldl (runtime_step host_of revision) (early, c') after = (late, c'')"
    unfolding late_def foldl_append e by (metis prod.collapse)
  from runtime_run_generations[OF this s(2) bound] show ?thesis by blast
qed

text \<open>
  Without that condition the generation can go back: \<open>publish_candidate\<close> stores a valid candidate
  of any generation, and the sequence continues from there.
\<close>

lemma stale_candidate_is_published:
  assumes "registry_validate (ps_registry candidate) = Inr ()"
  shows "rt_pool (snd (publish_candidate candidate rt)) = candidate \<and>
    generation_seq (snd (publish_candidate candidate rt)) = ps_generation candidate"
  using assms by (simp add: publish_candidate_def)

text \<open>A run without candidate publications is sequenced as long as it is shorter than the sequence.\<close>

lemma sequence_grows_by_one:
  assumes "generation_seq rt < u64_max" "\<forall>candidate. op \<noteq> PublishCandidate candidate"
  shows "generation_seq (fst (runtime_step host_of revision (rt, c) op)) \<le> Suc (generation_seq rt)"
proof -
  have g: "u64_wrapping_add (generation_seq rt) (Suc 0) = Suc (generation_seq rt)"
    using assms(1) by (simp add: u64_wrapping_add_exact)
  show ?thesis
    using assms(2)
    by (cases op) (auto simp: g update_registry_with_created_and_commit_def reload_accounts_def
        refresh_composition_def publish_devin_member_catalog_def Let_def split: sum.splits option.splits)
qed

lemma sequenced_without_candidates:
  assumes "generation_seq (fst s) + length ops \<le> u64_max" "\<forall>candidate. PublishCandidate candidate \<notin> set ops"
  shows "sequenced host_of revision s ops"
  using assms
proof (induction ops arbitrary: s)
  case (Cons op ops)
  obtain rt c where s: "s = (rt, c)" by fastforce
  have lt: "generation_seq rt < u64_max" and no: "\<forall>candidate. op \<noteq> PublishCandidate candidate"
    using Cons.prems by (auto simp: s)
  then have "sequenced_op rt op" by (simp add: sequenced_op_def split: runtime_op.splits)
  moreover have "generation_seq (fst (runtime_step host_of revision (rt, c) op)) + length ops \<le> u64_max"
    using sequence_grows_by_one[OF lt no, of host_of revision c] Cons.prems(1) by (simp add: s)
  ultimately show ?case using Cons.IH Cons.prems(2) by (simp add: s)
qed simp

text \<open>A failed operation leaves the published composition and the base registry as they were.\<close>

lemma failed_operations_publish_nothing:
  "fst (reload_accounts host_of members rt) = Inl e \<Longrightarrow>
     rt_pool (snd (reload_accounts host_of members rt)) = rt_pool rt \<and>
     base_registry (snd (reload_accounts host_of members rt)) = base_registry rt"
  "fst (update_registry_with_created_and_commit host_of reg created commit rt) = Inl e \<Longrightarrow>
     rt_pool (snd (update_registry_with_created_and_commit host_of reg created commit rt)) = rt_pool rt \<and>
     base_registry (snd (update_registry_with_created_and_commit host_of reg created commit rt)) = base_registry rt"
  by (auto simp: reload_accounts_def update_registry_with_created_and_commit_def Let_def split: sum.splits)

section \<open>Devin discovery\<close>

lemma publish_devin_Inr:
  assumes "publish_devin_member_catalog host_of revision i target catalog (rt, c) = (Inr pool, rt', c')"
  shows "rt_pool rt' = pool" "\<exists>a. find_member (rt_pool rt) i = Some a \<and>
      \<not> publication_is_stale revision i target catalog a"
    "ps_members pool = map (\<lambda>m. if ac_id m = i then clone_for_snapshot (Some catalog) m else m)
       (ps_members (rt_pool rt))"
  using assms
  by (auto simp: publish_devin_member_catalog_def Let_def dest: composition_generation
      split: option.splits if_splits sum.splits)

lemma find_member_clone:
  "find_member p i = Some a \<Longrightarrow>
   ps_members q = map (\<lambda>m. if ac_id m = i then clone_for_snapshot (Some catalog) m else m) (ps_members p) \<Longrightarrow>
   find_member q i = Some (clone_for_snapshot (Some catalog) a)"
proof -
  have "find (\<lambda>a. ac_id a = i) xs = Some a \<Longrightarrow>
    find (\<lambda>a. ac_id a = i) (map (\<lambda>m. if ac_id m = i then clone_for_snapshot (Some catalog) m else m) xs) =
      Some (clone_for_snapshot (Some catalog) a)" for xs
    by (induction xs) (auto simp: clone_for_snapshot_def split: if_splits)
  then show "find_member p i = Some a \<Longrightarrow>
   ps_members q = map (\<lambda>m. if ac_id m = i then clone_for_snapshot (Some catalog) m else m) (ps_members p) \<Longrightarrow>
   find_member q i = Some (clone_for_snapshot (Some catalog) a)"
    by (simp add: find_member_def)
qed

text \<open>
  C14. A discovery that was overtaken is not published: when the catalog of a later request has been
  published for an account, the catalog of an earlier request with the same credentials is
  rejected, whatever the order in which the upstream calls return, and the rejection changes
  neither the published composition, nor the sequence, nor the cache.
\<close>

theorem overtaken_discovery_rejected:
  assumes "publish_devin_member_catalog host_of revision i target newer (rt, c) = (Inr pool, rt', c')"
    and "dc_key older = dc_key newer" and "0 < dc_sequence older" "dc_sequence older \<le> dc_sequence newer"
  shows "publish_devin_member_catalog host_of revision i target' older (rt', c') =
    (Inl DevinStalePublication, rt', c')"
proof -
  note p = publish_devin_Inr[OF assms(1)]
  from p(2) obtain a where a: "find_member (rt_pool rt) i = Some a" by blast
  from find_member_clone[OF a p(3)] p(1)
  have f: "find_member (rt_pool rt') i = Some (clone_for_snapshot (Some newer) a)" by simp
  have "publication_is_stale revision i target' older (clone_for_snapshot (Some newer) a)"
    using assms(2-4) by (simp add: publication_is_stale_def clone_for_snapshot_def out_of_order_def)
  then show ?thesis by (simp add: publish_devin_member_catalog_def f)
qed

lemma begin_discovery_times:
  assumes "ac_kind m = Devin" "ac_devin_discovery_seq m + k \<le> u64_max"
  shows "((snd \<circ> begin_discovery revision) ^^ k) m = m\<lparr>ac_devin_discovery_seq := ac_devin_discovery_seq m + k\<rparr>"
  using assms(2)
proof (induction k)
  case (Suc k)
  then show ?case using assms(1) by (simp add: begin_discovery_def Let_def u64_wrapping_add_exact)
qed simp

text \<open>
  C15. A reload stalls discovery. The member that is loaded has the request counter of a new
  member, and adopting the state of the previous one takes over its Devin catalog, with its
  sequence \<open>n\<close>, but not the counter. Each of the next \<open>n\<close> discoveries for the member, although nothing
  else is in flight and the upstream call succeeds, is therefore rejected as a stale publication:
  it publishes nothing and caches nothing.
\<close>

theorem reload_stalls_discovery:
  assumes "same_credential_identity loaded previous" and "ac_kind previous = Devin"
    and "ac_devin_discovery_seq loaded = ac_devin_discovery_seq (account_new ident file_name instant inner)"
    and "ac_devin_catalog previous = Some c" and "dc_key c = devin_key_of revision previous"
    and "k < dc_sequence c" "dc_sequence c < u64_max"
    and "begin_discovery revision (((snd \<circ> begin_discovery revision) ^^ k) (adopt_runtime_state previous loaded)) =
           (Inr (key, s), a)"
    and "finish_discovery revision key s (Inr models) cache now a = Inr catalog"
    and "find_member (rt_pool rt) (ac_id a) = Some a"
  shows "publish_devin_member_catalog host_of revision (ac_id a) (credential_revision key) catalog (rt, devin) =
    (Inl DevinStalePublication, rt, devin)"
proof -
  let ?m = "adopt_runtime_state previous loaded"
  have kind: "ac_kind loaded = Devin" using assms(1,2) by (simp add: same_credential_identity_def)
  have inner: "ac_inner ?m = ac_inner loaded" "ac_id ?m = ac_id loaded"
    "ac_upstream_override ?m = ac_upstream_override loaded" "ac_devin_discovery_seq ?m = 0"
    using assms(3) by (simp_all add: adopt_runtime_state_def account_new_def)
  have cat: "ac_devin_catalog ?m = Some c"
    using assms(1,2,4) kind by (simp add: adopt_runtime_state_def)
  have times: "((snd \<circ> begin_discovery revision) ^^ k) ?m = ?m\<lparr>ac_devin_discovery_seq := k\<rparr>"
    using begin_discovery_times[of ?m k revision] assms(6,7) kind inner by simp
  have key: "key = devin_key_of revision a" "s = Suc k" "ac_devin_catalog a = Some c"
    "ac_inner a = ac_inner loaded" "ac_id a = ac_id loaded" "effective_base_url a = effective_base_url loaded"
    using assms(6-8) kind cat inner unfolding times
    by (auto simp: begin_discovery_def Let_def devin_key_of_def effective_base_url_def
        u64_wrapping_add_exact cong: option.case_cong)
  have same: "devin_key_of revision a = devin_key_of revision previous"
    using assms(1) key(4-6) by (simp add: devin_key_of_def same_credential_identity_def)
  have "catalog = (devin_catalog_new_success key models now)\<lparr>dc_sequence := s\<rparr>"
    using assms(9) by (simp add: finish_discovery_def split: if_splits)
  then have "dc_key catalog = dc_key c" "dc_sequence catalog = Suc k"
    using key same assms(5) by (simp_all add: devin_catalog_new_success_def)
  with key(3) assms(6) have "publication_is_stale revision (ac_id a) (credential_revision key) catalog a"
    by (simp add: publication_is_stale_def out_of_order_def)
  with assms(10) show ?thesis by (simp add: publish_devin_member_catalog_def)
qed

end
