(* ===== verification/Routing_Props.thy ===== *)
theory Routing_Props
  imports Routing Runtime_Props Cooldown_Props
begin

text \<open>
  What routing guarantees: which accounts are eligible, that the account a request is sent to
  passes every check of the components it composes, and that sessions and prefixes keep to the
  accounts they belong to.
\<close>

section \<open>Resolution\<close>

lemma resolve_not_excluded:
  assumes "registry_resolve s q = Inr r"
  shows "\<not> globally_excluded s (canonical_id r)"
    and "b \<in> set (eligible_bindings r) \<Longrightarrow> \<not> excluded_for s (canonical_id r) (pb_provider_id b)"
proof -
  from assms have "\<not> globally_excluded s (canonical_id r) \<and>
    (\<forall>b \<in> set (eligible_bindings r). \<not> excluded_for s (canonical_id r) (pb_provider_id b))"
  proof (cases rule: registry_resolve_cases)
    case (catalogued req m d)
    then have "\<forall>b \<in> set (eligible_bindings r). \<not> excluded_for s m (pb_provider_id b)"
      using catalogued_not_excluded[of _ s m "open_providers s req m" d] by metis
    with catalogued show ?thesis by simp
  next
    case (unclaimed req m)
    then have "\<forall>b \<in> set (eligible_bindings r). \<not> excluded_for s m (pb_provider_id b)"
      using set_synthesized[of _ s m "open_providers s req m"] by metis
    with unclaimed show ?thesis by simp
  qed
  then show "\<not> globally_excluded s (canonical_id r)"
    and "b \<in> set (eligible_bindings r) \<Longrightarrow> \<not> excluded_for s (canonical_id r) (pb_provider_id b)" by blast+
qed

text \<open>The fallback of \<open>resolve_model\<close> for unknown Claude names honours exclusions as well.\<close>

lemma resolve_model_not_excluded:
  assumes "resolve_model pool q = Inr r"
  shows "\<not> globally_excluded (ps_registry pool) (canonical_id r)"
    and "b \<in> set (eligible_bindings r) \<Longrightarrow> \<not> excluded_for (ps_registry pool) (canonical_id r) (pb_provider_id b)"
proof -
  let ?s = "ps_registry pool"
  have "(\<exists>q'. registry_resolve ?s q' = Inr r) \<or>
    (\<exists>c. r = \<lparr>canonical_id = c, rm_descriptor = None,
        eligible_bindings = [provider_binding_new pid_claude PolicyClosed EmbeddedFallback],
        rm_capabilities = {}, rm_source = EmbeddedFallback\<rparr> \<and>
      \<not> globally_excluded ?s c \<and> \<not> excluded_for ?s c pid_claude)"
    using assms unfolding resolve_model_def by (auto simp: Let_def split: if_split_asm)
  then show "\<not> globally_excluded ?s (canonical_id r)"
    and "b \<in> set (eligible_bindings r) \<Longrightarrow> \<not> excluded_for ?s (canonical_id r) (pb_provider_id b)"
    using resolve_not_excluded[of ?s] by (auto simp: provider_binding_new_def)
qed

lemma resolve_route_Some:
  assumes "resolve_route pool (Some model) capability = Inr (Some route)"
  obtains r where "resolve_model pool model = Inr r" "canonical_model route = mid_str (canonical_id r)"
    "set (provider_classes route) =
       (\<lambda>b. \<lparr>rp_binding = b, rp_upstream_model = effective_upstream_id b (canonical_id r)\<rparr>) `
         {b \<in> set (eligible_bindings r). provider_loaded pool b \<and>
            (case capability of None \<Rightarrow> True | Some c \<Rightarrow> c \<in> pb_capabilities b)}"
proof -
  from assms obtain r where r: "resolve_model pool model = Inr r"
    "route = \<lparr>canonical_model = mid_str (canonical_id r), route_capabilities = rm_capabilities r,
      provider_classes = map (\<lambda>b. \<lparr>rp_binding = b, rp_upstream_model = effective_upstream_id b (canonical_id r)\<rparr>)
        (filter (provider_loaded pool)
          (filter (\<lambda>b. case capability of None \<Rightarrow> True | Some c \<Rightarrow> c \<in> pb_capabilities b) (eligible_bindings r)))\<rparr>"
    unfolding resolve_route_def by auto
  show ?thesis by (rule that[OF r(1)]) (auto simp: r(2))
qed

section \<open>Eligibility\<close>

lemma write_back_sorted:
  "foldl (\<lambda>xs (slot, index). xs[slot := index]) xs
     (zip (map fst (filter (\<lambda>(_, x). P x) (enumerated xs)))
        (sort_key f (map (\<lambda>slot. xs ! slot) (map fst (filter (\<lambda>(_, x). P x) (enumerated xs)))))) =
   fill P xs (sort_key f (filter P xs))"
proof -
  have slots: "map fst (filter (\<lambda>(_, x). P x) (enumerated xs)) = slots_from P 0 xs"
    by (simp add: slots_from_def enumerated_def)
  have vals: "map (\<lambda>slot. xs ! slot) (slots_from P 0 xs) = filter P xs"
    using slots_from_nth[of "[]" xs P] by simp
  show ?thesis
    using write_back_fill[of "sort_key f (filter P xs)" P xs "[]"] by (simp add: slots vals)
qed

lemma mset_fill_sorted: "mset (fill P xs (sort_key f (filter P xs))) = mset xs"
proof -
  let ?ys = "sort_key f (filter P xs)"
  have l: "length ?ys = length (filter P xs)" "list_all P ?ys" by (simp_all add: list_all_iff)
  have "filter (\<lambda>x. \<not> P x) (fill P xs ?ys) = filter (\<lambda>x. \<not> P x) xs"
    by (rule filter_nth_eq) (simp_all add: fill_filter[OF l])
  moreover have "mset (filter P (fill P xs ?ys)) = mset (filter P xs)" by (simp add: fill_filter[OF l] mset_sort)
  moreover have "mset zs = mset (filter P zs) + mset (filter (\<lambda>x. \<not> P x) zs)" for zs
    by (simp add: multiset_partition[symmetric])
  ultimately show ?thesis by metis
qed

lemma mset_prefer: "mset (prefer_claude_api_keys env ordered members) = mset ordered"
  unfolding prefer_claude_api_keys_def Let_def write_back_sorted by (rule mset_fill_sorted)

abbreviation requested_model :: "resolved_route \<Rightarrow> string option \<Rightarrow> string" where
  "requested_model route requested \<equiv> (case requested of Some m \<Rightarrow> m | None \<Rightarrow> canonical_model route)"

lemma map_filter_enumerated:
  "map fst (List.map_filter (\<lambda>(i, x). map_option (Pair i) (f x)) (enumerated xs)) =
     filter (\<lambda>i. f (xs ! i) \<noteq> None) [0..<length xs]"
proof -
  have *: "map fst (List.map_filter (\<lambda>(i, x). map_option (Pair i) (f x)) (map (\<lambda>i. (i, g i)) ks)) =
      filter (\<lambda>i. f (g i) \<noteq> None) ks" for ks :: "nat list" and g
    by (induction ks) (auto simp: map_filter_simps split: option.splits)
  have "zip ks (map g ks) = map (\<lambda>i. (i, g i)) ks" for ks :: "nat list" and g
    by (induction ks) simp_all
  from this[of "[0..<length xs]" "(!) xs"] have "enumerated xs = map (\<lambda>i. (i, xs ! i)) [0..<length xs]"
    unfolding enumerated_def map_nth .
  then show ?thesis by (simp only: *)
qed

lemma eligible_mset:
  "mset (fst (eligible_indices env pool (Some route) requested now_ms binding scoped)) =
     mset (filter (\<lambda>i. member_rank env pool route (requested_model route requested) now_ms binding scoped
                         (ps_members pool ! i) \<noteq> None) [0..<length (ps_members pool)])"
proof -
  let ?ranked = "List.map_filter (\<lambda>(i, a). map_option (Pair i)
    (member_rank env pool route (requested_model route requested) now_ms binding scoped a))
    (enumerated (ps_members pool))"
  have "mset (map fst (sort_key (\<lambda>item. - snd item) ?ranked)) = mset (map fst ?ranked)"
    by (simp only: mset_map mset_sort)
  also have "map fst ?ranked = filter (\<lambda>i. member_rank env pool route (requested_model route requested)
      now_ms binding scoped (ps_members pool ! i) \<noteq> None) [0..<length (ps_members pool)]"
    by (rule map_filter_enumerated)
  finally show ?thesis
    by (simp add: eligible_indices_def Let_def mset_prefer mset_reorder split: prod.splits)
qed

text \<open>
  What it takes to serve a request, stated from the primitive tests. An account can serve if it is
  healthy, released by the scheduler, named by the binding and admitted by the scope of the key, has
  quota left, and, when it is a direct Claude account, is neither suspected nor without its
  dedicated egress, and is within its budget or allowed as a subscription. Its lane is the one the
  prefix of the requested name demands. It is entitled if besides its quota group is free and it
  declares the model for a provider class of the route.
\<close>

definition can_serve_now ::
  "route_env \<Rightarrow> string \<Rightarrow> int \<Rightarrow> api_key_binding option \<Rightarrow> scoped_api_key option \<Rightarrow> account \<Rightarrow> bool" where
  "can_serve_now env model now_ms binding scoped a \<longleftrightarrow>
     is_available (ac_health a) now_ms \<and> permits (rv_scheduler env) (ac_id a) \<and>
     member_matches_api_key_binding a binding \<and> member_matches_scope a scoped \<and>
     (ac_kind a = Codex \<longrightarrow> \<not> codex_quota_blocks env (Some model) now_ms a) \<and>
     (ac_kind a = Claude \<longrightarrow> \<not> is_claude_included_quota_exhausted (rv_usage env a) (i64_div now_ms 1000)) \<and>
     (ac_kind a = Claude \<and> \<not> is_nekos_relay (rv_host_of env) a \<longrightarrow>
        ac_id a \<notin> set (rv_claude_suspected_accounts env) \<and> \<not> claude_egress_invalid env a \<and>
        (if ac_relay_key a = None then rv_claude_route_mode env \<noteq> ApiKeyOnly
         else \<not> is_over (rv_claude_api_key_budgets env) (ac_id a) (rv_claude_budgets env)))"

definition in_lane :: "route_env \<Rightarrow> string \<Rightarrow> account \<Rightarrow> bool" where
  "in_lane env model a \<longleftrightarrow>
     (case fst (parse_model_prefix model) of
        Some PrefixAnthropic \<Rightarrow> ac_kind a = Claude \<and> \<not> is_nekos_relay (rv_host_of env) a
      | Some PrefixNekos \<Rightarrow> ac_kind a = Claude \<and> is_nekos_relay (rv_host_of env) a
      | None \<Rightarrow> ac_kind a = Claude \<longrightarrow> \<not> is_nekos_relay (rv_host_of env) a)"

definition entitled ::
  "route_env \<Rightarrow> pool_snapshot \<Rightarrow> resolved_route \<Rightarrow> string \<Rightarrow> int \<Rightarrow> api_key_binding option \<Rightarrow>
   scoped_api_key option \<Rightarrow> account \<Rightarrow> bool" where
  "entitled env pool route model now_ms binding scoped a \<longleftrightarrow>
     can_serve_now env (canonical_model route) now_ms binding scoped a \<and> in_lane env model a \<and>
     group_available a (canonical_model route) now_ms \<and>
     (\<exists>pc. provider_for_member route a = Some pc \<and>
       account_declares_binding_model env pool a model (canonical_model route) pc)"

lemma admitted_can_serve_now:
  "member_admitted env (Some model) now_ms binding scoped a = can_serve_now env model now_ms binding scoped a"
  by (auto simp: member_admitted_def can_serve_now_def claude_member_routable_def)

lemma prefix_admits_in_lane: "prefix_admits env (fst (parse_model_prefix model)) a = in_lane env model a"
  by (auto simp: prefix_admits_def in_lane_def split: option.splits model_prefix.splits)

text \<open>The checks in the loop over the members are these tests.\<close>

lemma entitled_checks:
  "entitled env pool route model now_ms binding scoped a \<longleftrightarrow>
     member_admitted env (Some (canonical_model route)) now_ms binding scoped a \<and>
     prefix_admits env (fst (parse_model_prefix model)) a \<and>
     group_available a (canonical_model route) now_ms \<and>
     (\<exists>pc. provider_for_member route a = Some pc \<and>
       account_declares_binding_model env pool a model (canonical_model route) pc)"
  by (simp add: entitled_def admitted_can_serve_now prefix_admits_in_lane)

text \<open>Ranking, the reset order of Claude accounts and the preference for API keys only permute.\<close>

lemma eligible_exact:
  "distinct (fst (eligible_indices env pool (Some route) requested now_ms binding scoped)) \<and>
   (i \<in> set (fst (eligible_indices env pool (Some route) requested now_ms binding scoped)) \<longleftrightarrow>
      i < length (ps_members pool) \<and>
      entitled env pool route (requested_model route requested) now_ms binding scoped (ps_members pool ! i))"
proof -
  let ?e = "fst (eligible_indices env pool (Some route) requested now_ms binding scoped)"
  let ?l = "filter (\<lambda>i. member_rank env pool route (requested_model route requested) now_ms binding scoped
      (ps_members pool ! i) \<noteq> None) [0..<length (ps_members pool)]"
  have m: "mset ?e = mset ?l" by (rule eligible_mset)
  then have d: "distinct ?e" using distinct_filter[OF distinct_upt] mset_eq_imp_distinct_iff by blast
  have e: "set ?e = set ?l" using m by (rule mset_eq_setD)
  have f: "(find (\<lambda>pc. member_provider_id a = Some (pb_provider_id (rp_binding pc))) pcs) =
      (case member_provider_id a of None \<Rightarrow> None
       | Some p \<Rightarrow> find (\<lambda>pc. pb_provider_id (rp_binding pc) = p) pcs)" for a pcs
  proof (cases "member_provider_id a")
    case None
    then show ?thesis by (induction pcs) simp_all
  next
    case (Some p)
    then show ?thesis by (induction pcs) auto
  qed
  have "member_rank env pool route rq now_ms binding scoped a \<noteq> None \<longleftrightarrow>
      entitled env pool route rq now_ms binding scoped a" for rq a
    unfolding member_rank_def provider_for_member_def entitled_checks f by (auto split: option.splits)
  with d show ?thesis unfolding e by simp
qed

section \<open>Selection\<close>

lemma member_available_view [simp]:
  "member_available now (view_member env a) \<longleftrightarrow> is_available (ac_health a) now"
  by (simp add: member_available_def pool_member_of_def account_view_def)

lemma select_among_spec:
  assumes "select_among env pool now hint origin r = (choice, r')"
  shows "case choice of
      Some i \<Rightarrow> i \<in> set origin \<and> is_available (ac_health (ps_members pool ! i)) now
    | None \<Rightarrow> r' = r \<and> (\<forall>i \<in> set origin. \<not> is_available (ac_health (ps_members pool ! i)) now)"
proof -
  let ?ms = "map (\<lambda>i. view_member env (ps_members pool ! i)) origin"
  obtain k r1 where s: "select now ?ms hint r = (k, r1)" by fastforce
  note a = select_available[where now = now and ms = ?ms and hint = hint and r = r, unfolded s]
  show ?thesis
  proof (cases k)
    case None
    with a s assms show ?thesis by (auto simp: select_among_def)
  next
    case (Some j)
    with a s assms show ?thesis by (auto simp: select_among_def)
  qed
qed

lemma bound_provider_Some:
  assumes "bound_provider pool hint elig exclude r = Some p"
  shows "\<exists>i. i \<in> set elig \<and> i \<notin> set exclude \<and> member_provider_id (ps_members pool ! i) = Some p"
  using assms by (auto simp: bound_provider_def bind_eq_Some_conv dest!: find_SomeD)

lemma select_index_spec:
  assumes sel: "select_index env pool now hint elig exclude r = (choice, r')"
    and valid: "\<And>i. i \<in> set elig \<Longrightarrow> i < length (ps_members pool)"
    and avail: "\<And>i. i \<in> set elig \<Longrightarrow> is_available (ac_health (ps_members pool ! i)) now"
  shows "case choice of
      Some i \<Rightarrow> i \<in> set elig \<and> i \<notin> set exclude | None \<Rightarrow> r' = r \<and> set elig \<subseteq> set exclude"
proof -
  let ?kept = "filter (\<lambda>i. i \<notin> set exclude) elig"
  have v: "\<not> list_ex (\<lambda>i. i \<ge> length (ps_members pool)) ?kept"
    using valid by (fastforce simp: list_ex_iff)
  show ?thesis
  proof (cases "bound_provider pool hint elig exclude r")
    case None
    with sel v have "select_among env pool now hint ?kept r = (choice, r')"
      by (simp add: select_index_def Let_def)
    from select_among_spec[OF this] avail show ?thesis by (auto split: option.splits)
  next
    case (Some p)
    let ?same = "filter (\<lambda>i. member_provider_id (ps_members pool ! i) = Some p) ?kept"
    from Some sel v have s: "select_among env pool now hint ?same r = (choice, r')"
      by (simp add: select_index_def Let_def)
    from bound_provider_Some[OF Some] obtain j where "j \<in> set ?same" by auto
    then have "choice \<noteq> None" using select_among_spec[OF s] avail by (auto split: option.splits)
    with select_among_spec[OF s] show ?thesis by (auto split: option.splits)
  qed
qed

text \<open>
  C1. A request reaches an account that is entitled to it, and only such an account, whenever there
  is one. The chosen account was not tried before in this request; it is healthy, released by the
  scheduler, within the binding and the scope of the caller's key, within its budget and quota; and
  the registry binds the model to its provider, with no exclusion rule against the model as such
  or for that provider. If nothing is chosen, every entitled account has been tried already.
\<close>

theorem request_reaches_entitled_account:
  assumes "resolve_route pool (Some model) capability = Inr (Some route)"
    and "select_index env pool now hint
           (fst (eligible_indices env pool (Some route) (Some model) now binding scoped)) exclude r = (choice, r')"
  shows "case choice of
      Some i \<Rightarrow> i < length (ps_members pool) \<and> i \<notin> set exclude \<and>
        entitled env pool route model now binding scoped (ps_members pool ! i) \<and>
        (\<exists>resolved b. resolve_model pool model = Inr resolved \<and> b \<in> set (eligible_bindings resolved) \<and>
          member_provider_id (ps_members pool ! i) = Some (pb_provider_id b) \<and>
          \<not> globally_excluded (ps_registry pool) (canonical_id resolved) \<and>
          \<not> excluded_for (ps_registry pool) (canonical_id resolved) (pb_provider_id b))
    | None \<Rightarrow> r' = r \<and>
        (\<forall>i < length (ps_members pool). entitled env pool route model now binding scoped (ps_members pool ! i) \<longrightarrow>
           i \<in> set exclude)"
proof -
  let ?e = "fst (eligible_indices env pool (Some route) (Some model) now binding scoped)"
  have e: "i \<in> set ?e \<longleftrightarrow> i < length (ps_members pool) \<and>
      entitled env pool route model now binding scoped (ps_members pool ! i)" for i
    using eligible_exact[of env pool route "Some model" now binding scoped i] by simp
  have spec: "case choice of Some i \<Rightarrow> i \<in> set ?e \<and> i \<notin> set exclude | None \<Rightarrow> r' = r \<and> set ?e \<subseteq> set exclude"
    by (rule select_index_spec[OF assms(2)]) (simp_all add: e entitled_checks member_admitted_def)
  show ?thesis
  proof (cases choice)
    case None
    with spec e show ?thesis by auto
  next
    case (Some i)
    with spec have i: "i < length (ps_members pool)" "i \<notin> set exclude"
      "entitled env pool route model now binding scoped (ps_members pool ! i)" by (simp_all add: e)
    from i(3) obtain pc where pc: "provider_for_member route (ps_members pool ! i) = Some pc"
      by (auto simp: entitled_checks)
    then obtain p where p: "member_provider_id (ps_members pool ! i) = Some p"
      "find (\<lambda>pc. pb_provider_id (rp_binding pc) = p) (provider_classes route) = Some pc"
      by (auto simp: provider_for_member_def split: option.splits)
    then have mem: "pc \<in> set (provider_classes route)" "pb_provider_id (rp_binding pc) = p"
      by (auto dest!: find_SomeD)
    from assms(1) obtain resolved where r: "resolve_model pool model = Inr resolved"
      "set (provider_classes route) =
       (\<lambda>b. \<lparr>rp_binding = b, rp_upstream_model = effective_upstream_id b (canonical_id resolved)\<rparr>) `
         {b \<in> set (eligible_bindings resolved). provider_loaded pool b \<and>
            (case capability of None \<Rightarrow> True | Some c \<Rightarrow> c \<in> pb_capabilities b)}"
      by (rule resolve_route_Some)
    from mem r(2) have b: "rp_binding pc \<in> set (eligible_bindings resolved)" by auto
    with r(1) p(1) mem(2) resolve_model_not_excluded(1)[OF r(1)] resolve_model_not_excluded(2)[OF r(1) b]
    have "resolve_model pool model = Inr resolved \<and> rp_binding pc \<in> set (eligible_bindings resolved) \<and>
          member_provider_id (ps_members pool ! i) = Some (pb_provider_id (rp_binding pc)) \<and>
          \<not> globally_excluded (ps_registry pool) (canonical_id resolved) \<and>
          \<not> excluded_for (ps_registry pool) (canonical_id resolved) (pb_provider_id (rp_binding pc))" by simp
    with i Some show ?thesis by (simp only: option.case) blast
  qed
qed

text \<open>A session goes back to the account it is bound to, also across providers.\<close>

lemma select_among_bound:
  assumes "bound_affinity_member k r = Some mid" "admits (rstate r) mid"
    and "i \<in> set origin" "ac_id (ps_members pool ! i) = mid" "is_available (ac_health (ps_members pool ! i)) now"
  shows "\<exists>j r'. select_among env pool now \<lparr>affinity_key = Some k\<rparr> origin r = (Some j, r') \<and> j \<in> set origin \<and>
    ac_id (ps_members pool ! j) = mid \<and> bound_affinity_member k r' = Some mid"
proof -
  let ?ms = "map (\<lambda>i. view_member env (ps_members pool ! i)) origin"
  have ident: "pm_id (view_member env a) = ac_id a" for a by (simp add: pool_member_of_def account_view_def)
  have "view_member env (ps_members pool ! i) \<in> set ?ms" using assms(3) by simp
  moreover have "pm_id (view_member env (ps_members pool ! i)) = mid" using assms(4) ident by simp
  moreover have "member_available now (view_member env (ps_members pool ! i))" using assms(5) by simp
  ultimately obtain n r' where s: "select now ?ms \<lparr>affinity_key = Some k\<rparr> r = (Some n, r')" "n < length ?ms"
    "pm_id (?ms ! n) = mid" "bound_affinity_member k r' = Some mid"
    using select_bound[OF assms(1,2)] by metis
  then have "ac_id (ps_members pool ! (origin ! n)) = mid" using ident by simp
  with s show ?thesis by (auto simp: select_among_def)
qed

text \<open>
  C2. Sessions stay on their account across the composition: when the session key of a request is
  bound in the router to a live account that is entitled to the request and was not tried yet, the
  request goes to an account with that id, whatever the priorities, the reset order and the other
  candidates are, and the binding survives.
\<close>

theorem session_returns_to_account:
  assumes "resolve_route pool (Some model) capability = Inr (Some route)"
    and "bound_affinity_member k r = Some (ac_id (ps_members pool ! i))"
    and "admits (rstate r) (ac_id (ps_members pool ! i))"
    and "i < length (ps_members pool)" "i \<notin> set exclude"
    and "entitled env pool route model now binding scoped (ps_members pool ! i)"
  shows "\<exists>j r'. select_index env pool now \<lparr>affinity_key = Some k\<rparr>
      (fst (eligible_indices env pool (Some route) (Some model) now binding scoped)) exclude r = (Some j, r') \<and>
    ac_id (ps_members pool ! j) = ac_id (ps_members pool ! i) \<and>
    bound_affinity_member k r' = Some (ac_id (ps_members pool ! i))"
proof -
  let ?e = "fst (eligible_indices env pool (Some route) (Some model) now binding scoped)"
  let ?mid = "ac_id (ps_members pool ! i)" and ?kept = "filter (\<lambda>i. i \<notin> set exclude) ?e"
  have e: "j \<in> set ?e \<longleftrightarrow> j < length (ps_members pool) \<and>
      entitled env pool route model now binding scoped (ps_members pool ! j)" for j
    using eligible_exact[of env pool route "Some model" now binding scoped j] by simp
  let ?P = "\<lambda>j. j \<notin> set exclude \<and> j < length (ps_members pool) \<and> ac_id (ps_members pool ! j) = ?mid"
  have v: "\<not> list_ex (\<lambda>j. j \<ge> length (ps_members pool)) ?kept" by (auto simp: list_ex_iff e)
  have "i \<in> set ?e" "?P i" using assms e by simp_all
  then have "find ?P ?e \<noteq> None" by (auto simp: find_None_iff)
  then obtain j where j: "find ?P ?e = Some j" by blast
  then have jm: "j \<in> set ?e" "?P j" by (auto dest: find_SomeD)
  then have av: "is_available (ac_health (ps_members pool ! j)) now"
    and pid: "\<exists>p. member_provider_id (ps_members pool ! j) = Some p"
    using e by (auto simp: entitled_checks member_admitted_def provider_for_member_def split: option.splits)
  from pid obtain p where p: "member_provider_id (ps_members pool ! j) = Some p" ..
  have bp: "bound_provider pool \<lparr>affinity_key = Some k\<rparr> ?e exclude r = Some p"
    using assms(2) j p by (simp add: bound_provider_def)
  let ?same = "filter (\<lambda>i. member_provider_id (ps_members pool ! i) = Some p) ?kept"
  have "j \<in> set ?same" using jm p by simp
  then obtain j' r' where s: "select_among env pool now \<lparr>affinity_key = Some k\<rparr> ?same r = (Some j', r')"
    "ac_id (ps_members pool ! j') = ?mid" "bound_affinity_member k r' = Some ?mid"
    using select_among_bound[OF assms(2,3) _ _ av] jm(2) by blast
  have "select_index env pool now \<lparr>affinity_key = Some k\<rparr> ?e exclude r =
      select_among env pool now \<lparr>affinity_key = Some k\<rparr> ?same r"
    unfolding select_index_def Let_def bp by (simp only: option.case v if_False)
  also note s(1)
  finally show ?thesis using s(2,3) by blast
qed

section \<open>Rejections\<close>

lemma entitled_rested: "entitled env pool route model now binding scoped a \<Longrightarrow> rested a (canonical_model route) now"
  by (simp add: entitled_checks member_admitted_def rested_def)

text \<open>Of the pool, entitlement reads the permissions only.\<close>

lemma entitled_members [simp]:
  "entitled env (pool\<lparr>ps_members := ms\<rparr>) route model now binding scoped a =
     entitled env pool route model now binding scoped a"
  by (simp add: entitled_checks account_declares_binding_model_def is_devin_model_eligible_def
      is_antigravity_model_eligible_def pool_permissions_def)

text \<open>
  C4. A rejected account is left alone until its deadline: after a 429 recorded under some model name,
  the account is not a candidate for a route whose canonical model the rejection covers, before the
  deadline read from the response, under any settings, key or scheduler state; every other account
  is a candidate exactly as before. Covered are the recorded name itself and, unless upstream
  rejected a single Claude model, every model of the name's quota group, or every model when the
  name has no group. (The name that the relay records is the one of the request, which need not be
  the canonical one.)
\<close>

theorem rejected_account_rests:
  assumes "i < length (ps_members pool)"
    and "now < cooldown_until cenv hs body (ps_members pool ! i)"
    and "rejection_covers hs (ps_members pool ! i) recorded (canonical_model route)"
    and "b = fst (record_cooldown cenv hs body (Some recorded) (ps_members pool ! i, re))"
  shows "i \<notin> set (fst (eligible_indices env (pool\<lparr>ps_members := (ps_members pool)[i := b]\<rparr>) (Some route)
           requested now binding scoped)) \<and>
    (\<forall>j. j \<noteq> i \<longrightarrow>
       (j \<in> set (fst (eligible_indices env (pool\<lparr>ps_members := (ps_members pool)[i := b]\<rparr>) (Some route)
             requested now binding scoped)) \<longleftrightarrow>
        j \<in> set (fst (eligible_indices env pool (Some route) requested now binding scoped))))"
proof -
  have "\<not> rested b (canonical_model route) now"
    using cooldown_rests[OF assms(4)[symmetric] assms(2,3)] .
  then have "\<not> entitled env pool route m now binding scoped b" for m using entitled_rested by blast
  with assms(1) show ?thesis by (simp add: eligible_exact)
qed

lemma model_bench_key_inj: "model_bench_key m = model_bench_key m' \<longleftrightarrow> m = m'"
  by (simp add: model_bench_key_def)

lemma quota_group_claude: "ac_kind a = Claude \<Longrightarrow> quota_group_for a m = None"
  using claude_not_cline[of a] by (simp add: quota_group_for_def model_quota_group_def)

text \<open>
  C18. A rejection under another name is forgotten: the cooldown is recorded under the name in the
  request, while eligibility tests the canonical name. When upstream rejects one model of a Claude
  account and the request used an alias or a published prefix such as \<open>anthropic/\<close>, the account
  stays entitled to the very same request.
\<close>

theorem aliased_rejection_forgotten:
  assumes "ac_kind a = Claude" and "claude_model_scoped_rejection hs" and "requested \<noteq> canonical_model route"
    and "entitled env pool route requested now binding scoped a"
  shows "entitled env pool route requested now binding scoped
           (fst (record_cooldown cenv hs body (Some requested) (a, re)))"
proof -
  let ?b = "record_fail (cd_instant cenv)
    (set_model_cooldown requested (cooldown_deadline_from_headers hs (cd_now_ms cenv)) a)"
  have b: "fst (record_cooldown cenv hs body (Some requested) (a, re)) = ?b"
    using assms(1,2) by (simp add: record_cooldown_def)
  have same: "ac_health ?b = ac_health a" "ac_id ?b = ac_id a" "ac_inner ?b = ac_inner a"
    "ac_usage ?b = ac_usage a" "ac_unsupported_models ?b = ac_unsupported_models a"
    "ac_file_name ?b = ac_file_name a" "ac_upstream_override ?b = ac_upstream_override a"
    "ac_usage_override ?b = ac_usage_override a"
    by (simp_all add: record_fail_def set_model_cooldown_def)
  have "group_available ?b (canonical_model route) now = group_available a (canonical_model route) now"
    using assms(1,3) same
    by (simp add: group_available_def quota_group_claude record_fail_def set_model_cooldown_def
        deadline_passed_extend model_bench_key_inj)
  moreover have "provider_for_member route ?b = provider_for_member route a"
    unfolding provider_for_member_def member_provider_id_def same ..
  moreover have "account_declares_binding_model env pool ?b = account_declares_binding_model env pool a"
    unfolding account_declares_binding_model_def fun_eq_iff same by simp
  moreover have nekos: "is_nekos_relay (rv_host_of env) ?b = is_nekos_relay (rv_host_of env) a"
    unfolding is_nekos_relay_def same ..
  moreover from nekos have "member_admitted env m now binding scoped ?b = member_admitted env m now binding scoped a" for m
    unfolding member_admitted_def member_matches_api_key_binding_def member_matches_scope_def
      account_allowed_def[abs_def] codex_quota_blocks_def claude_member_routable_def claude_egress_invalid_def
      usage_snapshot_at_def same by simp
  ultimately show ?thesis
    using assms(4) unfolding b entitled_checks prefix_admits_def same nekos by simp
qed

end
