(* ===== verification/Runtime_Examples.thy ===== *)
theory Runtime_Examples
  imports Routing_Props Cooldown_Examples
begin

text \<open>A small pool: the properties of compositions, discovery and routing applied to it.\<close>

section \<open>The pool\<close>

definition demo_model :: model_id where "demo_model = ModelId ''claude-x''"

definition demo_registry :: registry_snapshot where
  "demo_registry =
     \<lparr>rg_version = 1, rg_source = RemoteSigned,
      rg_models = [(demo_model, with_binding (provider_binding_new pid_claude PolicyClosed RemoteSigned)
                      (model_descriptor_new demo_model ''anthropic''))],
      rg_providers = [(pid_claude, PolicyClosed)], rg_aliases = [], rg_exclusions = []\<rparr>"

definition demo_claude :: "string \<Rightarrow> provider_account" where
  "demo_claude slug =
     ClaudeAccount \<lparr>na_identity_slug = slug, na_access_token = ''tok'', na_refresh_token = ''ref'',
       na_email = ''a@b'', na_account_id = [], na_expired = [], na_api_key = None, na_plan = None,
       na_disabled = False\<rparr>"

definition demo_devin :: provider_account where
  "demo_devin =
     DevinAccount \<lparr>da_identity_slug = ''d'', da_access_token = ''t'', da_api_server_url = ''http://h'',
       da_email = None, da_disabled = False\<rparr>"

definition demo_c1 :: account where "demo_c1 = account_new ''c1'' ''c1.json'' 0 (demo_claude ''c1'')"
definition demo_c2 :: account where "demo_c2 = account_new ''c2'' ''c2.json'' 0 (demo_claude ''c2'')"
definition demo_d :: account where "demo_d = account_new ''d'' ''d.json'' 0 demo_devin"

definition no_host :: "string \<Rightarrow> string option" where "no_host u = None"
definition plain_revision :: "string \<Rightarrow> string" where "plain_revision t = t"

definition demo_pool :: pool_snapshot where
  "demo_pool = pool_new_with_created 1 [demo_c1, demo_c2, demo_d] [] demo_registry 0"

definition demo_composed :: pool_snapshot where
  "demo_composed =
     projr (compute_candidate_composition_with_created no_host 1 [demo_c1, demo_c2, demo_d] demo_registry None 1)"

lemma demo_composes:
  "compute_candidate_composition_with_created no_host 1 [demo_c1, demo_c2, demo_d] demo_registry None 1 =
     Inr demo_composed"
proof -
  have "\<not> isl (compute_candidate_composition_with_created no_host 1 [demo_c1, demo_c2, demo_d] demo_registry None 1)"
    by code_simp
  then show ?thesis by (simp add: demo_composed_def)
qed

theorem composition_keeps_catalog_witness:
  "binding_of (ps_registry demo_composed) demo_model pid_claude =
     Some (provider_binding_new pid_claude PolicyClosed RemoteSigned)"
proof -
  have ok: "omap_ok (rg_models demo_registry)" by (simp add: omap_ok_def demo_registry_def)
  have "binding_of demo_registry demo_model pid_claude =
      Some (provider_binding_new pid_claude PolicyClosed RemoteSigned)"
    by (simp add: binding_of_def demo_registry_def with_binding_def model_descriptor_new_def
        provider_binding_new_def)
  with composition_keeps_catalog[OF ok demo_composes] show ?thesis
    by (simp add: pid_claude_def pid_antigravity_def)
qed

theorem generation_identifies_composition_witness:
  "ps_generation demo_pool \<le> ps_generation (rt_pool (fst (foldl (runtime_step no_host plain_revision)
     (runtime_new demo_pool None, devin_cache_new) [RefreshComposition, ReloadAccounts [demo_c1]])))"
proof -
  have "ps_generation demo_pool = 1" by (simp add: demo_pool_def pool_new_with_created_def)
  then have "sequenced no_host plain_revision (runtime_new demo_pool None, devin_cache_new)
      ([] @ [RefreshComposition, ReloadAccounts [demo_c1]])"
    by (intro sequenced_without_candidates) (simp_all add: runtime_new_def u64_max_def)
  from generation_identifies_composition[OF this]
  show ?thesis by (simp add: runtime_new_def)
qed

section \<open>Discovery\<close>

definition demo_key :: devin_cache_key where "demo_key = devin_key_of plain_revision demo_d"

definition demo_catalog :: "nat \<Rightarrow> devin_catalog" where
  "demo_catalog n = (devin_catalog_new_success demo_key [] 10)\<lparr>dc_sequence := n\<rparr>"

lemma demo_catalog_eq [code]:
  "demo_catalog n =
     \<lparr>dc_key = demo_key, dc_sequence = n, dc_models = [], cached_at_unix = 10, expires_at_unix = 310,
      last_refresh_at = Some 10, dc_last_error = None, dc_stale = False, has_succeeded = True\<rparr>"
  by (simp add: demo_catalog_def devin_catalog_new_success_def u64_wrapping_add_def DEVIN_CATALOG_TTL_SECS_def)

definition devin_pool :: pool_snapshot where
  "devin_pool = pool_new_with_created 1 [demo_d] [] demo_registry 0"

definition demo_published where
  "demo_published =
     publish_devin_member_catalog no_host plain_revision ''d'' ''t'' (demo_catalog 2)
       (runtime_new devin_pool None, devin_cache_new)"

lemma composition_of_same_registry:
  assumes "registry_with_account_contributions members reg = Inr reg"
    and "prefixed_model_aliases host_of (project_model_entries reg members) members reg = []"
    and "registry_validate reg = Inr ()"
  shows "\<exists>pool. compute_candidate_composition_with_created host_of gen members reg None created = Inr pool"
  using assms by (simp add: compute_candidate_composition_with_created_def env_contribution_def Let_def)

lemma demo_published_Inr: "\<exists>pool. fst demo_published = Inr pool"
proof -
  have f: "find_member devin_pool ''d'' = Some demo_d"
    by (simp add: find_member_def devin_pool_def pool_new_with_created_def demo_d_def account_new_def)
  have st: "\<not> publication_is_stale plain_revision ''d'' ''t'' (demo_catalog 2) demo_d" by code_simp
  let ?d = "clone_for_snapshot (Some (demo_catalog 2)) demo_d"
  have m: "map (\<lambda>m. if ac_id m = ''d'' then clone_for_snapshot (Some (demo_catalog 2)) m else m)
      (ps_members devin_pool) = [?d]"
    by (simp add: devin_pool_def pool_new_with_created_def demo_d_def account_new_def)
  have c: "registry_with_account_contributions [?d] demo_registry = Inr demo_registry" by code_simp
  have v: "registry_validate demo_registry = Inr ()" by code_simp
  have k: "ac_kind ?d = Devin" by code_simp
  have "prefixed_model_aliases no_host (project_model_entries demo_registry [?d]) [?d] demo_registry = []"
    by (simp add: prefixed_model_aliases_def k)
  from composition_of_same_registry[OF c this v] obtain pool
    where "compute_candidate_composition_with_created no_host 2 [?d] demo_registry None 0 = Inr pool" by blast
  moreover have "take_generation (runtime_new devin_pool None) = 2"
    by (simp add: runtime_new_def devin_pool_def pool_new_with_created_def u64_wrapping_add_def)
  moreover have "ps_registry devin_pool = demo_registry" "models_created_unix devin_pool = 0"
    by (simp_all add: devin_pool_def pool_new_with_created_def)
  ultimately show ?thesis
    using f st m by (simp add: demo_published_def publish_devin_member_catalog_def runtime_new_def Let_def)
qed

theorem overtaken_discovery_rejected_witness:
  "fst (publish_devin_member_catalog no_host plain_revision ''d'' ''t'' (demo_catalog 1) (snd demo_published)) =
     Inl DevinStalePublication"
proof -
  obtain pool where "fst demo_published = Inr pool" using demo_published_Inr by blast
  then have "publish_devin_member_catalog no_host plain_revision ''d'' ''t'' (demo_catalog 2)
      (runtime_new devin_pool None, devin_cache_new) = (Inr pool, fst (snd demo_published), snd (snd demo_published))"
    by (metis demo_published_def prod.collapse)
  from overtaken_discovery_rejected[OF this, where older = "demo_catalog 1" and target' = "''t''"] show ?thesis
    by (simp add: demo_catalog_def)
qed

definition demo_discovered :: account where
  "demo_discovered = demo_d\<lparr>ac_devin_catalog := Some (demo_catalog 3), ac_devin_discovery_seq := 3\<rparr>"

abbreviation demo_reloaded :: account where
  "demo_reloaded \<equiv> (adopt_runtime_state demo_discovered demo_d)\<lparr>ac_devin_discovery_seq := 1\<rparr>"

definition reloaded_pool :: pool_snapshot where
  "reloaded_pool = pool_new_with_created 2 [demo_reloaded] [] demo_registry 0"

lemma demo_begins:
  "begin_discovery plain_revision (adopt_runtime_state demo_discovered demo_d) = (Inr (demo_key, 1), demo_reloaded)"
proof -
  have "ac_kind (adopt_runtime_state demo_discovered demo_d) = Devin"
    "devin_key_of plain_revision (adopt_runtime_state demo_discovered demo_d) = demo_key"
    "ac_devin_discovery_seq (adopt_runtime_state demo_discovered demo_d) = 0"
    by code_simp+
  then show ?thesis by (simp add: begin_discovery_def u64_wrapping_add_def)
qed

theorem reload_stalls_discovery_witness:
  "publish_devin_member_catalog no_host plain_revision ''d'' ''t'' (demo_catalog 1)
     (runtime_new reloaded_pool None, devin_cache_new) =
   (Inl DevinStalePublication, runtime_new reloaded_pool None, devin_cache_new)"
proof -
  have i: "ac_id demo_reloaded = ''d''" "credential_revision demo_key = ''t''" by code_simp+
  have "same_credential_identity demo_d demo_discovered" by code_simp
  moreover have "ac_kind demo_discovered = Devin" by code_simp
  moreover have "ac_devin_discovery_seq demo_d = ac_devin_discovery_seq (account_new ''d'' ''d.json'' 0 demo_devin)"
    by (simp add: demo_d_def)
  moreover have "ac_devin_catalog demo_discovered = Some (demo_catalog 3)" by (simp add: demo_discovered_def)
  moreover have "dc_key (demo_catalog 3) = devin_key_of plain_revision demo_discovered" by code_simp
  moreover have "0 < dc_sequence (demo_catalog 3)" "dc_sequence (demo_catalog 3) < u64_max"
    by (simp_all add: demo_catalog_def u64_max_def)
  moreover have "begin_discovery plain_revision (((snd \<circ> begin_discovery plain_revision) ^^ 0)
      (adopt_runtime_state demo_discovered demo_d)) = (Inr (demo_key, 1), demo_reloaded)"
    using demo_begins by simp
  moreover have "finish_discovery plain_revision demo_key 1 (Inr []) None 10 demo_reloaded = Inr (demo_catalog 1)"
  proof -
    have "ac_kind demo_reloaded = Devin" "\<not> is_manually_disabled demo_reloaded"
      "devin_key_of plain_revision demo_reloaded = demo_key" by code_simp+
    then show ?thesis by (simp add: finish_discovery_def demo_catalog_def)
  qed
  moreover have "find_member (rt_pool (runtime_new reloaded_pool None)) (ac_id demo_reloaded) = Some demo_reloaded"
    by (simp add: find_member_def runtime_new_def reloaded_pool_def pool_new_with_created_def)
  ultimately have "publish_devin_member_catalog no_host plain_revision (ac_id demo_reloaded)
      (credential_revision demo_key) (demo_catalog 1) (runtime_new reloaded_pool None, devin_cache_new) =
    (Inl DevinStalePublication, runtime_new reloaded_pool None, devin_cache_new)"
    by (rule reload_stalls_discovery)
  then show ?thesis unfolding i .
qed

section \<open>Routing\<close>

definition demo_env :: route_env where
  "demo_env =
     \<lparr>rv_scheduler =
        \<lparr>sr_settings = scheduler_settings_default, sr_snapshot = scheduler_snapshot_default,
         sr_runtime = persisted_state_default, settings_file = None, state_file = None,
         state_generation = 0, persisted_generation = 0, state_parse_failed = False,
         sr_reservations = \<lparr>rs_active = None, rs_reservations = []\<rparr>, pending = []\<rparr>,
      rv_credit_codex_account_ids = [], rv_claude_suspected_accounts = [''c1''],
      rv_claude_api_key_budgets = [], rv_claude_route_mode = OauthFirst,
      rv_claude_budgets = budget_tracker_default, rv_claude_egress_clients = [], rv_claude_ranks = None,
      rv_usage_now = 0, rv_host_of = no_host, rv_embedded = demo_registry\<rparr>"

definition demo_route :: resolved_route where
  "demo_route =
     \<lparr>canonical_model = ''claude-x'', route_capabilities = {},
      provider_classes = [\<lparr>rp_binding = provider_binding_new pid_claude PolicyClosed RemoteSigned,
                            rp_upstream_model = ''claude-x''\<rparr>]\<rparr>"

lemma demo_resolves: "resolve_route demo_pool (Some ''anthropic-claude-x'') None = Inr (Some demo_route)"
  by code_simp

abbreviation demo_eligible :: "nat list" where
  "demo_eligible \<equiv> fst (eligible_indices demo_env demo_pool (Some demo_route) (Some ''anthropic-claude-x'') 0 None None)"

lemma demo_entitled:
  "entitled demo_env demo_pool demo_route ''anthropic-claude-x'' 0 None None (ps_members demo_pool ! 1)"
proof -
  have m: "ps_members demo_pool ! 1 = demo_c2" by (simp add: demo_pool_def pool_new_with_created_def)
  have "member_admitted demo_env (Some (canonical_model demo_route)) 0 None None demo_c2" by code_simp
  moreover have "prefix_admits demo_env (fst (parse_model_prefix ''anthropic-claude-x'')) demo_c2" by code_simp
  moreover have "group_available demo_c2 (canonical_model demo_route) 0" by code_simp
  moreover have "provider_for_member demo_route demo_c2 =
      Some \<lparr>rp_binding = provider_binding_new pid_claude PolicyClosed RemoteSigned, rp_upstream_model = ''claude-x''\<rparr>"
    by code_simp
  moreover have "account_declares_binding_model demo_env demo_pool demo_c2 ''anthropic-claude-x''
      (canonical_model demo_route)
      \<lparr>rp_binding = provider_binding_new pid_claude PolicyClosed RemoteSigned, rp_upstream_model = ''claude-x''\<rparr>"
    by code_simp
  ultimately show ?thesis unfolding entitled_checks m by blast
qed

lemma demo_suspected:
  "\<not> entitled demo_env demo_pool demo_route ''anthropic-claude-x'' 0 None None (ps_members demo_pool ! 0)"
proof -
  have m: "ps_members demo_pool ! 0 = demo_c1" by (simp add: demo_pool_def pool_new_with_created_def)
  have "\<not> member_admitted demo_env (Some (canonical_model demo_route)) 0 None None demo_c1" by code_simp
  then show ?thesis unfolding entitled_checks m by blast
qed

lemma demo_members: "length (ps_members demo_pool) = 3"
  by (simp add: demo_pool_def pool_new_with_created_def)

definition demo_choice :: "nat option \<times> router" where
  "demo_choice =
     select_index demo_env demo_pool 0 \<lparr>affinity_key = None\<rparr> demo_eligible [2] (router_new FillFirst)"

lemma demo_choice_eq:
  "select_index demo_env demo_pool 0 \<lparr>affinity_key = None\<rparr> demo_eligible [2] (router_new FillFirst) =
     (fst demo_choice, snd demo_choice)"
  by (simp add: demo_choice_def)

theorem request_reaches_entitled_account_witness:
  "fst demo_choice = Some 1 \<and>
   entitled demo_env demo_pool demo_route ''anthropic-claude-x'' 0 None None (ps_members demo_pool ! 1)"
proof (cases "fst demo_choice")
  case None
  with request_reaches_entitled_account[OF demo_resolves demo_choice_eq]
  have "\<forall>i < length (ps_members demo_pool).
      entitled demo_env demo_pool demo_route ''anthropic-claude-x'' 0 None None (ps_members demo_pool ! i) \<longrightarrow>
      i \<in> set [2]" by simp
  from this[rule_format, of 1] demo_entitled demo_members show ?thesis by simp
next
  case (Some i)
  with request_reaches_entitled_account[OF demo_resolves demo_choice_eq] demo_members
  have "i < 3" "i \<noteq> 2" "entitled demo_env demo_pool demo_route ''anthropic-claude-x'' 0 None None (ps_members demo_pool ! i)"
    by simp_all
  then have "i \<noteq> 0" using demo_suspected by (cases i) auto
  with \<open>i < 3\<close> \<open>i \<noteq> 2\<close> have "i = 1" by linarith
  with Some demo_entitled show ?thesis by simp
qed

definition demo_bound :: router where
  "demo_bound = select_forced ''c2'' (Some ''s'') (router_new StrictRoundRobin)"

theorem session_returns_to_account_witness:
  "\<exists>j r'. select_index demo_env demo_pool 0 \<lparr>affinity_key = Some ''s''\<rparr> demo_eligible [] demo_bound = (Some j, r') \<and>
     ac_id (ps_members demo_pool ! j) = ''c2''"
proof -
  have ident: "ac_id (ps_members demo_pool ! 1) = ''c2''"
    by (simp add: demo_pool_def pool_new_with_created_def demo_c2_def account_new_def)
  have "bound_affinity_member ''s'' demo_bound = Some (ac_id (ps_members demo_pool ! 1))"
    "admits (rstate demo_bound) (ac_id (ps_members demo_pool ! 1))"
    unfolding ident
    by (simp_all add: demo_bound_def select_forced_def router_new_def router_state_default_def admits_def
        bound_affinity_member_def Let_def)
  from session_returns_to_account[OF demo_resolves this _ _ demo_entitled, of "[]"] demo_members
  show ?thesis unfolding ident by (auto simp del: One_nat_def)
qed

section \<open>Rejections\<close>

theorem rejected_account_rests_witness:
  "demo_eligible \<noteq> [] \<and>
   1 \<notin> set (fst (eligible_indices demo_env
       (demo_pool\<lparr>ps_members := (ps_members demo_pool)[1 := fst (record_cooldown plain_env
           [(''retry-after'', Some ''60'')] [] (Some ''anthropic-claude-x'') (ps_members demo_pool ! 1, no_effects))]\<rparr>)
       (Some demo_route) (Some ''anthropic-claude-x'') 59999 None None))"
proof -
  have "1 \<in> set demo_eligible"
    using eligible_exact[of demo_env demo_pool demo_route "Some ''anthropic-claude-x''" 0 None None 1]
      demo_entitled demo_members by simp
  moreover have "cooldown_until plain_env [(''retry-after'', Some ''60'')] [] demo_c2 = 60000" by code_simp
  moreover have m: "ps_members demo_pool ! 1 = demo_c2" by (simp add: demo_pool_def pool_new_with_created_def)
  moreover have "rejection_covers [(''retry-after'', Some ''60'')] demo_c2 ''anthropic-claude-x'' (canonical_model demo_route)"
    by code_simp
  ultimately show ?thesis
    using rejected_account_rests[of 1 demo_pool 59999 plain_env "[(''retry-after'', Some ''60'')]" "[]", OF _ _ _ refl,
        where route = demo_route and re = no_effects and recorded = "''anthropic-claude-x''"] demo_members
    by (auto simp del: One_nat_def)
qed

definition scoped_rejection :: header_map where
  "scoped_rejection =
     [(''anthropic-ratelimit-unified-status'', Some ''rejected''),
      (''anthropic-ratelimit-unified-representative-claim'', Some ''model''),
      (''anthropic-ratelimit-unified-5h-status'', Some ''allowed''),
      (''anthropic-ratelimit-unified-7d-status'', Some ''allowed'')]"

theorem aliased_rejection_forgotten_witness:
  "entitled demo_env demo_pool demo_route ''anthropic-claude-x'' 0 None None
     (fst (record_cooldown plain_env scoped_rejection [] (Some ''anthropic-claude-x'') (demo_c2, no_effects)))"
proof -
  have m: "ps_members demo_pool ! 1 = demo_c2" by (simp add: demo_pool_def pool_new_with_created_def)
  have "ac_kind demo_c2 = Claude" by code_simp
  moreover have "claude_model_scoped_rejection scoped_rejection" by code_simp
  moreover have "''anthropic-claude-x'' \<noteq> canonical_model demo_route" by (simp add: demo_route_def)
  ultimately show ?thesis using demo_entitled[unfolded m] by (rule aliased_rejection_forgotten)
qed

end
