(* ===== verification/Refresh_Coordinator.thy ===== *)
theory Refresh_Coordinator
  imports Prelude
begin

text \<open>
  The refresh coordinator, \<open>RefreshCoordinator\<close> of \<^verbatim>\<open>crates/gateway/src/runtime_state.rs\<close>, as a
  system of interleaved threads. Every atomic access of \<open>coordinate\<close> is a step: taking a request
  number, taking the lock, comparing with the completed number, reading the target, with which the
  action begins, and the end of the action, which stores the completed number and releases the lock.
  \<open>exclusive\<close> takes and releases the same lock. A clock counts the steps and a log
  holds the successful actions, so that claims can speak about what happened before what.
\<close>

section \<open>Steps\<close>

datatype outcome_of = Coalesced nat | Ran nat | ActionFailed string

datatype phase = Waiting | Locked | Due | Running (run_target: nat) (run_start: nat) | Returned outcome_of

record thread =
  my_req :: nat
  registered_at :: nat
  th_phase :: phase

datatype holder = ByRequest nat | ByExclusive

record coordinator =
  request_seq :: nat
  completed_seq :: nat
  lock_holder :: "holder option"
  threads :: "thread list"
  clock :: nat
  runs :: "(nat \<times> nat \<times> nat) list"

definition coordinator_default :: coordinator where
  "coordinator_default =
     \<lparr>request_seq = 0, completed_seq = 0, lock_holder = None, threads = [], clock = 0, runs = []\<rparr>"

definition set_phase :: "nat \<Rightarrow> phase \<Rightarrow> coordinator \<Rightarrow> coordinator" where
  "set_phase i p s = s\<lparr>threads := (threads s)[i := (threads s ! i)\<lparr>th_phase := p\<rparr>], clock := Suc (clock s)\<rparr>"

definition coordinate_register :: "coordinator \<Rightarrow> coordinator" where
  "coordinate_register s =
     (let req = u64_wrapping_add (request_seq s) 1
      in s\<lparr>request_seq := req, clock := Suc (clock s),
           threads := threads s @ [\<lparr>my_req = req, registered_at = clock s, th_phase = Waiting\<rparr>]\<rparr>)"

definition coordinate_lock :: "nat \<Rightarrow> coordinator \<Rightarrow> coordinator" where
  "coordinate_lock i s = (set_phase i Locked s)\<lparr>lock_holder := Some (ByRequest i)\<rparr>"

definition coordinate_enter :: "nat \<Rightarrow> coordinator \<Rightarrow> coordinator" where
  "coordinate_enter i s =
     (if completed_seq s \<ge> my_req (threads s ! i)
      then (set_phase i (Returned (Coalesced (completed_seq s))) s)\<lparr>lock_holder := None\<rparr>
      else set_phase i Due s)"

definition coordinate_target :: "nat \<Rightarrow> coordinator \<Rightarrow> coordinator" where
  "coordinate_target i s = set_phase i (Running (request_seq s) (clock s)) s"

definition coordinate_finish :: "nat \<Rightarrow> (string + nat) \<Rightarrow> coordinator \<Rightarrow> coordinator" where
  "coordinate_finish i result s =
     (case th_phase (threads s ! i) of
        Running target start \<Rightarrow>
          (case result of
             Inr gen \<Rightarrow>
               (set_phase i (Returned (Ran gen)) s)
                 \<lparr>completed_seq := target, lock_holder := None, runs := (start, clock s, target) # runs s\<rparr>
           | Inl e \<Rightarrow> (set_phase i (Returned (ActionFailed e)) s)\<lparr>lock_holder := None\<rparr>)
      | _ \<Rightarrow> s)"

definition exclusive_lock :: "coordinator \<Rightarrow> coordinator" where
  "exclusive_lock s = s\<lparr>lock_holder := Some ByExclusive, clock := Suc (clock s)\<rparr>"

definition exclusive_unlock :: "coordinator \<Rightarrow> coordinator" where
  "exclusive_unlock s = s\<lparr>lock_holder := None, clock := Suc (clock s)\<rparr>"

text \<open>Steps of requests that are already in the system, and arrivals\<close>

inductive progress :: "coordinator \<Rightarrow> coordinator \<Rightarrow> bool" where
  lock: "i < length (threads s) \<Longrightarrow> th_phase (threads s ! i) = Waiting \<Longrightarrow> lock_holder s = None \<Longrightarrow>
     progress s (coordinate_lock i s)"
| enter: "i < length (threads s) \<Longrightarrow> th_phase (threads s ! i) = Locked \<Longrightarrow>
     progress s (coordinate_enter i s)"
| target: "i < length (threads s) \<Longrightarrow> th_phase (threads s ! i) = Due \<Longrightarrow>
     progress s (coordinate_target i s)"
| finish: "i < length (threads s) \<Longrightarrow> th_phase (threads s ! i) = Running target start \<Longrightarrow>
     progress s (coordinate_finish i result s)"
| unlock: "lock_holder s = Some ByExclusive \<Longrightarrow> progress s (exclusive_unlock s)"

inductive co_step :: "coordinator \<Rightarrow> coordinator \<Rightarrow> bool" where
  progress: "progress s t \<Longrightarrow> co_step s t"
| register: "co_step s (coordinate_register s)"
| exclusive: "lock_holder s = None \<Longrightarrow> co_step s (exclusive_lock s)"

abbreviation reachable :: "coordinator \<Rightarrow> bool" where
  "reachable s \<equiv> co_step\<^sup>*\<^sup>* coordinator_default s"

section \<open>Invariant\<close>

definition served_after :: "coordinator \<Rightarrow> thread \<Rightarrow> bool" where
  "served_after s t \<longleftrightarrow> (\<exists>(start, stop, target) \<in> set (runs s). registered_at t < start \<and> start < stop)"

definition phase_ok :: "coordinator \<Rightarrow> nat \<Rightarrow> thread \<Rightarrow> bool" where
  "phase_ok s i t \<longleftrightarrow>
     (case th_phase t of
        Waiting \<Rightarrow> lock_holder s \<noteq> Some (ByRequest i)
      | Locked \<Rightarrow> lock_holder s = Some (ByRequest i)
      | Due \<Rightarrow> lock_holder s = Some (ByRequest i)
      | Running target start \<Rightarrow>
          lock_holder s = Some (ByRequest i) \<and> start < clock s \<and> i < target \<and> target \<le> length (threads s) \<and>
          (\<forall>j < target. registered_at (threads s ! j) < start)
      | Returned (ActionFailed e) \<Rightarrow> lock_holder s \<noteq> Some (ByRequest i)
      | Returned _ \<Rightarrow> lock_holder s \<noteq> Some (ByRequest i) \<and> served_after s t)"

definition run_ok :: "coordinator \<Rightarrow> nat \<times> nat \<times> nat \<Rightarrow> bool" where
  "run_ok s r \<longleftrightarrow>
     (case r of (start, stop, target) \<Rightarrow>
        start < stop \<and> stop < clock s \<and> target \<le> length (threads s) \<and>
        (\<forall>j < target. registered_at (threads s ! j) < start))"

definition coordinator_ok :: "coordinator \<Rightarrow> bool" where
  "coordinator_ok s \<longleftrightarrow>
     request_seq s = length (threads s) \<and>
     completed_seq s = (case runs s of [] \<Rightarrow> 0 | (_, _, target) # _ \<Rightarrow> target) \<and>
     (\<forall>r \<in> set (runs s). run_ok s r) \<and>
     (\<forall>i < length (threads s). my_req (threads s ! i) = Suc i \<and> registered_at (threads s ! i) < clock s \<and>
        phase_ok s i (threads s ! i)) \<and>
     (\<forall>i. lock_holder s = Some (ByRequest i) \<longrightarrow> i < length (threads s))"

lemma set_phase_simps [simp]:
  "request_seq (set_phase i p s) = request_seq s" "completed_seq (set_phase i p s) = completed_seq s"
  "lock_holder (set_phase i p s) = lock_holder s" "clock (set_phase i p s) = Suc (clock s)"
  "runs (set_phase i p s) = runs s" "length (threads (set_phase i p s)) = length (threads s)"
  "j < length (threads s) \<Longrightarrow> threads (set_phase i p s) ! j =
     (if i = j then (threads s ! j)\<lparr>th_phase := p\<rparr> else threads s ! j)"
  by (simp_all add: set_phase_def nth_list_update)

text \<open>A step that only adds threads, time and runs keeps what is known of the others.\<close>

definition later :: "coordinator \<Rightarrow> coordinator \<Rightarrow> bool" where
  "later s t \<longleftrightarrow>
     length (threads s) \<le> length (threads t) \<and> clock s \<le> clock t \<and> set (runs s) \<subseteq> set (runs t) \<and>
     (\<forall>k < length (threads s). registered_at (threads t ! k) = registered_at (threads s ! k))"

lemma run_ok_later: "later s t \<Longrightarrow> run_ok s r \<Longrightarrow> run_ok t r"
  by (auto simp: later_def run_ok_def)

lemma served_after_later: "later s t \<Longrightarrow> served_after s th \<Longrightarrow> served_after t th"
  by (auto simp: later_def served_after_def)

lemma phase_ok_later:
  assumes "later s t" "phase_ok s j th"
    and "lock_holder t = Some (ByRequest j) \<longleftrightarrow> lock_holder s = Some (ByRequest j)"
  shows "phase_ok t j th"
proof -
  have "target \<le> length (threads s) \<Longrightarrow> \<forall>j < target. registered_at (threads s ! j) < start \<Longrightarrow>
    \<forall>j < target. registered_at (threads t ! j) < start" for target start
    using assms(1) by (auto simp: later_def)
  with assms show ?thesis
    using served_after_later[OF assms(1)]
    by (auto simp: phase_ok_def later_def split: phase.splits outcome_of.splits)
qed

lemma later_set_phase [simp]: "later s (set_phase i p s)"
  by (auto simp: later_def)

text \<open>One thread moves: the others keep their part of the invariant.\<close>

lemma coordinator_ok_move:
  assumes ok: "coordinator_ok s" and i: "i < length (threads s)"
    and t: "threads t = threads (set_phase i p s)" "clock t = Suc (clock s)" "request_seq t = request_seq s"
    and r: "set (runs s) \<subseteq> set (runs t)" "\<forall>r \<in> set (runs t). r \<in> set (runs s) \<or> run_ok t r"
    and c: "completed_seq t = (case runs t of [] \<Rightarrow> 0 | (_, _, target) # _ \<Rightarrow> target)"
    and l: "\<And>j. j \<noteq> i \<Longrightarrow> lock_holder t = Some (ByRequest j) \<longleftrightarrow> lock_holder s = Some (ByRequest j)"
    and p: "phase_ok t i ((threads s ! i)\<lparr>th_phase := p\<rparr>)"
  shows "coordinator_ok t"
proof -
  have later: "later s t" using r(1) t by (auto simp: later_def)
  have "\<forall>r \<in> set (runs t). run_ok t r"
    using r(2) run_ok_later[OF later] ok unfolding coordinator_ok_def by blast
  moreover have "my_req (threads t ! j) = Suc j \<and> registered_at (threads t ! j) < clock t \<and> phase_ok t j (threads t ! j)"
    if j: "j < length (threads t)" for j
  proof (cases "j = i")
    case True
    with ok i p t show ?thesis by (auto simp: coordinator_ok_def)
  next
    case False
    with ok j t have "my_req (threads s ! j) = Suc j" "registered_at (threads s ! j) < clock s"
      "phase_ok s j (threads s ! j)" by (auto simp: coordinator_ok_def)
    with False j t phase_ok_later[OF later _ l[OF False]] show ?thesis by auto
  qed
  moreover have "k < length (threads t)" if "lock_holder t = Some (ByRequest k)" for k
    using that l[of k] ok i t by (cases "k = i") (auto simp: coordinator_ok_def)
  ultimately show ?thesis using ok c t by (simp add: coordinator_ok_def)
qed


lemma coordinate_lock_ok:
  assumes "coordinator_ok s" "i < length (threads s)" "lock_holder s = None"
  shows "coordinator_ok (coordinate_lock i s)"
  by (rule coordinator_ok_move[OF assms(1,2), where p = Locked])
    (use assms in \<open>auto simp: coordinate_lock_def coordinator_ok_def phase_ok_def\<close>)

lemma coordinator_okD:
  assumes "coordinator_ok s" "i < length (threads s)"
  shows "my_req (threads s ! i) = Suc i" "phase_ok s i (threads s ! i)"
    "registered_at (threads s ! i) < clock s" "request_seq s = length (threads s)"
    "completed_seq s = (case runs s of [] \<Rightarrow> 0 | (_, _, target) # _ \<Rightarrow> target)"
  using assms by (auto simp: coordinator_ok_def)

lemma coordinate_enter_ok:
  assumes ok: "coordinator_ok s" and i: "i < length (threads s)" and ph: "th_phase (threads s ! i) = Locked"
  shows "coordinator_ok (coordinate_enter i s)"
proof -
  note d = coordinator_okD[OF ok i]
  have h: "lock_holder s = Some (ByRequest i)" using d(2) ph by (simp add: phase_ok_def)
  show ?thesis
  proof (cases "completed_seq s \<ge> my_req (threads s ! i)")
    case True
    with d(1,5) obtain start stop target rs where runs: "runs s = (start, stop, target) # rs" "i < target"
      by (cases "runs s") auto
    then have "run_ok s (start, stop, target)" using ok by (auto simp: coordinator_ok_def)
    with runs have "served_after s (threads s ! i)" by (auto simp: served_after_def run_ok_def)
    with True show ?thesis
      by (intro coordinator_ok_move[OF ok i, where p = "Returned (Coalesced (completed_seq s))"])
        (use d(5) h in \<open>auto simp: coordinate_enter_def phase_ok_def served_after_def\<close>)
  next
    case False
    then show ?thesis
      by (intro coordinator_ok_move[OF ok i, where p = Due])
        (use d h i in \<open>auto simp: coordinate_enter_def phase_ok_def\<close>)
  qed
qed

lemma coordinate_target_ok:
  assumes ok: "coordinator_ok s" and i: "i < length (threads s)" and ph: "th_phase (threads s ! i) = Due"
  shows "coordinator_ok (coordinate_target i s)"
proof -
  note d = coordinator_okD[OF ok i]
  have h: "lock_holder s = Some (ByRequest i)" using d(2) ph by (simp add: phase_ok_def)
  have "registered_at (threads s ! j) < clock s" if "j < length (threads s)" for j
    using coordinator_okD(3)[OF ok that] .
  then show ?thesis
    by (intro coordinator_ok_move[OF ok i, where p = "Running (request_seq s) (clock s)"])
      (use d h i in \<open>auto simp: coordinate_target_def phase_ok_def nth_list_update\<close>)
qed

lemma coordinate_finish_ok:
  assumes ok: "coordinator_ok s" and i: "i < length (threads s)"
    and ph: "th_phase (threads s ! i) = Running target start"
  shows "coordinator_ok (coordinate_finish i result s)"
proof -
  note d = coordinator_okD[OF ok i]
  have h: "lock_holder s = Some (ByRequest i)" and run: "start < clock s" "i < target"
    "target \<le> length (threads s)" "\<forall>j < target. registered_at (threads s ! j) < start"
    using d(2) ph by (simp_all add: phase_ok_def)
  show ?thesis
  proof (cases result)
    case (Inl e)
    then show ?thesis
      by (intro coordinator_ok_move[OF ok i, where p = "Returned (ActionFailed e)"])
        (use d(5) h ph in \<open>auto simp: coordinate_finish_def phase_ok_def\<close>)
  next
    case (Inr gen)
    let ?t = "coordinate_finish i result s"
    have rok: "run_ok ?t (start, clock s, target)"
      using run ph Inr by (auto simp: coordinate_finish_def run_ok_def)
    show ?thesis
      by (intro coordinator_ok_move[OF ok i, where p = "Returned (Ran gen)"])
        (use d(5) h ph run Inr rok in \<open>auto simp: coordinate_finish_def phase_ok_def served_after_def\<close>)
  qed
qed

lemma coordinate_register_ok:
  assumes ok: "coordinator_ok s" and n: "length (threads s) < u64_max"
  shows "coordinator_ok (coordinate_register s)"
proof -
  let ?t = "coordinate_register s"
  have req: "u64_wrapping_add (request_seq s) 1 = Suc (length (threads s))"
    using ok n by (simp add: coordinator_ok_def u64_wrapping_add_exact)
  have later: "later s ?t" by (auto simp: later_def coordinate_register_def Let_def nth_append)
  have same: "lock_holder ?t = lock_holder s" "runs ?t = runs s" "completed_seq ?t = completed_seq s"
    "clock ?t = Suc (clock s)" "request_seq ?t = Suc (length (threads s))"
    by (simp_all add: coordinate_register_def Let_def req[simplified])
  have th: "threads ?t = threads s @ [\<lparr>my_req = Suc (length (threads s)), registered_at = clock s, th_phase = Waiting\<rparr>]"
    by (simp add: coordinate_register_def Let_def req[simplified])
  have "my_req (threads ?t ! j) = Suc j \<and> registered_at (threads ?t ! j) < clock ?t \<and> phase_ok ?t j (threads ?t ! j)"
    if j: "j < length (threads ?t)" for j
  proof (cases "j < length (threads s)")
    case True
    with coordinator_okD[OF ok True] phase_ok_later[OF later, of j "threads s ! j"] show ?thesis
      by (simp add: th nth_append same)
  next
    case False
    with j have "j = length (threads s)" by (simp add: th)
    moreover have "lock_holder s \<noteq> Some (ByRequest (length (threads s)))" using ok by (auto simp: coordinator_ok_def)
    ultimately show ?thesis by (simp add: th same phase_ok_def)
  qed
  moreover have "\<forall>r \<in> set (runs s). run_ok ?t r"
    using ok run_ok_later[OF later] by (auto simp: coordinator_ok_def)
  ultimately show ?thesis using ok by (auto simp: coordinator_ok_def same th)
qed

lemma exclusive_ok:
  assumes ok: "coordinator_ok s" and "\<And>i. lock_holder s \<noteq> Some (ByRequest i)" and "\<And>i. h \<noteq> Some (ByRequest i)"
  shows "coordinator_ok (s\<lparr>lock_holder := h, clock := Suc (clock s)\<rparr>)"
proof -
  let ?t = "s\<lparr>lock_holder := h, clock := Suc (clock s)\<rparr>"
  have later: "later s ?t" by (simp add: later_def)
  have "phase_ok ?t j (threads s ! j)" if "j < length (threads s)" for j
    using phase_ok_later[OF later] coordinator_okD(2)[OF ok that] assms(2,3) by simp
  with ok run_ok_later[OF later] assms(3) show ?thesis
    by (auto simp: coordinator_ok_def less_Suc_eq)
qed

lemma progress_ok: "progress s t \<Longrightarrow> coordinator_ok s \<Longrightarrow> coordinator_ok t"
proof (induction rule: progress.induct)
  case (unlock s)
  then show ?case unfolding exclusive_unlock_def by (intro exclusive_ok) auto
qed (auto intro: coordinate_lock_ok coordinate_enter_ok coordinate_target_ok coordinate_finish_ok)

lemma threads_grow: "co_step s t \<Longrightarrow> length (threads s) \<le> length (threads t)"
  by (auto elim!: co_step.cases progress.cases
      simp: coordinate_lock_def coordinate_enter_def coordinate_target_def coordinate_finish_def
        coordinate_register_def exclusive_lock_def exclusive_unlock_def Let_def split: sum.splits phase.splits)

lemma reachable_ok: "reachable s \<Longrightarrow> length (threads s) \<le> u64_max \<Longrightarrow> coordinator_ok s"
proof (induction rule: rtranclp_induct)
  case base
  then show ?case by (simp add: coordinator_ok_def coordinator_default_def)
next
  case (step s t)
  then have ok: "coordinator_ok s" using threads_grow[OF step(2)] by simp
  from step(2) show ?case
  proof cases
    case progress
    then show ?thesis using ok by (rule progress_ok)
  next
    case register
    then show ?thesis using coordinate_register_ok[OF ok] step(4) by (simp add: coordinate_register_def Let_def)
  next
    case exclusive
    then show ?thesis using exclusive_ok[OF ok, of "Some ByExclusive"] by (simp add: exclusive_lock_def)
  qed
qed

section \<open>Guarantees\<close>

text \<open>
  C16. A refresh request that returns successfully has been served: whether it ran the action or was
  coalesced into another request, some recomputation of the composition began after the request
  was made and completed. The claim holds for every interleaving of any number of requests and of
  exclusive mutations, as long as fewer than \<open>2 ^ 64\<close> requests are made.
\<close>

theorem refresh_request_is_served:
  assumes "reachable s" and "length (threads s) \<le> u64_max" and "t \<in> set (threads s)"
    and "th_phase t = Returned (Coalesced n) \<or> th_phase t = Returned (Ran n)"
  shows "\<exists>(start, stop, target) \<in> set (runs s). registered_at t < start \<and> start < stop"
proof -
  obtain i where "i < length (threads s)" "t = threads s ! i" using assms(3) by (auto simp: in_set_conv_nth)
  then have "phase_ok s i t" using coordinator_okD(2)[OF reachable_ok[OF assms(1,2)]] by blast
  with assms(4) have "served_after s t" by (auto simp: phase_ok_def)
  then show ?thesis by (simp add: served_after_def)
qed

text \<open>Work left: the steps that the requests in the system still have to make\<close>

fun steps_left :: "phase \<Rightarrow> nat" where
  "steps_left Waiting = 4"
| "steps_left Locked = 3"
| "steps_left Due = 2"
| "steps_left (Running target start) = 1"
| "steps_left (Returned r) = 0"

definition work :: "coordinator \<Rightarrow> nat" where
  "work s = sum_list (map (\<lambda>t. steps_left (th_phase t)) (threads s)) +
     (if lock_holder s = Some ByExclusive then 1 else 0)"

lemma sum_list_move:
  assumes "i < length ts" "f x < f (ts ! i)"
  shows "sum_list (map f (ts[i := x])) < (sum_list (map f ts) :: nat)"
  using assms
proof (induction ts arbitrary: i)
  case (Cons y ts)
  then show ?case by (cases i) auto
qed simp

lemma progress_works: "progress s t \<Longrightarrow> coordinator_ok s \<Longrightarrow> work t < work s"
proof (induction rule: progress.induct)
  case (unlock s)
  then show ?case by (simp add: work_def exclusive_unlock_def)
next
  case (finish i s target start result)
  then have "lock_holder s = Some (ByRequest i)" by (auto dest: coordinator_okD(2) simp: phase_ok_def)
  with finish show ?case
    by (auto simp: work_def coordinate_finish_def set_phase_def intro!: sum_list_move split: sum.splits)
next
  case (enter i s)
  then have "lock_holder s = Some (ByRequest i)" by (auto dest: coordinator_okD(2) simp: phase_ok_def)
  with enter show ?case
    by (auto simp: work_def coordinate_enter_def set_phase_def intro!: sum_list_move)
next
  case (target i s)
  then have "lock_holder s = Some (ByRequest i)" by (auto dest: coordinator_okD(2) simp: phase_ok_def)
  with target show ?case
    by (auto simp: work_def coordinate_target_def set_phase_def intro!: sum_list_move)
next
  case (lock i s)
  then show ?case
    by (auto simp: work_def coordinate_lock_def set_phase_def intro!: sum_list_move)
qed

text \<open>
  C17. The coordinator neither deadlocks nor starves a request once arrivals stop: in every
  reachable state either all requests have returned and the lock is free, or some request or the
  holder of the lock can move, and every such move lessens the work that is left. So after at most
  \<open>work s\<close> moves every request has returned, in any schedule.
\<close>

theorem coordinator_always_finishes:
  assumes "reachable s" and "length (threads s) \<le> u64_max"
  shows "((\<forall>t \<in> set (threads s). \<exists>r. th_phase t = Returned r) \<and> lock_holder s = None \<or> (\<exists>t. progress s t)) \<and>
    (\<forall>t. progress s t \<longrightarrow> work t < work s)"
proof -
  note ok = reachable_ok[OF assms]
  have "\<exists>t. progress s t" if stuck: "\<not> ((\<forall>t \<in> set (threads s). \<exists>r. th_phase t = Returned r) \<and> lock_holder s = None)"
  proof (cases "lock_holder s")
    case None
    with stuck obtain i where i: "i < length (threads s)" "\<nexists>r. th_phase (threads s ! i) = Returned r"
      by (auto simp: in_set_conv_nth)
    with coordinator_okD(2)[OF ok i(1)] None have "th_phase (threads s ! i) = Waiting"
      by (cases "th_phase (threads s ! i)") (auto simp: phase_ok_def)
    with i None show ?thesis by (blast intro: progress.lock)
  next
    case (Some h)
    show ?thesis
    proof (cases h)
      case ByExclusive
      with Some show ?thesis by (blast intro: progress.unlock)
    next
      case (ByRequest i)
      with Some ok have i: "i < length (threads s)" by (simp add: coordinator_ok_def)
      with coordinator_okD(2)[OF ok i] Some ByRequest show ?thesis
        by (cases "th_phase (threads s ! i)")
          (auto simp: phase_ok_def split: outcome_of.splits
            intro: progress.enter[OF i] progress.target[OF i] progress.finish[OF i, where result = "Inl []"])
    qed
  qed
  with progress_works ok show ?thesis by blast
qed

section \<open>Witnesses\<close>

text \<open>Two requests arrive before the first runs; the second is coalesced.\<close>

definition coalesced_run :: coordinator where
  "coalesced_run =
     coordinate_enter 1 (coordinate_lock 1 (coordinate_finish 0 (Inr 7) (coordinate_target 0 (coordinate_enter 0
       (coordinate_lock 0 (coordinate_register (coordinate_register coordinator_default)))))))"

lemmas coordinator_eval = coalesced_run_def coordinator_default_def coordinate_register_def
  coordinate_lock_def coordinate_enter_def coordinate_target_def coordinate_finish_def set_phase_def Let_def
  u64_wrapping_add_def

lemma coalesced_run_state:
  "coalesced_run =
     \<lparr>request_seq = 2, completed_seq = 2, lock_holder = None,
      threads = [\<lparr>my_req = 1, registered_at = 0, th_phase = Returned (Ran 7)\<rparr>,
                 \<lparr>my_req = 2, registered_at = 1, th_phase = Returned (Coalesced 2)\<rparr>],
      clock = 8, runs = [(4, 5, 2)]\<rparr>"
  by (simp add: coordinator_eval)

lemma coalesced_run_reachable: "reachable coalesced_run"
proof -
  let ?a = "coordinate_register (coordinate_register coordinator_default)"
  let ?b = "coordinate_lock 0 ?a" let ?r = "coordinate_enter 0 ?b" let ?c = "coordinate_target 0 ?r"
  let ?d = "coordinate_finish 0 (Inr 7) ?c"
  let ?e = "coordinate_lock 1 ?d"
  have "reachable ?a" by (meson co_step.register rtranclp.rtrancl_into_rtrancl rtranclp.rtrancl_refl)
  moreover have "co_step ?a ?b" by (rule co_step.progress, rule progress.lock) (simp_all add: coordinator_eval)
  moreover have "co_step ?b ?r" by (rule co_step.progress, rule progress.enter) (simp_all add: coordinator_eval)
  moreover have "co_step ?r ?c" by (rule co_step.progress, rule progress.target) (simp_all add: coordinator_eval)
  moreover have "co_step ?c ?d"
    by (rule co_step.progress, rule progress.finish[where target = 2 and start = 4]) (simp_all add: coordinator_eval)
  moreover have "co_step ?d ?e" by (rule co_step.progress, rule progress.lock) (simp_all add: coordinator_eval)
  moreover have "co_step ?e coalesced_run"
    unfolding coalesced_run_def by (rule co_step.progress, rule progress.enter) (simp_all add: coordinator_eval)
  ultimately show ?thesis by (meson rtranclp.rtrancl_into_rtrancl)
qed

theorem refresh_request_is_served_witness:
  "\<exists>(start, stop, target) \<in> set (runs coalesced_run).
     registered_at (threads coalesced_run ! 1) < start \<and> start < stop"
  by (rule refresh_request_is_served[OF coalesced_run_reachable, where n = 2])
    (simp_all add: coalesced_run_state u64_max_def)

theorem coordinator_always_finishes_witness:
  "\<exists>t. progress (coordinate_register coordinator_default) t"
proof -
  have "reachable (coordinate_register coordinator_default)"
    by (meson co_step.register r_into_rtranclp)
  from coordinator_always_finishes[OF this] show ?thesis
    by (simp add: coordinator_eval u64_max_def)
qed

end
