(* ===== verification/Catalog_Settings.thy ===== *)
theory Catalog_Settings
  imports Registry_Snapshot_Props Provider_Account Json
begin

text \<open>
  The settings that shape the model registry, \<^verbatim>\<open>crates/gateway/src/management/settings.rs\<close>: aliases
  in the notations that are accepted, exclusions, the catalog block and the warm-up policies, and
  their validation against a registry snapshot. URL parsing is an argument.
\<close>

section \<open>Warm-up policies\<close>

record warmup_provider_policy =
  wp_enabled :: bool
  wp_model :: "string option"
  wp_idle_secs :: nat
  wp_min_interval_secs :: nat

definition warmup_provider_policy_default :: warmup_provider_policy where
  "warmup_provider_policy_default =
     \<lparr>wp_enabled = False, wp_model = None, wp_idle_secs = 3600, wp_min_interval_secs = 300\<rparr>"

datatype warmup_account_policy =
    WarmInherit
  | WarmOff
  | WarmCustom "string option" nat nat

record effective_warmup_policy =
  ew_enabled :: bool
  ew_model :: "string option"
  ew_idle_secs :: nat
  ew_min_interval_secs :: nat

record warmup_settings =
  ws_providers :: "(string, warmup_provider_policy) omap"
  ws_accounts :: "(string, warmup_account_policy) omap"

datatype settings_error =
    SeValidation registry_error
  | InvalidCatalogConfig string
  | InvalidWarmupPolicy string

definition warmup_bounds :: "string \<Rightarrow> nat \<Rightarrow> nat \<Rightarrow> settings_error + unit" where
  "warmup_bounds owner idle min_interval =
     (if \<not> (1 \<le> idle \<and> idle \<le> 86400)
      then Inl (InvalidWarmupPolicy (owner @ '' idle_secs '' @ dec_of_nat idle @ '' out of bounds (1..=86400)''))
      else if \<not> (1 \<le> min_interval \<and> min_interval \<le> 604800)
      then Inl (InvalidWarmupPolicy
             (owner @ '' min_interval_secs '' @ dec_of_nat min_interval @ '' out of bounds (1..=604800)''))
      else Inr ())"

definition validate_provider_policy :: "string \<Rightarrow> warmup_provider_policy \<Rightarrow> settings_error + unit" where
  "validate_provider_policy provider p =
     warmup_bounds (''provider '' @ [CHR 0x27] @ provider @ [CHR 0x27]) (wp_idle_secs p) (wp_min_interval_secs p)"

fun validate_account_policy :: "string \<Rightarrow> warmup_account_policy \<Rightarrow> settings_error + unit" where
  "validate_account_policy account_id (WarmCustom model idle min_interval) =
     warmup_bounds (''account '' @ [CHR 0x27] @ account_id @ [CHR 0x27]) idle min_interval"
| "validate_account_policy account_id _ = Inr ()"

definition warmup_validate :: "warmup_settings \<Rightarrow> settings_error + unit" where
  "warmup_validate ws =
     rbind (try_each (\<lambda>(provider, p). validate_provider_policy provider p) (ws_providers ws)) (\<lambda>_.
       try_each (\<lambda>(account_id, p). validate_account_policy account_id p) (ws_accounts ws))"

definition effective_provider_policy :: "warmup_settings \<Rightarrow> string \<Rightarrow> warmup_provider_policy" where
  "effective_provider_policy ws provider =
     (case omap_get (ws_providers ws) provider of
        Some p \<Rightarrow> p | None \<Rightarrow> warmup_provider_policy_default)"

definition effective_account_policy :: "warmup_settings \<Rightarrow> string \<Rightarrow> string \<Rightarrow> effective_warmup_policy" where
  "effective_account_policy ws provider account_id =
     (let p = effective_provider_policy ws provider in
      case (case omap_get (ws_accounts ws) account_id of Some a \<Rightarrow> a | None \<Rightarrow> WarmInherit) of
        WarmInherit \<Rightarrow>
          \<lparr>ew_enabled = wp_enabled p, ew_model = wp_model p, ew_idle_secs = wp_idle_secs p,
           ew_min_interval_secs = wp_min_interval_secs p\<rparr>
      | WarmOff \<Rightarrow>
          \<lparr>ew_enabled = False, ew_model = None, ew_idle_secs = wp_idle_secs p,
           ew_min_interval_secs = wp_min_interval_secs p\<rparr>
      | WarmCustom model idle min_interval \<Rightarrow>
          \<lparr>ew_enabled = True, ew_model = model, ew_idle_secs = idle, ew_min_interval_secs = min_interval\<rparr>)"

lemma warmup_bounds_Inr:
  "warmup_bounds owner idle iv = Inr () \<longleftrightarrow> 1 \<le> idle \<and> idle \<le> 86400 \<and> 1 \<le> iv \<and> iv \<le> 604800"
  by (auto simp: warmup_bounds_def)

text \<open>
  Validated settings never give an account a policy outside the bounds, whatever provider and
  account are asked for: the warm-up task can neither spin nor starve.
\<close>

theorem effective_policy_bounded:
  assumes "warmup_validate ws = Inr ()"
  shows "1 \<le> ew_idle_secs (effective_account_policy ws provider account_id) \<and>
    ew_idle_secs (effective_account_policy ws provider account_id) \<le> 86400 \<and>
    1 \<le> ew_min_interval_secs (effective_account_policy ws provider account_id) \<and>
    ew_min_interval_secs (effective_account_policy ws provider account_id) \<le> 604800"
proof -
  have ps: "(n, p) \<in> set (ws_providers ws) \<Longrightarrow> validate_provider_policy n p = Inr ()" for n p
    using assms by (auto simp: warmup_validate_def try_each_Inr)
  have acs: "omap_get (ws_accounts ws) n = Some a \<Longrightarrow> validate_account_policy n a = Inr ()" for n a
    using assms by (auto simp: warmup_validate_def try_each_Inr dest: map_of_SomeD)
  have p: "1 \<le> wp_idle_secs (effective_provider_policy ws provider) \<and>
      wp_idle_secs (effective_provider_policy ws provider) \<le> 86400 \<and>
      1 \<le> wp_min_interval_secs (effective_provider_policy ws provider) \<and>
      wp_min_interval_secs (effective_provider_policy ws provider) \<le> 604800"
    using ps[OF map_of_SomeD]
    by (auto simp: effective_provider_policy_def warmup_provider_policy_default_def validate_provider_policy_def
        warmup_bounds_Inr split: option.splits)
  show ?thesis
    using p acs[of account_id]
    by (auto simp: effective_account_policy_def Let_def warmup_bounds_Inr
        split: option.splits warmup_account_policy.splits)
qed

section \<open>Aliases and exclusions\<close>

record model_catalog_settings =
  refresh_enabled :: bool
  mc_url :: string
  mc_signature_url :: string
  refresh_interval_secs :: nat
  mc_allowed_blackouts :: "string list"
  mc_custom_models :: "model_descriptor list"

record catalog_settings =
  oauth_model_alias :: json
  oauth_excluded_models :: "(string, string list) omap"
  model_catalog :: "model_catalog_settings option"
  warmup :: warmup_settings

definition lift_registry :: "registry_error + 'a \<Rightarrow> settings_error + 'a" where
  "lift_registry r = map_sum SeValidation (\<lambda>x. x) r"

definition alias_rule ::
  "provider_id option \<Rightarrow> string \<Rightarrow> string \<Rightarrow> settings_error + model_alias_rule" where
  "alias_rule pid alias_str target_str =
     rbind (lift_registry (model_id_new alias_str)) (\<lambda>a.
     rbind (lift_registry (model_id_new target_str)) (\<lambda>t.
       Inr \<lparr>ar_alias = a, ar_target = t, ar_provider_id = pid\<rparr>))"

text \<open>The first of the given fields that is a string\<close>

fun first_str :: "(string, json) omap \<Rightarrow> string list \<Rightarrow> string option" where
  "first_str obj [] = None"
| "first_str obj (k # ks) =
     (case Option.bind (omap_get obj k) json_as_str of Some s \<Rightarrow> Some s | None \<Rightarrow> first_str obj ks)"

definition item_names :: "(string, json) omap \<Rightarrow> settings_error + string \<times> string" where
  "item_names obj =
     (case first_str obj [''alias'', ''from''] of
        None \<Rightarrow> Inl (InvalidCatalogConfig (''alias item missing '' @ [CHR 0x27] @ ''alias'' @ [CHR 0x27] @ '' field''))
      | Some a \<Rightarrow>
          (case first_str obj [''name'', ''target'', ''model'', ''to''] of
             None \<Rightarrow> Inl (InvalidCatalogConfig
                       (''alias item missing '' @ [CHR 0x27] @ ''name'' @ [CHR 0x27] @ '' or '' @ [CHR 0x27] @
                        ''target'' @ [CHR 0x27] @ '' field''))
           | Some t \<Rightarrow> Inr (a, t)))"

definition provider_item :: "provider_id \<Rightarrow> json \<Rightarrow> settings_error + model_alias_rule" where
  "provider_item pid item =
     (case json_as_object item of
        None \<Rightarrow> Inl (InvalidCatalogConfig ''alias item in array must be an object'')
      | Some obj \<Rightarrow> rbind (item_names obj) (\<lambda>(a, t). alias_rule (Some pid) a t))"

definition top_level_item :: "json \<Rightarrow> settings_error + model_alias_rule" where
  "top_level_item item =
     (case json_as_object item of
        None \<Rightarrow> Inl (InvalidCatalogConfig ''top-level alias array item must be an object'')
      | Some obj \<Rightarrow>
          rbind (item_names obj) (\<lambda>(a, t).
          rbind (case Option.bind (case omap_get obj ''provider'' of Some v \<Rightarrow> Some v
                                   | None \<Rightarrow> omap_get obj ''provider_id'') json_as_str of
                   Some p \<Rightarrow> if trim p = [] then Inr None
                             else map_sum SeValidation Some (provider_id_canonical p)
                 | None \<Rightarrow> Inr None) (\<lambda>pid.
            alias_rule pid a t)))"

text \<open>\<open>for item in items { rules.push(parse(item)?); }\<close>\<close>

definition push_each :: "('a \<Rightarrow> 'e + 'r) \<Rightarrow> 'r list \<Rightarrow> 'a list \<Rightarrow> 'e + 'r list" where
  "push_each parse rules items = try_fold (\<lambda>rs item. map_sum (\<lambda>e. e) (\<lambda>r. rs @ [r]) (parse item)) rules items"

definition inner_alias :: "provider_id \<Rightarrow> string \<times> json \<Rightarrow> settings_error + model_alias_rule" where
  "inner_alias pid entry =
     (case json_as_str (snd entry) of
        None \<Rightarrow> Inl (InvalidCatalogConfig
                  (''alias target for '' @ [CHR 0x27] @ fst entry @ [CHR 0x27] @ '' must be a string''))
      | Some t \<Rightarrow> alias_rule (Some pid) (fst entry) t)"

definition alias_entry ::
  "model_alias_rule list \<Rightarrow> string \<times> json \<Rightarrow> settings_error + model_alias_rule list" where
  "alias_entry rules entry =
     (let (key, val) = entry in
      case val of
        JString target \<Rightarrow> map_sum (\<lambda>e. e) (\<lambda>r. rules @ [r]) (alias_rule None key target)
      | JObject inner \<Rightarrow>
          rbind (lift_registry (provider_id_canonical key)) (\<lambda>pid. push_each (inner_alias pid) rules inner)
      | JArray items \<Rightarrow>
          rbind (lift_registry (provider_id_canonical key)) (\<lambda>pid. push_each (provider_item pid) rules items)
      | _ \<Rightarrow> Inl (InvalidCatalogConfig
               (''unsupported alias value format for key '' @ [CHR 0x27] @ key @ [CHR 0x27])))"

definition alias_root :: "json \<Rightarrow> json" where
  "alias_root v =
     (case v of
        JObject [(k, inner)] \<Rightarrow> if k = ''items'' then inner else v
      | _ \<Rightarrow> v)"

definition parse_model_aliases :: "catalog_settings \<Rightarrow> settings_error + model_alias_rule list" where
  "parse_model_aliases s =
     (if oauth_model_alias s = JNull then Inr []
      else case alias_root (oauth_model_alias s) of
             JObject m \<Rightarrow> try_fold alias_entry [] m
           | JArray items \<Rightarrow> push_each top_level_item [] items
           | _ \<Rightarrow> Inl (InvalidCatalogConfig ''oauth-model-alias must be an object or array''))"

definition exclusion_provider :: "string \<Rightarrow> settings_error + provider_id option" where
  "exclusion_provider p =
     (if p = ''*'' \<or> p = [] \<or> eq_ignore_ascii_case p ''all'' then Inr None
      else map_sum SeValidation Some (provider_id_canonical p))"

definition parse_model_exclusions :: "catalog_settings \<Rightarrow> settings_error + model_exclusion_rule list" where
  "parse_model_exclusions s =
     try_fold (\<lambda>rules (provider_str, models).
         rbind (exclusion_provider provider_str) (\<lambda>pid.
           push_each (\<lambda>m. map_sum SeValidation (\<lambda>m. ModelExclusionRule m pid) (model_id_new m)) rules models))
       [] (oauth_excluded_models s)"

section \<open>Validation against a snapshot\<close>

record parsed_url =
  url_scheme :: string
  url_host :: "string option"
  url_username :: string
  url_password :: "string option"

definition loopback_names :: "string list" where "loopback_names = [''127.0.0.1'', ''localhost'']"

definition validate_catalog_url ::
  "(string \<Rightarrow> string + parsed_url) \<Rightarrow> string \<Rightarrow> string \<Rightarrow> settings_error + unit" where
  "validate_catalog_url url_parse url_str field_name =
     (if trim url_str = [] then Inr ()
      else case url_parse url_str of
        Inl e \<Rightarrow> Inl (InvalidCatalogConfig
                   (''invalid '' @ field_name @ '' '' @ [CHR 0x27] @ url_str @ [CHR 0x27] @ '': '' @ e))
      | Inr u \<Rightarrow>
          let host = (case url_host u of Some h \<Rightarrow> h | None \<Rightarrow> []) in
          if host = []
          then Inl (InvalidCatalogConfig
                 (field_name @ '' must contain a non-empty host: '' @ [CHR 0x27] @ url_str @ [CHR 0x27]))
          else if url_scheme u \<noteq> ''https'' \<and> \<not> (url_scheme u = ''http'' \<and> host \<in> set loopback_names)
          then Inl (InvalidCatalogConfig (''insecure '' @ field_name @ '' scheme '' @ [CHR 0x27] @ url_scheme u @
                 [CHR 0x27] @ '': must be https (http only permitted for 127.0.0.1/localhost)''))
          else if url_username u \<noteq> [] \<or> url_password u \<noteq> None
          then Inl (InvalidCatalogConfig (field_name @ '' must not contain embedded user/password credentials''))
          else Inr ())"

definition catalog_block ::
  "(string \<Rightarrow> string + parsed_url) \<Rightarrow> model_catalog_settings option \<Rightarrow>
   settings_error + provider_id list \<times> model_descriptor list" where
  "catalog_block url_parse cat =
     (case cat of
        None \<Rightarrow> Inr ([], [])
      | Some c \<Rightarrow>
          rbind (validate_catalog_url url_parse (mc_url c) ''catalog url'') (\<lambda>_.
          rbind (validate_catalog_url url_parse (mc_signature_url c) ''signature url'') (\<lambda>_.
          rbind (push_each (\<lambda>p. lift_registry (provider_id_canonical p)) [] (mc_allowed_blackouts c)) (\<lambda>allowed.
            Inr (allowed, mc_custom_models c)))))"

definition validate_against_registry ::
  "(string \<Rightarrow> string + parsed_url) \<Rightarrow> catalog_settings \<Rightarrow> registry_snapshot \<Rightarrow>
   settings_error + registry_snapshot" where
  "validate_against_registry url_parse s snapshot =
     rbind (warmup_validate (warmup s)) (\<lambda>_.
     rbind (parse_model_aliases s) (\<lambda>al.
     rbind (parse_model_exclusions s) (\<lambda>exclusions.
     rbind (catalog_block url_parse (model_catalog s)) (\<lambda>(allowed, custom).
       lift_registry (compose_with_settings snapshot al (oset_of exclusions) custom allowed)))))"

end
