(* ===== verification/Catalog_Manager.thy ===== *)
theory Catalog_Manager
  imports Catalog_Settings Registry_Envelope Runtime_Props
begin

text \<open>
  The life of the model catalog, \<^verbatim>\<open>crates/gateway/src/registry/cache.rs\<close> and \<open>manager.rs\<close>: the
  last-known-good file, boot, verified updates that write the file and publish to the runtime
  state in one commit, the conditional fetch, and the queue of refreshes. Cryptography, JSON, URL
  parsing and the texts that \<open>thiserror\<close> derives for errors are fields of an argument; answers of the
  network and faults of the file system are arguments of the operations.
\<close>

section \<open>Packages and errors\<close>

text \<open>\<open>String::from_utf8\<close>\<close>

definition byte_in :: "nat \<Rightarrow> nat \<Rightarrow> char \<Rightarrow> bool" where
  "byte_in lo hi c \<longleftrightarrow> lo \<le> of_char c \<and> of_char c \<le> hi"

definition utf8_tail :: "char \<Rightarrow> bool" where "utf8_tail c = byte_in 0x80 0xBF c"

fun utf8_valid :: "string \<Rightarrow> bool" where
  "utf8_valid [] = True"
| "utf8_valid (a # rest) =
     (if byte_in 0 0x7F a then utf8_valid rest
      else case rest of
        [] \<Rightarrow> False
      | b # rest2 \<Rightarrow>
          if byte_in 0xC2 0xDF a then utf8_tail b \<and> utf8_valid rest2
          else case rest2 of
            [] \<Rightarrow> False
          | c # rest3 \<Rightarrow>
              if byte_in 0xE0 0xE0 a then byte_in 0xA0 0xBF b \<and> utf8_tail c \<and> utf8_valid rest3
              else if byte_in 0xE1 0xEC a \<or> byte_in 0xEE 0xEF a then utf8_tail b \<and> utf8_tail c \<and> utf8_valid rest3
              else if byte_in 0xED 0xED a then byte_in 0x80 0x9F b \<and> utf8_tail c \<and> utf8_valid rest3
              else case rest3 of
                [] \<Rightarrow> False
              | d # rest4 \<Rightarrow>
                  (if byte_in 0xF0 0xF0 a then byte_in 0x90 0xBF b
                   else if byte_in 0xF1 0xF3 a then utf8_tail b
                   else byte_in 0xF4 0xF4 a \<and> byte_in 0x80 0x8F b) \<and>
                  utf8_tail c \<and> utf8_tail d \<and> utf8_valid rest4)"

record 'v catalog_package =
  pk_envelope :: catalog_envelope
  pk_payload :: 'v
  pk_raw_payload :: "string option"

text \<open>\<open>CatalogError\<close>; an I/O error of the kind \<open>NotFound\<close>, which boot tells apart, is \<open>CatNotFound\<close>.\<close>

datatype catalog_error =
    CatNotFound
  | CatIo string
  | CatSerialization string
  | CatRegistry registry_error
  | CatVerification catalog_verification_error
  | CatHttp string
  | RemoteUnpublished
  | CatInvalidState string

record ('k, 'sk, 'v) catalog_lib =
  cl_codec :: "('k, 'sk, 'v) catalog_codec"
  cl_package_parse :: "string \<Rightarrow> string + 'v catalog_package"
  cl_package_print :: "'v catalog_package \<Rightarrow> string + string"
  cl_envelope_parse :: "string \<Rightarrow> string + catalog_envelope"
  cl_url_parse :: "string \<Rightarrow> string + parsed_url"
  cl_host_of :: "string \<Rightarrow> string option"
  cl_error_text :: "catalog_error \<Rightarrow> string"
  cl_settings_text :: "settings_error \<Rightarrow> string"
  cl_runtime_text :: "runtime_error \<Rightarrow> string"

definition package_new ::
  "('k, 'sk, 'v) catalog_lib \<Rightarrow> catalog_envelope \<Rightarrow> string \<Rightarrow> catalog_error + 'v catalog_package" where
  "package_new lib env raw =
     (case cc_json_parse (cl_codec lib) raw of
        Inl e \<Rightarrow> Inl (CatSerialization e)
      | Inr v \<Rightarrow>
          if utf8_valid raw then Inr \<lparr>pk_envelope = env, pk_payload = v, pk_raw_payload = Some raw\<rparr>
          else Inl (CatInvalidState ''canonical payload is not valid UTF-8''))"

definition payload_bytes :: "('k, 'sk, 'v) catalog_lib \<Rightarrow> 'v catalog_package \<Rightarrow> catalog_error + string" where
  "payload_bytes lib p =
     (let recomputed =
            (case cc_json_print (cl_codec lib) (pk_payload p) of
               Inl e \<Rightarrow> Inl (CatSerialization e)
             | Inr out \<Rightarrow> map_sum CatVerification (\<lambda>b. b) (canonicalize_json (cl_codec lib) out))
      in case pk_raw_payload p of
           None \<Rightarrow> recomputed
         | Some raw \<Rightarrow> if is_canonical_json (cl_codec lib) raw = Inr True then Inr raw else recomputed)"

definition package_verify ::
  "('k, 'sk, 'v) catalog_lib \<Rightarrow> 'v catalog_package \<Rightarrow> 'k keyring \<Rightarrow> catalog_version option \<Rightarrow>
   catalog_version option \<Rightarrow> nat \<Rightarrow> nat \<Rightarrow> catalog_error + registry_snapshot" where
  "package_verify lib p kr act lkg now skew =
     rbind (payload_bytes lib p) (\<lambda>bytes.
       map_sum CatVerification (\<lambda>s. s)
         (verify_catalog_envelope (cl_codec lib) (pk_envelope p) bytes kr act lkg now skew))"

fun rejection_reason :: "catalog_error \<Rightarrow> string" where
  "rejection_reason CatNotFound = ''io''"
| "rejection_reason (CatIo _) = ''io''"
| "rejection_reason (CatSerialization _) = ''serialization''"
| "rejection_reason (CatRegistry _) = ''registry''"
| "rejection_reason (CatVerification _) = ''verification''"
| "rejection_reason (CatHttp _) = ''http''"
| "rejection_reason RemoteUnpublished = ''unpublished''"
| "rejection_reason (CatInvalidState _) = ''invalid_state''"

section \<open>The last-known-good file\<close>

text \<open>The file is \<open>None\<close> when it does not exist; \<open>fault\<close> is an error of reading it.\<close>

definition lkg_load_with_generated_at ::
  "('k, 'sk, 'v) catalog_lib \<Rightarrow> 'k keyring \<Rightarrow> nat \<Rightarrow> nat \<Rightarrow> string option \<Rightarrow> string option \<Rightarrow>
   catalog_error + registry_snapshot \<times> nat" where
  "lkg_load_with_generated_at lib kr now skew fault file =
     (case file of
        None \<Rightarrow> Inl CatNotFound
      | Some raw \<Rightarrow>
          (case fault of
             Some e \<Rightarrow> Inl (CatIo e)
           | None \<Rightarrow>
               (case cl_package_parse lib raw of
                  Inl e \<Rightarrow> Inl (CatSerialization e)
                | Inr p \<Rightarrow>
                    rbind (package_verify lib p kr None None now skew) (\<lambda>s.
                      Inr (s\<lparr>rg_source := LkgCache\<rparr>, generated_at (pk_envelope p))))))"

datatype open_outcome = Opened | AlreadyExists | OpenFailed string

record write_faults =
  wf_create_dir :: "string option"
  wf_open :: "nat \<Rightarrow> open_outcome"
  wf_permissions :: "string option"
  wf_write :: "string option"
  wf_sync :: "string option"
  wf_rename :: "string option"

text \<open>At most 128 names are tried for the temporary file.\<close>

fun open_temp :: "(nat \<Rightarrow> open_outcome) \<Rightarrow> nat \<Rightarrow> nat \<Rightarrow> catalog_error + unit" where
  "open_temp outcome i 0 =
     Inl (CatIo ''failed to create temporary file for atomic write after 128 attempts'')"
| "open_temp outcome i (Suc n) =
     (case outcome i of
        Opened \<Rightarrow> Inr ()
      | AlreadyExists \<Rightarrow> open_temp outcome (Suc i) n
      | OpenFailed e \<Rightarrow> Inl (CatIo e))"

definition io_step :: "string option \<Rightarrow> catalog_error + unit" where
  "io_step fault = (case fault of None \<Rightarrow> Inr () | Some e \<Rightarrow> Inl (CatIo e))"

definition write_atomically ::
  "('k, 'sk, 'v) catalog_lib \<Rightarrow> write_faults \<Rightarrow> catalog_envelope \<Rightarrow> string \<Rightarrow> string option \<Rightarrow>
   (catalog_error + unit) \<times> string option" where
  "write_atomically lib w env payload file =
     (case rbind (package_new lib env payload) (\<lambda>p.
             case cl_package_print lib p of
               Inl e \<Rightarrow> Inl (CatSerialization e)
             | Inr serialized \<Rightarrow>
                 rbind (io_step (wf_create_dir w)) (\<lambda>_.
                 rbind (open_temp (wf_open w) 0 128) (\<lambda>_.
                 rbind (io_step (wf_permissions w)) (\<lambda>_.
                 rbind (io_step (wf_write w)) (\<lambda>_.
                 rbind (io_step (wf_sync w)) (\<lambda>_.
                 rbind (io_step (wf_rename w)) (\<lambda>_. Inr serialized))))))) of
        Inl e \<Rightarrow> (Inl e, file)
      | Inr serialized \<Rightarrow> (Inr (), Some serialized))"

section \<open>The manager\<close>

record catalog_status =
  st_active_version :: catalog_version
  st_active_source :: catalog_source
  st_lkg_version :: "catalog_version option"
  st_generated_at :: "nat option"
  st_loaded_at :: nat
  st_stale :: bool
  st_last_refresh_at :: "nat option"
  st_last_refresh_success :: bool
  st_last_refresh_duration_ms :: "nat option"
  st_last_rejection_reason :: "string option"
  st_last_error :: "string option"
  st_model_count :: nat
  st_provider_count :: nat

record refresh_metrics =
  rm_attempts :: nat
  rm_successes :: nat
  rm_errors :: nat
  rm_rejected_coalesced :: nat
  rm_duration_milliseconds :: nat
  rm_sources :: "catalog_source \<Rightarrow> nat"

record 'k catalog_manager =
  cm_keyring :: "'k keyring"
  cm_skew :: nat
  cm_max_bytes :: nat
  cm_catalog_url :: "string option"
  cm_signature_url :: "string option"
  cm_active :: registry_snapshot
  cm_settings :: "catalog_settings option"
  cm_file :: "string option"
  cm_status :: catalog_status
  cm_runtime :: "runtime_state option"
  cm_sig_etag :: "string option"
  cm_cat_etag :: "string option"
  cm_in_flight :: bool
  cm_completion_seq :: nat
  cm_metrics :: refresh_metrics

record 'k catalog_config =
  cf_keyring :: "'k keyring"
  cf_skew :: nat
  cf_max_bytes :: nat
  cf_catalog_url :: "string option"
  cf_signature_url :: "string option"

definition record_cache_source :: "catalog_source \<Rightarrow> refresh_metrics \<Rightarrow> refresh_metrics" where
  "record_cache_source src m =
     m\<lparr>rm_sources := (rm_sources m)(src := u64_wrapping_add (rm_sources m src) 1)\<rparr>"

definition boot_with_metrics ::
  "('k, 'sk, 'v) catalog_lib \<Rightarrow> 'k catalog_config \<Rightarrow> registry_snapshot \<Rightarrow> nat \<Rightarrow> string option \<Rightarrow>
   string option \<Rightarrow> refresh_metrics \<Rightarrow> 'k catalog_manager" where
  "boot_with_metrics lib cf embedded now fault file m =
     (let (act, lkg_version, generated, last_error) =
            (case lkg_load_with_generated_at lib (cf_keyring cf) now (cf_skew cf) fault file of
               Inr (s, g) \<Rightarrow>
                 (if rg_version s \<ge> rg_version embedded then s else embedded, Some (rg_version s), Some g, None)
             | Inl CatNotFound \<Rightarrow> (embedded, None, None, None)
             | Inl e \<Rightarrow> (embedded, None, None, Some (''LKG cache corrupted: '' @ cl_error_text lib e)))
      in \<lparr>cm_keyring = cf_keyring cf, cm_skew = cf_skew cf, cm_max_bytes = cf_max_bytes cf,
          cm_catalog_url = cf_catalog_url cf, cm_signature_url = cf_signature_url cf,
          cm_active = act, cm_settings = None, cm_file = file,
          cm_status =
            \<lparr>st_active_version = rg_version act, st_active_source = rg_source act,
             st_lkg_version = lkg_version, st_generated_at = generated, st_loaded_at = now,
             st_stale = (last_error \<noteq> None), st_last_refresh_at = None,
             st_last_refresh_success = (last_error = None), st_last_refresh_duration_ms = None,
             st_last_rejection_reason = None, st_last_error = last_error,
             st_model_count = length (rg_models act), st_provider_count = length (rg_providers act)\<rparr>,
          cm_runtime = None, cm_sig_etag = None, cm_cat_etag = None, cm_in_flight = False,
          cm_completion_seq = 0, cm_metrics = record_cache_source (rg_source act) m\<rparr>)"

definition bind_runtime :: "runtime_state \<Rightarrow> 'k catalog_manager \<Rightarrow> 'k catalog_manager" where
  "bind_runtime rt cm = cm\<lparr>cm_runtime := Some rt\<rparr>"

definition bind_settings :: "catalog_settings \<Rightarrow> 'k catalog_manager \<Rightarrow> 'k catalog_manager" where
  "bind_settings s cm = cm\<lparr>cm_settings := Some s\<rparr>"

definition current_snapshot :: "'k catalog_manager \<Rightarrow> registry_snapshot" where
  "current_snapshot cm =
     (case cm_runtime cm of Some rt \<Rightarrow> ps_registry (rt_pool rt) | None \<Rightarrow> cm_active cm)"

definition active_version :: "'k catalog_manager \<Rightarrow> catalog_version" where
  "active_version cm = rg_version (current_snapshot cm)"

definition active_created_unix :: "'k catalog_manager \<Rightarrow> nat" where
  "active_created_unix cm = (case st_generated_at (cm_status cm) of Some g \<Rightarrow> g | None \<Rightarrow> 0)"

text \<open>
  Start-up (\<^verbatim>\<open>state.rs\<close>) composes the first pool from the catalog in force and the settings, and
  binds the runtime and the settings. Later the settings store publishes the registry that its new
  settings give for the catalog in force; an error of that publication is only logged. Of the
  settings document only what concerns the registry is modelled here (not its other sections,
  its file, the proxy and the observers), and the store's work from reading the catalog to
  publishing is one step.
\<close>

definition start_runtime ::
  "('k, 'sk, 'v) catalog_lib \<Rightarrow> catalog_settings \<Rightarrow> account list \<Rightarrow> string option \<Rightarrow> nat \<Rightarrow>
   'k catalog_manager \<Rightarrow> (registry_error + runtime_state) \<times> 'k catalog_manager" where
  "start_runtime lib settings members env now cm =
     (let base = current_snapshot cm;
          initial = (case validate_against_registry (cl_url_parse lib) settings base of
                       Inr composed \<Rightarrow> composed | Inl _ \<Rightarrow> base);
          created = (if active_created_unix cm = 0 then now else active_created_unix cm)
      in case compute_candidate_composition_with_created (cl_host_of lib) 1 members initial env
                (i64_wrap (int created)) of
           Inl e \<Rightarrow> (Inl e, cm)
         | Inr candidate \<Rightarrow>
             (Inr (runtime_new candidate env),
              bind_settings settings (bind_runtime (runtime_new candidate env) cm)))"

definition publish_settings ::
  "('k, 'sk, 'v) catalog_lib \<Rightarrow> catalog_settings \<Rightarrow> 'k catalog_manager \<Rightarrow>
   (settings_error + unit) \<times> 'k catalog_manager" where
  "publish_settings lib settings cm =
     (case validate_against_registry (cl_url_parse lib) settings (cm_active cm) of
        Inl e \<Rightarrow> (Inl e, cm)
      | Inr composed \<Rightarrow>
          (Inr (),
           bind_settings settings
             (case cm_runtime cm of
                None \<Rightarrow> cm
              | Some rt \<Rightarrow> cm\<lparr>cm_runtime := Some (snd (update_registry (cl_host_of lib) composed rt))\<rparr>)))"

definition refresh_is_due :: "nat option \<Rightarrow> nat \<Rightarrow> nat \<Rightarrow> bool" where
  "refresh_is_due refreshed now interval_secs =
     (case refreshed of None \<Rightarrow> True | Some t \<Rightarrow> u64_saturating_sub now t \<ge> interval_secs)"

definition refresh_due :: "nat \<Rightarrow> nat \<Rightarrow> 'k catalog_manager \<Rightarrow> bool" where
  "refresh_due now interval_secs cm \<longleftrightarrow>
     \<not> cm_in_flight cm \<and> refresh_is_due (st_last_refresh_at (cm_status cm)) now interval_secs"

section \<open>Verified updates\<close>

text \<open>
  The commit writes the file and then stores the snapshot; with a runtime it runs only after the
  candidate composition has been computed, and its failure keeps the composition as it is.
\<close>

definition commit_update ::
  "('k, 'sk, 'v) catalog_lib \<Rightarrow> write_faults \<Rightarrow> catalog_envelope \<Rightarrow> string \<Rightarrow> registry_snapshot \<Rightarrow>
   registry_snapshot \<Rightarrow> 'k catalog_manager \<Rightarrow> (catalog_error + unit) \<times> 'k catalog_manager" where
  "commit_update lib w env payload s composed cm =
     (let (written, file) = write_atomically lib w env payload (cm_file cm);
          committed = cm\<lparr>cm_file := file, cm_active := s\<rparr>
      in case cm_runtime cm of
           None \<Rightarrow>
             (case written of
                Inl e \<Rightarrow> (Inl (CatInvalidState (cl_error_text lib e)), cm)
              | Inr _ \<Rightarrow> (Inr (), committed))
         | Some rt \<Rightarrow>
             (case update_registry_with_created_and_commit (cl_host_of lib) composed
                     (i64_wrap (int (generated_at env)))
                     (map_sum (cl_error_text lib) (\<lambda>u. u) written) rt of
                (Inl e, rt') \<Rightarrow> (Inl (CatInvalidState (cl_runtime_text lib e)), cm\<lparr>cm_runtime := Some rt'\<rparr>)
              | (Inr _, rt') \<Rightarrow> (Inr (), committed\<lparr>cm_runtime := Some rt'\<rparr>)))"

definition updated_status :: "catalog_envelope \<Rightarrow> registry_snapshot \<Rightarrow> nat \<Rightarrow> catalog_status \<Rightarrow> catalog_status" where
  "updated_status env s now st =
     st\<lparr>st_active_version := rg_version s, st_active_source := RemoteSigned,
         st_lkg_version := Some (rg_version s), st_generated_at := Some (generated_at env),
         st_loaded_at := now, st_stale := False, st_last_refresh_at := Some now,
         st_last_refresh_success := True, st_last_rejection_reason := None, st_last_error := None,
         st_model_count := length (rg_models s), st_provider_count := length (rg_providers s)\<rparr>"

definition composed_with_settings ::
  "('k, 'sk, 'v) catalog_lib \<Rightarrow> catalog_settings option \<Rightarrow> registry_snapshot \<Rightarrow> catalog_error + registry_snapshot" where
  "composed_with_settings lib settings s =
     (case settings of
        None \<Rightarrow> Inr s
      | Some cs \<Rightarrow>
          map_sum (\<lambda>e. CatInvalidState (cl_settings_text lib e)) (\<lambda>c. c)
            (validate_against_registry (cl_url_parse lib) cs s))"

definition apply_update_inner ::
  "('k, 'sk, 'v) catalog_lib \<Rightarrow> write_faults \<Rightarrow> catalog_envelope \<Rightarrow> string \<Rightarrow> nat \<Rightarrow> 'k catalog_manager \<Rightarrow>
   (catalog_error + registry_snapshot) \<times> 'k catalog_manager" where
  "apply_update_inner lib w env payload now cm =
     (case verify_catalog_envelope (cl_codec lib) env payload (cm_keyring cm)
             (Some (rg_version (cm_active cm))) (st_lkg_version (cm_status cm)) now (cm_skew cm) of
        Inl e \<Rightarrow> (Inl (CatVerification e), cm)
      | Inr verified \<Rightarrow>
          let s = verified\<lparr>rg_source := RemoteSigned\<rparr> in
          case composed_with_settings lib (cm_settings cm) s of
            Inl e \<Rightarrow> (Inl e, cm)
          | Inr composed \<Rightarrow>
              (case commit_update lib w env payload s composed cm of
                 (Inl e, cm') \<Rightarrow> (Inl e, cm')
               | (Inr _, cm') \<Rightarrow> (Inr s, cm'\<lparr>cm_status := updated_status env s now (cm_status cm')\<rparr>)))"

definition failed_status :: "('k, 'sk, 'v) catalog_lib \<Rightarrow> catalog_error \<Rightarrow> nat \<Rightarrow> catalog_status \<Rightarrow> catalog_status" where
  "failed_status lib e now st =
     st\<lparr>st_stale := True, st_last_refresh_at := Some now, st_last_refresh_success := False,
         st_last_error := Some (cl_error_text lib e), st_last_rejection_reason := Some (rejection_reason e)\<rparr>"

definition apply_verified_update ::
  "('k, 'sk, 'v) catalog_lib \<Rightarrow> write_faults \<Rightarrow> catalog_envelope \<Rightarrow> string \<Rightarrow> nat \<Rightarrow> 'k catalog_manager \<Rightarrow>
   (catalog_error + registry_snapshot) \<times> 'k catalog_manager" where
  "apply_verified_update lib w env payload now cm =
     (case apply_update_inner lib w env payload now cm of
        (Inl e, cm') \<Rightarrow> (Inl e, cm'\<lparr>cm_status := failed_status lib e now (cm_status cm')\<rparr>)
      | (Inr s, cm') \<Rightarrow> (Inr s, cm'))"

section \<open>Fetching\<close>

definition DEFAULT_REMOTE_CATALOG_URL :: string where
  "DEFAULT_REMOTE_CATALOG_URL =
     ''https://raw.githubusercontent.com/Indosaram/mahoquot-proxy/model-catalog-v1/models-v1.json''"

definition DEFAULT_REMOTE_SIGNATURE_URL :: string where
  "DEFAULT_REMOTE_SIGNATURE_URL =
     ''https://raw.githubusercontent.com/Indosaram/mahoquot-proxy/model-catalog-v1/models-v1.json.sig''"

definition validate_url :: "('k, 'sk, 'v) catalog_lib \<Rightarrow> string \<Rightarrow> catalog_error + unit" where
  "validate_url lib url_str =
     (case cl_url_parse lib url_str of
        Inl e \<Rightarrow> Inl (CatHttp (''invalid catalog URL '' @ [CHR 0x27] @ url_str @ [CHR 0x27] @ '': '' @ e))
      | Inr u \<Rightarrow>
          if url_username u \<noteq> [] \<or> url_password u \<noteq> None
          then Inl (CatHttp ''catalog URL must not contain credentials'')
          else if url_scheme u = ''https'' then Inr ()
          else if url_scheme u = ''http'' then
            (let host = (case url_host u of Some h \<Rightarrow> h | None \<Rightarrow> []) in
             if host = ''127.0.0.1'' \<or> host = ''localhost'' \<or> host = ''::1'' then Inr ()
             else Inl (CatHttp (''insecure HTTP URL not allowed for remote catalog: '' @ url_str)))
          else Inl (CatHttp (''unsupported URL scheme '' @ [CHR 0x27] @ url_scheme u @ [CHR 0x27] @ '' in '' @ url_str)))"

record http_answer =
  ha_status :: nat
  ha_etag :: "string option"
  ha_content_length :: "nat option"
  ha_chunks :: "(string + string) list"

text \<open>The body read so far never exceeds the cap; a chunk is a failed read or its bytes.\<close>

fun read_chunks :: "nat \<Rightarrow> string \<Rightarrow> string \<Rightarrow> (string + string) list \<Rightarrow> catalog_error + string" where
  "read_chunks cap ctx body [] = Inr body"
| "read_chunks cap ctx body (Inl e # chunks) =
     Inl (CatHttp (''failed to read '' @ ctx @ '' bytes: '' @ e))"
| "read_chunks cap ctx body (Inr chunk # chunks) =
     (if u64_saturating_add (length body) (length chunk) > cap
      then Inl (CatHttp (ctx @ '' body size '' @ dec_of_nat (u64_saturating_add (length body) (length chunk)) @
             '' exceeds cap '' @ dec_of_nat cap))
      else read_chunks cap ctx (body @ chunk) chunks)"

definition read_stream_bounded_body :: "nat \<Rightarrow> string \<Rightarrow> http_answer \<Rightarrow> catalog_error + string" where
  "read_stream_bounded_body cap ctx a =
     (if (case ha_content_length a of Some n \<Rightarrow> n > cap | None \<Rightarrow> False)
      then Inl (CatHttp (ctx @ '' body size '' @ dec_of_nat (the (ha_content_length a)) @ '' exceeds cap '' @ dec_of_nat cap))
      else read_chunks cap ctx [] (ha_chunks a))"

text \<open>
  What one of the two requests yields: nothing new, or the body with its entity tag. The server
  may answer anything, whether or not the request carried the tag of the previous answer.
\<close>

definition conditional_get ::
  "nat \<Rightarrow> string \<Rightarrow> string + http_answer \<Rightarrow> catalog_error + (string \<times> string option) option" where
  "conditional_get cap ctx answer =
     (case answer of
        Inl e \<Rightarrow> Inl (CatHttp (''failed to fetch '' @ ctx @ '': '' @ e))
      | Inr a \<Rightarrow>
          if ha_status a = 304 then Inr None
          else if ha_status a = 404 then Inl RemoteUnpublished
          else if 400 \<le> ha_status a \<and> ha_status a < 600
          then Inl (CatHttp (ctx @ '' HTTP status error: '' @ dec_of_nat (ha_status a)))
          else rbind (read_stream_bounded_body cap ctx a) (\<lambda>body. Inr (Some (body, ha_etag a))))"

definition parse_signature :: "('k, 'sk, 'v) catalog_lib \<Rightarrow> string \<Rightarrow> catalog_error + catalog_envelope" where
  "parse_signature lib bytes =
     (if \<not> utf8_valid bytes then Inl (CatHttp ''signature not UTF-8'')
      else map_sum (\<lambda>e. CatVerification (MalformedJson e)) (\<lambda>v. v) (cl_envelope_parse lib bytes))"

definition adopt_fetched ::
  "('k, 'sk, 'v) catalog_lib \<Rightarrow> write_faults \<Rightarrow> catalog_envelope \<Rightarrow> string \<Rightarrow> string option \<Rightarrow> string option \<Rightarrow>
   nat \<Rightarrow> 'k catalog_manager \<Rightarrow> (catalog_error + registry_snapshot) \<times> 'k catalog_manager" where
  "adopt_fetched lib w env payload sig_etag cat_etag now cm =
     (let tag = (\<lambda>cm. cm\<lparr>cm_sig_etag := sig_etag, cm_cat_etag := cat_etag\<rparr>) in
      if catalog_version env = active_version cm then
        (case verify_catalog_envelope (cl_codec lib) env payload (cm_keyring cm) None None now (cm_skew cm) of
           Inl e \<Rightarrow> (Inl (CatVerification e), cm)
         | Inr _ \<Rightarrow> (Inr (current_snapshot cm), tag cm))
      else case apply_verified_update lib w env payload now cm of
             (Inl e, cm') \<Rightarrow> (Inl e, cm')
           | (Inr s, cm') \<Rightarrow> (Inr s, tag cm'))"

definition fetch_and_apply_inner ::
  "('k, 'sk, 'v) catalog_lib \<Rightarrow> write_faults \<Rightarrow> string + http_answer \<Rightarrow> string + http_answer \<Rightarrow> nat \<Rightarrow>
   'k catalog_manager \<Rightarrow> (catalog_error + registry_snapshot) \<times> 'k catalog_manager" where
  "fetch_and_apply_inner lib w sig_answer cat_answer now cm =
     (case conditional_get (cm_max_bytes cm) ''signature'' sig_answer of
        Inl e \<Rightarrow> (Inl e, cm)
      | Inr None \<Rightarrow> (Inr (current_snapshot cm), cm)
      | Inr (Some (sig_bytes, sig_etag)) \<Rightarrow>
          (case parse_signature lib sig_bytes of
             Inl e \<Rightarrow> (Inl e, cm)
           | Inr env \<Rightarrow>
               (case conditional_get (cm_max_bytes cm) ''catalog'' cat_answer of
                  Inl e \<Rightarrow> (Inl e, cm)
                | Inr None \<Rightarrow> (Inr (current_snapshot cm), cm)
                | Inr (Some (payload, cat_etag)) \<Rightarrow>
                    adopt_fetched lib w env payload sig_etag cat_etag now cm)))"

definition healthy_status :: "nat \<Rightarrow> nat \<Rightarrow> catalog_status \<Rightarrow> catalog_status" where
  "healthy_status now duration st =
     st\<lparr>st_last_refresh_duration_ms := Some duration, st_last_refresh_at := Some now,
         st_last_refresh_success := True, st_stale := False, st_last_rejection_reason := None,
         st_last_error := None\<rparr>"

definition fetch_and_update ::
  "('k, 'sk, 'v) catalog_lib \<Rightarrow> write_faults \<Rightarrow> string + http_answer \<Rightarrow> string + http_answer \<Rightarrow> nat \<Rightarrow> nat \<Rightarrow>
   'k catalog_manager \<Rightarrow> (catalog_error + registry_snapshot) \<times> 'k catalog_manager" where
  "fetch_and_update lib w sig_answer cat_answer now duration cm0 =
     (let m0 = cm_metrics cm0;
          cm = cm0\<lparr>cm_metrics := m0\<lparr>rm_attempts := u64_wrapping_add (rm_attempts m0) 1\<rparr>\<rparr>;
          url_or = (\<lambda>u d. case u of Some x \<Rightarrow> x | None \<Rightarrow> d)
      in case rbind (validate_url lib (url_or (cm_catalog_url cm) DEFAULT_REMOTE_CATALOG_URL)) (\<lambda>_.
                validate_url lib (url_or (cm_signature_url cm) DEFAULT_REMOTE_SIGNATURE_URL)) of
           Inl e \<Rightarrow> (Inl e, cm)
         | Inr _ \<Rightarrow>
             let (result, cm1) = fetch_and_apply_inner lib w sig_answer cat_answer now cm;
                 m1 = cm_metrics cm1;
                 m2 = m1\<lparr>rm_duration_milliseconds := u64_wrapping_add (rm_duration_milliseconds m1) duration\<rparr>;
                 cm2 = cm1\<lparr>cm_metrics := m2\<rparr>
             in case result of
                  Inr s \<Rightarrow>
                    (Inr s, cm2\<lparr>cm_metrics := record_cache_source (rg_source s)
                                   (m2\<lparr>rm_successes := u64_wrapping_add (rm_successes m2) 1\<rparr>),
                                 cm_status := healthy_status now duration (cm_status cm2)\<rparr>)
                | Inl RemoteUnpublished \<Rightarrow>
                    (Inr (current_snapshot cm2), cm2\<lparr>cm_status := healthy_status now duration (cm_status cm2)\<rparr>)
                | Inl e \<Rightarrow>
                    (Inl e, cm2\<lparr>cm_metrics := m2\<lparr>rm_errors := u64_wrapping_add (rm_errors m2) 1\<rparr>,
                                cm_status := (failed_status lib e now (cm_status cm2))
                                  \<lparr>st_last_refresh_duration_ms := Some duration\<rparr>\<rparr>))"

section \<open>The queue of refreshes\<close>

datatype refresh_enqueue = RefreshAccepted | RefreshCoalesced

definition enqueue_refresh :: "'k catalog_manager \<Rightarrow> refresh_enqueue \<times> 'k catalog_manager" where
  "enqueue_refresh cm =
     (if cm_in_flight cm
      then (RefreshCoalesced,
            cm\<lparr>cm_metrics := (cm_metrics cm)\<lparr>rm_rejected_coalesced :=
                 u64_wrapping_add (rm_rejected_coalesced (cm_metrics cm)) 1\<rparr>\<rparr>)
      else (RefreshAccepted, cm\<lparr>cm_in_flight := True\<rparr>))"

text \<open>The spawned task, once its fetch has returned\<close>

definition finish_refresh :: "'k catalog_manager \<Rightarrow> 'k catalog_manager" where
  "finish_refresh cm =
     cm\<lparr>cm_in_flight := False, cm_completion_seq := u64_wrapping_add (cm_completion_seq cm) 1\<rparr>"

end
