(* ===== verification/Catalog_Manager_Props.thy ===== *)
theory Catalog_Manager_Props
  imports Catalog_Manager
begin

text \<open>
  What the catalog manager guarantees: the catalog in force is never replaced by an older one and
  only by one that a trusted key signed, a failed refresh changes nothing that requests see, and a
  restart comes back with the catalog that was in force, as long as it has not expired.
\<close>

section \<open>Commits\<close>

lemma write_atomically_Inr:
  assumes "write_atomically lib w env payload stored = (Inr u, stored')"
  shows "\<exists>p serialized. package_new lib env payload = Inr p \<and> cl_package_print lib p = Inr serialized \<and>
    stored' = Some serialized"
proof -
  from assms obtain serialized where
    "rbind (package_new lib env payload) (\<lambda>p.
       case cl_package_print lib p of
         Inl e \<Rightarrow> Inl (CatSerialization e)
       | Inr serialized \<Rightarrow>
           rbind (io_step (wf_create_dir w)) (\<lambda>_.
           rbind (open_temp (wf_open w) 0 128) (\<lambda>_.
           rbind (io_step (wf_permissions w)) (\<lambda>_.
           rbind (io_step (wf_write w)) (\<lambda>_.
           rbind (io_step (wf_sync w)) (\<lambda>_.
           rbind (io_step (wf_rename w)) (\<lambda>_. Inr serialized))))))) = Inr serialized"
    and "stored' = Some serialized"
    unfolding write_atomically_def by (auto split: sum.splits simp del: rbind_eq_Inr)
  then show ?thesis by (cases "package_new lib env payload") (auto split: sum.splits)
qed

lemma write_atomically_Inl:
  "write_atomically lib w env payload stored = (Inl e, stored') \<Longrightarrow> stored' = stored"
  by (auto simp: write_atomically_def split: sum.splits)

text \<open>Composing a pool and applying settings keep the version of the registry.\<close>

lemma prefix_aliases_version: "rg_version (foldl add_prefix_alias s ps) = rg_version s"
  by (induction ps arbitrary: s) (auto simp: add_prefix_alias_def split: sum.splits)

lemma composition_version:
  assumes "compute_candidate_composition_with_created host_of gen members reg env created = Inr pool"
  shows "rg_version (ps_registry pool) = rg_version reg"
proof -
  from assms obtain s t where "registry_with_account_contributions members reg = Inr s"
    and "env_contribution members env s = Inr t"
    and "ps_registry pool = foldl add_prefix_alias t
       (prefixed_model_aliases host_of (project_model_entries t members) members t)"
    by (rule composition_parts)
  then show ?thesis
    using registry_contributions_grow[of members reg s] env_contribution_grows[of members env s t]
    by (simp add: grows_def prefix_aliases_version)
qed

lemma settings_keep_version:
  "validate_against_registry url_parse settings s = Inr composed \<Longrightarrow> rg_version composed = rg_version s"
  by (auto simp: validate_against_registry_def lift_registry_def compose_with_settings_def
      split: prod.splits sum.splits)

lemma composed_with_settings_version:
  "composed_with_settings lib settings s = Inr composed \<Longrightarrow> rg_version composed = rg_version s"
  by (cases settings)
    (auto simp: composed_with_settings_def dest: settings_keep_version)

text \<open>A runtime serves a version when both the published pool and the base registry have it.\<close>

definition serves_version :: "catalog_version \<Rightarrow> runtime_state \<Rightarrow> bool" where
  "serves_version v rt \<longleftrightarrow> rg_version (ps_registry (rt_pool rt)) = v \<and> rg_version (base_registry rt) = v"

lemma update_registry_published:
  assumes "update_registry_with_created_and_commit host_of reg created commit rt = (r, rt')"
  shows "case r of Inl _ \<Rightarrow> rt_pool rt' = rt_pool rt \<and> base_registry rt' = base_registry rt
    | Inr pool \<Rightarrow> commit = Inr () \<and> rt_pool rt' = pool \<and> serves_version (rg_version reg) rt'"
  using assms
  by (auto simp: update_registry_with_created_and_commit_def Let_def serves_version_def composition_version
      split: sum.splits)

text \<open>What a failed commit leaves alone\<close>

definition unpublished :: "'k catalog_manager \<Rightarrow> 'k catalog_manager \<Rightarrow> bool" where
  "unpublished cm cm' \<longleftrightarrow>
     cm_active cm' = cm_active cm \<and> cm_file cm' = cm_file cm \<and> cm_settings cm' = cm_settings cm \<and>
     cm_keyring cm' = cm_keyring cm \<and> cm_skew cm' = cm_skew cm \<and>
     cm_sig_etag cm' = cm_sig_etag cm \<and> cm_cat_etag cm' = cm_cat_etag cm \<and>
     st_lkg_version (cm_status cm') = st_lkg_version (cm_status cm) \<and>
     st_active_version (cm_status cm') = st_active_version (cm_status cm) \<and>
     map_option (\<lambda>rt. (rt_pool rt, base_registry rt)) (cm_runtime cm') =
       map_option (\<lambda>rt. (rt_pool rt, base_registry rt)) (cm_runtime cm)"

lemma unpublished_refl [simp]: "unpublished cm cm"
  by (simp add: unpublished_def)

lemma unpublished_trans: "unpublished a b \<Longrightarrow> unpublished b c \<Longrightarrow> unpublished a c"
  by (simp add: unpublished_def)

lemma unpublished_current: "unpublished cm cm' \<Longrightarrow> current_snapshot cm' = current_snapshot cm"
  by (auto simp: unpublished_def current_snapshot_def split: option.splits)

lemma commit_update_Inl:
  assumes "commit_update lib w env payload s composed cm = (Inl e, cm')"
  shows "unpublished cm cm' \<and> cm_status cm' = cm_status cm"
proof (cases "cm_runtime cm")
  case None
  with assms show ?thesis by (auto simp: commit_update_def split: sum.splits prod.splits)
next
  case (Some rt)
  obtain written stored where w: "write_atomically lib w env payload (cm_file cm) = (written, stored)"
    by (cases "write_atomically lib w env payload (cm_file cm)")
  obtain r rt' where u: "update_registry_with_created_and_commit (cl_host_of lib) composed
      (i64_wrap (int (generated_at env))) (map_sum (cl_error_text lib) (\<lambda>u. u) written) rt = (r, rt')"
    by (cases "update_registry_with_created_and_commit (cl_host_of lib) composed
      (i64_wrap (int (generated_at env))) (map_sum (cl_error_text lib) (\<lambda>u. u) written) rt")
  from assms Some w u obtain e' where r: "r = Inl e'" and cm': "cm' = cm\<lparr>cm_runtime := Some rt'\<rparr>"
    by (auto simp: commit_update_def split: sum.splits)
  from update_registry_published[OF u] r Some show ?thesis by (simp add: cm' unpublished_def)
qed

lemma commit_update_Inr:
  assumes "commit_update lib w env payload s composed cm = (Inr u, cm')"
  shows "\<exists>stored rt. write_atomically lib w env payload (cm_file cm) = (Inr (), stored) \<and>
    cm' = cm\<lparr>cm_file := stored, cm_active := s, cm_runtime := rt\<rparr> \<and>
    pred_option (serves_version (rg_version composed)) rt"
proof -
  obtain written stored where w: "write_atomically lib w env payload (cm_file cm) = (written, stored)"
    by (cases "write_atomically lib w env payload (cm_file cm)")
  show ?thesis
  proof (cases "cm_runtime cm")
    case None
    with assms w show ?thesis
      by (auto simp: commit_update_def split: sum.splits intro!: exI[of _ None])
  next
    case (Some rt)
    obtain r rt' where u: "update_registry_with_created_and_commit (cl_host_of lib) composed
        (i64_wrap (int (generated_at env))) (map_sum (cl_error_text lib) (\<lambda>u. u) written) rt = (r, rt')"
      by (cases "update_registry_with_created_and_commit (cl_host_of lib) composed
        (i64_wrap (int (generated_at env))) (map_sum (cl_error_text lib) (\<lambda>u. u) written) rt")
    from assms Some w u obtain pool where r: "r = Inr pool"
      and cm': "cm' = cm\<lparr>cm_file := stored, cm_active := s, cm_runtime := Some rt'\<rparr>"
      by (auto simp: commit_update_def split: sum.splits)
    from update_registry_published[OF u] r
    have "written = Inr ()" "serves_version (rg_version composed) rt'" by (cases written; simp)+
    with w cm' show ?thesis by auto
  qed
qed

section \<open>Updates\<close>

lemma apply_verified_Inl:
  assumes "apply_verified_update lib w env payload now cm = (Inl e, cm')"
  shows "unpublished cm cm'"
proof -
  obtain r cm1 where a: "apply_update_inner lib w env payload now cm = (r, cm1)"
    by (cases "apply_update_inner lib w env payload now cm")
  with assms have r: "r = Inl e" and cm': "cm' = cm1\<lparr>cm_status := failed_status lib e now (cm_status cm1)\<rparr>"
    by (auto simp: apply_verified_update_def split: sum.splits)
  from a r have "unpublished cm cm1"
    by (auto simp: apply_update_inner_def Let_def split: sum.splits prod.splits dest: commit_update_Inl)
  then show ?thesis by (simp add: cm' unpublished_def failed_status_def)
qed

lemma apply_verified_Inr:
  assumes "apply_verified_update lib w env payload now cm = (Inr s, cm')"
  shows "\<exists>verified composed stored rt.
    verify_catalog_envelope (cl_codec lib) env payload (cm_keyring cm) (Some (rg_version (cm_active cm)))
      (st_lkg_version (cm_status cm)) now (cm_skew cm) = Inr verified \<and>
    s = verified\<lparr>rg_source := RemoteSigned\<rparr> \<and>
    composed_with_settings lib (cm_settings cm) s = Inr composed \<and>
    write_atomically lib w env payload (cm_file cm) = (Inr (), stored) \<and>
    pred_option (serves_version (rg_version s)) rt \<and>
    cm' = cm\<lparr>cm_file := stored, cm_active := s, cm_runtime := rt,
              cm_status := updated_status env s now (cm_status cm)\<rparr>"
proof -
  from assms have a: "apply_update_inner lib w env payload now cm = (Inr s, cm')"
    by (auto simp: apply_verified_update_def split: sum.splits prod.splits)
  then obtain verified composed cm1 where
    v: "verify_catalog_envelope (cl_codec lib) env payload (cm_keyring cm) (Some (rg_version (cm_active cm)))
      (st_lkg_version (cm_status cm)) now (cm_skew cm) = Inr verified"
    and s: "s = verified\<lparr>rg_source := RemoteSigned\<rparr>"
    and c: "composed_with_settings lib (cm_settings cm) s = Inr composed"
    and m: "commit_update lib w env payload s composed cm = (Inr (), cm1)"
    and cm': "cm' = cm1\<lparr>cm_status := updated_status env s now (cm_status cm1)\<rparr>"
    by (auto simp: apply_update_inner_def Let_def split: sum.splits prod.splits)
  from commit_update_Inr[OF m] obtain stored rt where
    w: "write_atomically lib w env payload (cm_file cm) = (Inr (), stored)"
    and cm1: "cm1 = cm\<lparr>cm_file := stored, cm_active := s, cm_runtime := rt\<rparr>"
    and "pred_option (serves_version (rg_version composed)) rt" by (elim exE conjE) (rule that)
  then have rt: "pred_option (serves_version (rg_version s)) rt"
    by (simp add: composed_with_settings_version[OF c])
  have cm2: "cm' = cm\<lparr>cm_file := stored, cm_active := s, cm_runtime := rt,
      cm_status := updated_status env s now (cm_status cm)\<rparr>" by (simp add: cm' cm1)
  show ?thesis by (rule exI[of _ verified], intro exI conjI, rule v, rule s, rule c, rule w, rule rt, rule cm2)
qed

text \<open>The parts of a successful verification\<close>

lemma verify_Inr:
  "verify_catalog_envelope cc env payload kr act lkg now skew = Inr s \<longleftrightarrow>
     (\<exists>k. check_key env kr = Inr k \<and> check_version env act lkg = Inr () \<and> check_times env now skew = Inr () \<and>
        check_signature cc env payload k = Inr () \<and> check_payload cc env payload = Inr s)"
  by (auto simp: verify_catalog_envelope_def)

lemma verify_newer:
  assumes "verify_catalog_envelope cc env payload kr (Some v) lkg now skew = Inr s"
  shows "v < rg_version s" "rg_version s = catalog_version env"
  using assms by (auto simp: verify_Inr version_threshold_newer check_payload_Inr)

section \<open>Runs\<close>

text \<open>
  What happens to the catalog and to the runtime that serves it: updates, the start of the runtime,
  changes of settings, and the operations of the runtime that recompose the pool.
\<close>

datatype manager_op =
    ApplyUpdate write_faults catalog_envelope string nat
  | FetchUpdate write_faults "string + http_answer" "string + http_answer" nat nat
  | StartRuntime catalog_settings "account list" "string option" nat
  | PublishSettings catalog_settings
  | ReloadMembers "account list"
  | RefreshRuntime
  | PublishDiscovery "string \<Rightarrow> string" string string devin_catalog devin_cache
  | EnqueueRefresh
  | FinishRefresh

definition on_runtime :: "(runtime_state \<Rightarrow> runtime_state) \<Rightarrow> 'k catalog_manager \<Rightarrow> 'k catalog_manager" where
  "on_runtime f cm = cm\<lparr>cm_runtime := map_option f (cm_runtime cm)\<rparr>"

fun manager_step :: "('k, 'sk, 'v) catalog_lib \<Rightarrow> 'k catalog_manager \<Rightarrow> manager_op \<Rightarrow> 'k catalog_manager" where
  "manager_step lib cm (ApplyUpdate w env payload now) = snd (apply_verified_update lib w env payload now cm)"
| "manager_step lib cm (FetchUpdate w sa ca now d) = snd (fetch_and_update lib w sa ca now d cm)"
| "manager_step lib cm (StartRuntime settings members env now) = snd (start_runtime lib settings members env now cm)"
| "manager_step lib cm (PublishSettings settings) = snd (publish_settings lib settings cm)"
| "manager_step lib cm (ReloadMembers members) = on_runtime (\<lambda>rt. snd (reload_accounts (cl_host_of lib) members rt)) cm"
| "manager_step lib cm RefreshRuntime = on_runtime (\<lambda>rt. snd (refresh_composition (cl_host_of lib) rt)) cm"
| "manager_step lib cm (PublishDiscovery revision i target devin cache) =
     on_runtime (\<lambda>rt. fst (snd (publish_devin_member_catalog (cl_host_of lib) revision i target devin (rt, cache)))) cm"
| "manager_step lib cm EnqueueRefresh = snd (enqueue_refresh cm)"
| "manager_step lib cm FinishRefresh = finish_refresh cm"

text \<open>
  \<open>signed_by lib kr s\<close>: there is an envelope whose own signature verifies, under the key of the
  keyring that it names, over its fields and a payload, the version in the envelope is the
  catalog's, and the payload parses to the catalog, the label of its source apart.
\<close>

definition signed_by :: "('k, 'sk, 'v) catalog_lib \<Rightarrow> 'k keyring \<Rightarrow> registry_snapshot \<Rightarrow> bool" where
  "signed_by lib kr s \<longleftrightarrow>
     (\<exists>env payload parsed.
        authentic (cl_codec lib) kr env payload \<and> rg_version s = catalog_version env \<and>
        cc_snapshot_parse (cl_codec lib) payload = Inr parsed \<and> s = parsed\<lparr>rg_source := rg_source s\<rparr>)"

lemma verified_signed:
  assumes "verify_catalog_envelope (cl_codec lib) env payload kr act lkg now skew = Inr verified"
  shows "signed_by lib kr (verified\<lparr>rg_source := src\<rparr>)"
proof -
  from assms obtain k where "check_key env kr = Inr k" "check_signature (cl_codec lib) env payload k = Inr ()"
    and p: "check_payload (cl_codec lib) env payload = Inr verified" unfolding verify_Inr by blast
  then have "authentic (cl_codec lib) kr env payload" by (blast intro: checked_signature_authentic)
  with p show ?thesis
    unfolding signed_by_def check_payload_Inr
    by (intro exI[of _ env] exI[of _ payload] exI[of _ verified]) simp
qed

text \<open>The served registry is in step with the catalog in force.\<close>

definition in_step :: "'k catalog_manager \<Rightarrow> bool" where
  "in_step cm \<longleftrightarrow> pred_option (serves_version (rg_version (cm_active cm))) (cm_runtime cm)"

lemma in_step_current: "in_step cm \<Longrightarrow> rg_version (current_snapshot cm) = rg_version (cm_active cm)"
  by (auto simp: in_step_def current_snapshot_def serves_version_def split: option.splits)

definition succeeds :: "('k, 'sk, 'v) catalog_lib \<Rightarrow> 'k catalog_manager \<Rightarrow> 'k catalog_manager \<Rightarrow> bool" where
  "succeeds lib cm cm' \<longleftrightarrow>
     cm_keyring cm' = cm_keyring cm \<and> (in_step cm \<longrightarrow> in_step cm') \<and>
     (cm_active cm' = cm_active cm \<or>
      rg_version (cm_active cm) < rg_version (cm_active cm') \<and> signed_by lib (cm_keyring cm) (cm_active cm'))"

lemma succeeds_refl [simp]: "succeeds lib cm cm"
  by (simp add: succeeds_def)

lemma succeeds_trans: "succeeds lib a b \<Longrightarrow> succeeds lib b c \<Longrightarrow> succeeds lib a c"
  using less_trans[of "rg_version (cm_active a)" "rg_version (cm_active b)" "rg_version (cm_active c)"]
  unfolding succeeds_def by (elim conjE disjE) simp_all

lemma unpublished_succeeds: "unpublished cm cm' \<Longrightarrow> succeeds lib cm cm'"
  by (cases "cm_runtime cm"; cases "cm_runtime cm'")
    (simp_all add: unpublished_def succeeds_def in_step_def serves_version_def)

text \<open>An operation on the runtime that keeps what it serves\<close>

lemma on_runtime_succeeds:
  assumes "\<And>rt v. serves_version v rt \<Longrightarrow> serves_version v (f rt)"
  shows "succeeds lib cm (on_runtime f cm)"
  using assms by (cases "cm_runtime cm") (simp_all add: succeeds_def on_runtime_def in_step_def)

lemma reload_serves: "serves_version v rt \<Longrightarrow> serves_version v (snd (reload_accounts host_of members rt))"
  by (auto simp: reload_accounts_def Let_def serves_version_def composition_version split: sum.splits)

lemma refresh_serves: "serves_version v rt \<Longrightarrow> serves_version v (snd (refresh_composition host_of rt))"
  by (auto simp: refresh_composition_def Let_def serves_version_def composition_version split: sum.splits)

lemma discovery_serves:
  "serves_version v rt \<Longrightarrow>
   serves_version v (fst (snd (publish_devin_member_catalog host_of revision i target devin (rt, cache))))"
  by (auto simp: publish_devin_member_catalog_def Let_def serves_version_def composition_version
      split: sum.splits option.splits)

lemma update_registry_serves:
  assumes "serves_version v rt" "rg_version reg = v"
  shows "serves_version v (snd (update_registry host_of reg rt))"
proof -
  obtain r rt' where u: "update_registry_with_created_and_commit host_of reg
      (models_created_unix (rt_pool rt)) (Inr ()) rt = (r, rt')" by fastforce
  from update_registry_published[OF u] assms show ?thesis
    by (cases r) (simp_all add: update_registry_def u serves_version_def)
qed

lemma start_runtime_succeeds: "succeeds lib cm (snd (start_runtime lib settings members env now cm))"
proof (cases "start_runtime lib settings members env now cm")
  case (Pair r cm')
  show ?thesis
  proof (cases r)
    case (Inl e)
    with Pair have "cm' = cm" by (auto simp: start_runtime_def Let_def split: sum.splits)
    with Pair show ?thesis by simp
  next
    case (Inr rt)
    with Pair obtain initial candidate created where
      i: "rg_version initial = rg_version (current_snapshot cm)"
      and c: "compute_candidate_composition_with_created (cl_host_of lib) 1 members initial env created = Inr candidate"
      and cm': "cm' = bind_settings settings (bind_runtime (runtime_new candidate env) cm)"
      by (auto simp: start_runtime_def Let_def dest: settings_keep_version split: sum.splits)
    from composition_version[OF c] i
    have "in_step cm \<Longrightarrow> serves_version (rg_version (cm_active cm)) (runtime_new candidate env)"
      by (simp add: serves_version_def runtime_new_def in_step_current)
    then show ?thesis
      by (simp add: Pair cm' succeeds_def bind_settings_def bind_runtime_def in_step_def)
  qed
qed

lemma publish_settings_succeeds: "succeeds lib cm (snd (publish_settings lib settings cm))"
proof (cases "validate_against_registry (cl_url_parse lib) settings (cm_active cm)")
  case (Inr composed)
  note v = settings_keep_version[OF Inr]
  show ?thesis
    by (cases "cm_runtime cm")
      (simp_all add: publish_settings_def Inr succeeds_def bind_settings_def in_step_def update_registry_serves v)
qed (simp add: publish_settings_def)

lemma apply_verified_succeeds: "succeeds lib cm (snd (apply_verified_update lib w env payload now cm))"
proof (cases "apply_verified_update lib w env payload now cm")
  case (Pair r cm')
  show ?thesis
  proof (cases r)
    case (Inl e)
    with Pair show ?thesis by (simp add: apply_verified_Inl unpublished_succeeds)
  next
    case (Inr s)
    with Pair apply_verified_Inr[of lib w env payload now cm s cm'] obtain verified stored rt where
      rt: "pred_option (serves_version (rg_version s)) rt" and v: "verify_catalog_envelope (cl_codec lib) env payload (cm_keyring cm) (Some (rg_version (cm_active cm)))
        (st_lkg_version (cm_status cm)) now (cm_skew cm) = Inr verified"
      and s: "s = verified\<lparr>rg_source := RemoteSigned\<rparr>"
      and cm': "cm' = cm\<lparr>cm_file := stored, cm_active := s, cm_runtime := rt,
              cm_status := updated_status env s now (cm_status cm)\<rparr>" by auto
    from v s have "signed_by lib (cm_keyring cm) s" by (simp add: verified_signed)
    with verify_newer(1)[OF v] rt show ?thesis by (simp add: Pair cm' succeeds_def s in_step_def)
  qed
qed

lemma adopt_fetched_cases:
  assumes "adopt_fetched lib w env payload se ce now cm = (r, cm')"
  shows "(case r of Inl _ \<Rightarrow> unpublished cm cm' | Inr _ \<Rightarrow> succeeds lib cm cm')"
proof (cases "catalog_version env = active_version cm")
  case True
  with assms show ?thesis
    by (auto simp: adopt_fetched_def Let_def succeeds_def in_step_def split: sum.splits)
next
  case False
  obtain r1 cm1 where a: "apply_verified_update lib w env payload now cm = (r1, cm1)"
    by (cases "apply_verified_update lib w env payload now cm")
  have s: "succeeds lib cm cm1" using apply_verified_succeeds[of lib cm w env payload now] a by simp
  show ?thesis
  proof (cases r1)
    case (Inl e)
    with False assms a have "r = Inl e" "cm' = cm1" by (auto simp: adopt_fetched_def Let_def)
    with apply_verified_Inl a Inl show ?thesis by auto
  next
    case (Inr t)
    with False assms a have "r = Inr t" "cm' = cm1\<lparr>cm_sig_etag := se, cm_cat_etag := ce\<rparr>"
      by (auto simp: adopt_fetched_def Let_def)
    with s show ?thesis by (simp add: succeeds_def in_step_def)
  qed
qed

lemma fetch_inner_cases:
  assumes "fetch_and_apply_inner lib w sa ca now cm = (r, cm')"
  shows "(case r of Inl _ \<Rightarrow> unpublished cm cm' | Inr _ \<Rightarrow> succeeds lib cm cm')"
proof -
  consider (keeps) "cm' = cm"
    | (adopts) env payload se ce where "adopt_fetched lib w env payload se ce now cm = (r, cm')"
    using assms unfolding fetch_and_apply_inner_def
    by (auto split: sum.splits option.splits prod.splits)
  then show ?thesis
  proof cases
    case keeps
    then show ?thesis by (cases r) simp_all
  next
    case adopts
    then show ?thesis by (rule adopt_fetched_cases)
  qed
qed

lemma fetch_and_update_cases:
  assumes "fetch_and_update lib w sa ca now d cm = (r, cm')"
  shows "succeeds lib cm cm' \<and> (\<forall>e. r = Inl e \<longrightarrow> unpublished cm cm')"
proof -
  let ?cm = "cm\<lparr>cm_metrics := (cm_metrics cm)\<lparr>rm_attempts := u64_wrapping_add (rm_attempts (cm_metrics cm)) 1\<rparr>\<rparr>"
  have u: "unpublished cm ?cm" by (simp add: unpublished_def)
  obtain r1 cm1 where f: "fetch_and_apply_inner lib w sa ca now ?cm = (r1, cm1)"
    by (cases "fetch_and_apply_inner lib w sa ca now ?cm")
  note c = fetch_inner_cases[OF f]
  have quiet: "unpublished cm1 (cm1\<lparr>cm_metrics := m, cm_status := healthy_status now d (cm_status cm1)\<rparr>)"
    "unpublished cm1 (cm1\<lparr>cm_metrics := m,
       cm_status := (failed_status lib e now (cm_status cm1))\<lparr>st_last_refresh_duration_ms := Some d\<rparr>\<rparr>)" for m e
    by (simp_all add: unpublished_def healthy_status_def failed_status_def)
  show ?thesis
  proof (cases r1)
    case (Inl e)
    with c have uc: "unpublished cm cm1" using u unpublished_trans by fastforce
    have "unpublished cm cm'"
      using assms f Inl u uc quiet unpublished_trans[OF uc]
      by (cases e) (auto simp: fetch_and_update_def Let_def split: sum.splits)
    then show ?thesis by (simp add: unpublished_succeeds)
  next
    case (Inr s)
    with c have sc: "succeeds lib cm cm1" using u by (simp add: succeeds_def in_step_def)
    show ?thesis
      using assms f Inr u sc succeeds_trans[OF sc unpublished_succeeds[OF quiet(1)]]
      by (auto simp: fetch_and_update_def Let_def unpublished_succeeds split: sum.splits)
  qed
qed

lemma manager_step_succeeds: "succeeds lib cm (manager_step lib cm c)"
proof (cases c)
  case (ApplyUpdate w env payload now)
  then show ?thesis by (simp add: apply_verified_succeeds)
next
  case (FetchUpdate w sa ca now d)
  then show ?thesis using fetch_and_update_cases by (metis manager_step.simps(2) prod.collapse)
next
  case (StartRuntime settings members env now)
  then show ?thesis by (simp add: start_runtime_succeeds)
next
  case (PublishSettings settings)
  then show ?thesis by (simp add: publish_settings_succeeds)
next
  case (ReloadMembers members)
  then show ?thesis by (simp add: on_runtime_succeeds reload_serves)
next
  case RefreshRuntime
  then show ?thesis by (simp add: on_runtime_succeeds refresh_serves)
next
  case (PublishDiscovery revision i target devin cache)
  then show ?thesis by (simp add: on_runtime_succeeds discovery_serves)
qed (simp_all add: succeeds_def in_step_def enqueue_refresh_def finish_refresh_def)

interpretation catalog_machine:
  invariant_machine cm "manager_step lib" "succeeds lib cm" for cm :: "'k catalog_manager" and lib
  by unfold_locales (auto intro: succeeds_trans manager_step_succeeds)

lemma loaded_file_signed:
  "lkg_load_with_generated_at lib kr now skew fault stored = Inr (s, g) \<Longrightarrow> signed_by lib kr s"
  by (auto simp: lkg_load_with_generated_at_def package_verify_def intro: verified_signed
      split: option.splits sum.splits)

lemma boot_active:
  fixes lib :: "('k, 'sk, 'v) catalog_lib" and cf embedded now fault stored m
  defines "cm \<equiv> boot_with_metrics lib cf embedded now fault stored m"
  shows "rg_version embedded \<le> rg_version (cm_active cm)" "cm_keyring cm = cf_keyring cf" "in_step cm"
    "cm_active cm = embedded \<or> signed_by lib (cf_keyring cf) (cm_active cm)"
  by (auto simp: cm_def boot_with_metrics_def Let_def in_step_def dest: loaded_file_signed
      split: sum.splits catalog_error.splits prod.splits)

text \<open>
  C19. The catalog is never downgraded. Along every run after a boot (updates, fetches, the start of
  the runtime, changes of settings, reloads, refreshes and discoveries of the runtime) the catalog
  in force is the embedded one or one that a key of the configured keyring signed, its version is
  at least that of the embedded one, and it changes only to a catalog of a strictly higher version
  that a key of the keyring signed. What requests are served from has the version of the catalog in
  force throughout, so the served version never decreases either.
\<close>

theorem catalog_never_downgraded:
  fixes lib :: "('k, 'sk, 'v) catalog_lib" and cf embedded now fault stored m before after
  defines "early \<equiv> foldl (manager_step lib) (boot_with_metrics lib cf embedded now fault stored m) before"
    and "late \<equiv> foldl (manager_step lib) (boot_with_metrics lib cf embedded now fault stored m) (before @ after)"
  shows "rg_version embedded \<le> rg_version (cm_active early) \<and>
    (cm_active early = embedded \<or> signed_by lib (cf_keyring cf) (cm_active early)) \<and>
    (cm_active late = cm_active early \<or>
     rg_version (cm_active early) < rg_version (cm_active late) \<and>
     signed_by lib (cf_keyring cf) (cm_active late)) \<and>
    rg_version (current_snapshot early) = rg_version (cm_active early) \<and>
    rg_version (current_snapshot early) \<le> rg_version (current_snapshot late)"
proof -
  let ?b = "boot_with_metrics lib cf embedded now fault stored m"
  have e: "succeeds lib ?b early" unfolding early_def by (rule catalog_machine.inv_reachable)
  have "late = foldl (manager_step lib) early after" by (simp add: early_def late_def)
  then have l: "succeeds lib early late" using catalog_machine.inv_reachable by metis
  note boot = boot_active[where lib = lib and cf = cf and embedded = embedded and now = now and fault = fault and
    stored = stored and m = m]
  have active: "rg_version embedded \<le> rg_version (cm_active early)"
    "cm_active early = embedded \<or> signed_by lib (cf_keyring cf) (cm_active early)"
    using e boot by (auto simp: succeeds_def)
  have k: "cm_keyring early = cf_keyring cf" and i: "in_step early" "in_step late"
    using e l boot by (simp_all add: succeeds_def)
  have "cm_active late = cm_active early \<or> rg_version (cm_active early) < rg_version (cm_active late) \<and>
      signed_by lib (cf_keyring cf) (cm_active late)" using l k by (simp add: succeeds_def)
  then show ?thesis using active in_step_current[OF i(1)] in_step_current[OF i(2)] by auto
qed

text \<open>
  A change of settings that overlaps an update can serve the old version again: the store composes
  its registry from the catalog it read before the update and publishes it after, under another
  lock than the update's.
\<close>

lemma overlapping_settings_downgrade:
  assumes "validate_against_registry url_parse settings old = Inr composed"
    and "update_registry host_of composed rt = (Inr pool, rt')"
  shows "rg_version (ps_registry (rt_pool rt')) = rg_version old"
proof -
  from assms(2) have "serves_version (rg_version composed) rt'"
    using update_registry_published[of host_of composed "models_created_unix (rt_pool rt)" "Inr ()" rt "Inr pool" rt']
    by (simp add: update_registry_def)
  with settings_keep_version[OF assms(1)] show ?thesis by (simp add: serves_version_def)
qed

text \<open>
  C20. A refresh that fails is invisible: whatever goes wrong, in the network, the verification, the
  settings, the composition or the file system, the catalog in force, the last-known-good file, the
  published pool and the entity tags are what they were.
\<close>

theorem failed_refresh_changes_nothing:
  assumes "fetch_and_update lib w sa ca now d cm = (Inl e, cm')"
  shows "cm_active cm' = cm_active cm \<and> cm_file cm' = cm_file cm \<and>
    current_snapshot cm' = current_snapshot cm \<and>
    map_option rt_pool (cm_runtime cm') = map_option rt_pool (cm_runtime cm) \<and>
    cm_sig_etag cm' = cm_sig_etag cm \<and> cm_cat_etag cm' = cm_cat_etag cm"
proof -
  have u: "unpublished cm cm'" using fetch_and_update_cases[OF assms] by simp
  then have "map_option fst (map_option (\<lambda>rt. (rt_pool rt, base_registry rt)) (cm_runtime cm')) =
      map_option fst (map_option (\<lambda>rt. (rt_pool rt, base_registry rt)) (cm_runtime cm))"
    unfolding unpublished_def by simp
  with u show ?thesis by (simp add: unpublished_current option.map_comp o_def) (simp add: unpublished_def)
qed

section \<open>Restarts\<close>

text \<open>\<open>serde_json\<close> reads back what it wrote: the hypothesis of the theorems on restarts.\<close>

definition packages_round_trip :: "('k, 'sk, 'v) catalog_lib \<Rightarrow> bool" where
  "packages_round_trip lib \<longleftrightarrow>
     (\<forall>p bytes. cl_package_print lib p = Inr bytes \<longrightarrow> cl_package_parse lib bytes = Inr p)"

lemma written_package_verifies:
  assumes "packages_round_trip lib"
    and "write_atomically lib w env payload stored = (Inr u, stored')"
    and "verify_catalog_envelope (cl_codec lib) env payload kr act lkg now skew = Inr s"
    and "check_times env now' skew = Inr ()"
  shows "lkg_load_with_generated_at lib kr now' skew None stored' = Inr (s\<lparr>rg_source := LkgCache\<rparr>, generated_at env)"
proof -
  from write_atomically_Inr[OF assms(2)] obtain p bytes where
    p: "package_new lib env payload = Inr p" "cl_package_print lib p = Inr bytes" "stored' = Some bytes" by blast
  from p(1) have f: "pk_envelope p = env" "pk_raw_payload p = Some payload"
    by (auto simp: package_new_def split: sum.splits if_splits)
  from assms(3) have "is_canonical_json (cl_codec lib) payload = Inr True"
    by (auto simp: verify_Inr check_payload_def split: if_splits)
  then have b: "payload_bytes lib p = Inr payload" by (simp add: payload_bytes_def f)
  have "verify_catalog_envelope (cl_codec lib) env payload kr None None now' skew = Inr s"
    using assms(3,4) by (auto simp: verify_Inr check_version_def)
  with b f have "package_verify lib p kr None None now' skew = Inr s" by (simp add: package_verify_def)
  moreover have "cl_package_parse lib bytes = Inr p" using assms(1) p(2) by (simp add: packages_round_trip_def)
  ultimately show ?thesis by (simp add: lkg_load_with_generated_at_def p(3) f)
qed

text \<open>
  C21. A restart keeps the catalog: after a successful update, booting from the file that the update
  wrote, with the same keyring and before the catalog expires, puts the same catalog in force again,
  with its version as the threshold for later updates and its own generation time.
\<close>

theorem restart_keeps_catalog:
  fixes lib :: "('k, 'sk, 'v) catalog_lib" and cf embedded now' cm' m
  assumes "packages_round_trip lib"
    and "apply_verified_update lib w env payload now cm = (Inr s, cm')"
    and "cf_keyring cf = cm_keyring cm" "cf_skew cf = cm_skew cm"
    and "rg_version embedded \<le> rg_version (cm_active cm)"
    and "check_times env now' (cf_skew cf) = Inr ()"
  defines "booted \<equiv> boot_with_metrics lib cf embedded now' None (cm_file cm') m"
  shows "cm_active booted = (cm_active cm')\<lparr>rg_source := LkgCache\<rparr> \<and>
    st_lkg_version (cm_status booted) = st_lkg_version (cm_status cm') \<and>
    active_created_unix booted = active_created_unix cm' \<and> \<not> st_stale (cm_status booted)"
proof -
  from apply_verified_Inr[OF assms(2)] obtain verified stored rt where
    v: "verify_catalog_envelope (cl_codec lib) env payload (cm_keyring cm) (Some (rg_version (cm_active cm)))
      (st_lkg_version (cm_status cm)) now (cm_skew cm) = Inr verified"
    and s: "s = verified\<lparr>rg_source := RemoteSigned\<rparr>"
    and w: "write_atomically lib w env payload (cm_file cm) = (Inr (), stored)"
    and cm': "cm' = cm\<lparr>cm_file := stored, cm_active := s, cm_runtime := rt,
              cm_status := updated_status env s now (cm_status cm)\<rparr>" by auto
  have "lkg_load_with_generated_at lib (cf_keyring cf) now' (cf_skew cf) None (cm_file cm') =
      Inr (verified\<lparr>rg_source := LkgCache\<rparr>, generated_at env)"
    using written_package_verifies[OF assms(1) w v] assms(3,4,6) by (simp add: cm')
  moreover have "rg_version embedded \<le> rg_version verified" using verify_newer(1)[OF v] assms(5) by simp
  ultimately show ?thesis
    by (simp add: booted_def boot_with_metrics_def cm' s updated_status_def active_created_unix_def)
qed

text \<open>
  An expired file forgets the threshold: when the catalog in the file is refused at boot, the
  manager runs on the embedded catalog with no last-known-good version, and a signed catalog that
  is older than the one in the file passes the version check again.
\<close>

lemma refused_file_forgets_threshold:
  fixes lib :: "('k, 'sk, 'v) catalog_lib" and cf embedded now fault stored m
  assumes "lkg_load_with_generated_at lib (cf_keyring cf) now (cf_skew cf) fault stored = Inl e"
  defines "booted \<equiv> boot_with_metrics lib cf embedded now fault stored m"
  shows "cm_active booted = embedded \<and> st_lkg_version (cm_status booted) = None \<and>
    (\<forall>env. rg_version embedded < catalog_version env \<longrightarrow>
       check_version env (Some (rg_version (cm_active booted))) (st_lkg_version (cm_status booted)) = Inr ())"
  using assms(1) by (cases e) (auto simp: booted_def boot_with_metrics_def check_version_def)

text \<open>
  When the file is older than the embedded catalog, the embedded one is in force while the
  generation time reported for it is that of the file.
\<close>

lemma boot_reports_time_of_file:
  assumes "lkg_load_with_generated_at lib (cf_keyring cf) now (cf_skew cf) fault stored = Inr (s, g)"
    and "rg_version s < rg_version embedded"
  shows "cm_active (boot_with_metrics lib cf embedded now fault stored m) = embedded"
    and "active_created_unix (boot_with_metrics lib cf embedded now fault stored m) = g"
  using assms by (simp_all add: boot_with_metrics_def active_created_unix_def)

text \<open>At most one refresh is in flight: a second request is refused until the first has finished.\<close>

lemma enqueue_single_flight:
  "fst (enqueue_refresh cm) = RefreshAccepted \<longleftrightarrow> \<not> cm_in_flight cm"
  "cm_in_flight (snd (enqueue_refresh cm))"
  "fst (enqueue_refresh (snd (enqueue_refresh cm))) = RefreshCoalesced"
  "fst (enqueue_refresh (finish_refresh cm)) = RefreshAccepted"
  by (simp_all add: enqueue_refresh_def finish_refresh_def)

lemma read_chunks_bounded:
  "read_chunks cap ctx body chunks = Inr out \<Longrightarrow> length body \<le> cap \<Longrightarrow> cap < u64_max \<Longrightarrow> length out \<le> cap"
proof (induction cap ctx body chunks rule: read_chunks.induct)
  case (3 cap ctx body chunk chunks)
  then have "u64_saturating_add (length body) (length chunk) \<le> cap"
    "read_chunks cap ctx (body @ chunk) chunks = Inr out" by (auto split: if_splits)
  moreover from this(1) 3(4) have "length (body @ chunk) \<le> cap"
    by (auto simp: u64_saturating_add_def min_def split: if_splits)
  ultimately show ?case using 3 by simp
qed simp_all

text \<open>A fetched body never exceeds the configured cap, whatever the server declares or sends.\<close>

lemma fetched_body_bounded:
  assumes "read_stream_bounded_body cap ctx a = Inr body" and "cap < u64_max"
  shows "length body \<le> cap"
  using assms read_chunks_bounded[of cap ctx "[]" "ha_chunks a" body]
  by (auto simp: read_stream_bounded_body_def split: if_splits)

end
