(* ===== verification/Catalog_Examples.thy ===== *)
theory Catalog_Examples
  imports Catalog_Manager_Props Envelope_Examples
begin

text \<open>The properties of the catalog manager at a concrete library, catalog and file system.\<close>

definition demo_package :: "string catalog_package" where
  "demo_package = \<lparr>pk_envelope = demo_envelope, pk_payload = ''{}'', pk_raw_payload = Some ''{}''\<rparr>"

definition demo_lib :: "(string, string, string) catalog_lib" where
  "demo_lib =
     \<lparr>cl_codec = demo_codec,
      cl_package_parse = (\<lambda>b. if b = ''pkg'' then Inr demo_package else Inl ''parse''),
      cl_package_print = (\<lambda>p. if p = demo_package then Inr ''pkg'' else Inl ''print''),
      cl_envelope_parse = (\<lambda>_. Inr demo_envelope),
      cl_url_parse = (\<lambda>_. Inr \<lparr>url_scheme = ''https'', url_host = Some ''h'', url_username = [], url_password = None\<rparr>),
      cl_host_of = (\<lambda>_. None), cl_error_text = (\<lambda>_. ''error''), cl_settings_text = (\<lambda>_. ''settings''),
      cl_runtime_text = (\<lambda>_. ''runtime'')\<rparr>"

definition demo_config :: "string catalog_config" where
  "demo_config =
     \<lparr>cf_keyring = [(''kid'', ''key'')], cf_skew = 300, cf_max_bytes = 1000, cf_catalog_url = None,
      cf_signature_url = None\<rparr>"

definition demo_embedded :: registry_snapshot where "demo_embedded = catalog\<lparr>rg_version := 0\<rparr>"

definition demo_metrics :: refresh_metrics where
  "demo_metrics =
     \<lparr>rm_attempts = 0, rm_successes = 0, rm_errors = 0, rm_rejected_coalesced = 0,
      rm_duration_milliseconds = 0, rm_sources = (\<lambda>_. 0)\<rparr>"

definition demo_manager :: "string catalog_manager" where
  "demo_manager = boot_with_metrics demo_lib demo_config demo_embedded 50 None None demo_metrics"

definition healthy_disk :: write_faults where
  "healthy_disk =
     \<lparr>wf_create_dir = None, wf_open = (\<lambda>_. Opened), wf_permissions = None, wf_write = None,
      wf_sync = None, wf_rename = None\<rparr>"

lemma demo_round_trip: "packages_round_trip demo_lib"
  by (simp add: packages_round_trip_def demo_lib_def)

lemma demo_manager_eqs:
  "cm_active demo_manager = demo_embedded" "cm_keyring demo_manager = [(''kid'', ''key'')]"
  "cm_skew demo_manager = 300" "st_lkg_version (cm_status demo_manager) = None"
  "cm_settings demo_manager = None" "cm_runtime demo_manager = None" "cm_file demo_manager = None"
  by (simp_all add: demo_manager_def boot_with_metrics_def lkg_load_with_generated_at_def demo_config_def)

lemma demo_writes:
  "write_atomically demo_lib healthy_disk demo_envelope ''{}'' None = (Inr (), Some ''pkg'')"
proof -
  have "utf8_valid ''{}''" by code_simp
  then have "package_new demo_lib demo_envelope ''{}'' = Inr demo_package"
    by (simp add: package_new_def demo_lib_def demo_codec_def demo_package_def)
  moreover have "cl_package_print demo_lib demo_package = Inr ''pkg''" by (simp add: demo_lib_def)
  moreover have "open_temp (\<lambda>_. Opened) 0 128 = Inr ()" by (simp add: eval_nat_numeral)
  ultimately show ?thesis by (simp add: write_atomically_def healthy_disk_def io_step_def)
qed

lemma demo_applies:
  "\<exists>s cm'. apply_verified_update demo_lib healthy_disk demo_envelope ''{}'' 100 demo_manager = (Inr s, cm') \<and>
     cm_file cm' = Some ''pkg'' \<and> cm_active cm' = catalog\<lparr>rg_source := RemoteSigned\<rparr>"
proof -
  have "cl_codec demo_lib = demo_codec" by (simp add: demo_lib_def)
  moreover have "rg_version demo_embedded = 0" by (simp add: demo_embedded_def)
  ultimately have "verify_catalog_envelope (cl_codec demo_lib) demo_envelope ''{}'' (cm_keyring demo_manager)
      (Some (rg_version (cm_active demo_manager))) (st_lkg_version (cm_status demo_manager)) 100
      (cm_skew demo_manager) = Inr catalog"
    using demo_accepted by (simp add: demo_manager_eqs)
  then show ?thesis
    by (simp add: apply_verified_update_def apply_update_inner_def composed_with_settings_def commit_update_def
        demo_manager_eqs demo_writes Let_def)
qed

theorem restart_keeps_catalog_witness:
  "cm_active (boot_with_metrics demo_lib demo_config demo_embedded 200 None (Some ''pkg'') demo_metrics) =
     catalog\<lparr>rg_source := LkgCache\<rparr>"
proof -
  obtain s cm' where a: "apply_verified_update demo_lib healthy_disk demo_envelope ''{}'' 100 demo_manager = (Inr s, cm')"
    and f: "cm_file cm' = Some ''pkg''" "cm_active cm' = catalog\<lparr>rg_source := RemoteSigned\<rparr>"
    using demo_applies by (elim exE conjE) (rule that)
  have "cf_keyring demo_config = cm_keyring demo_manager" "cf_skew demo_config = cm_skew demo_manager"
    by (simp_all add: demo_manager_eqs) (simp_all add: demo_config_def)
  moreover have "rg_version demo_embedded \<le> rg_version (cm_active demo_manager)" by (simp add: demo_manager_eqs)
  moreover have "check_times demo_envelope 200 (cf_skew demo_config) = Inr ()"
    by (simp add: check_times_def demo_envelope_def envelope_new_def demo_config_def u64_saturating_add_def u64_max_def)
  ultimately show ?thesis
    using restart_keeps_catalog[OF demo_round_trip a, of demo_config demo_embedded 200 demo_metrics] f
    by simp
qed

definition unreachable :: "string + http_answer" where "unreachable = Inl ''connection refused''"

theorem failed_refresh_changes_nothing_witness:
  "cm_active (snd (fetch_and_update demo_lib healthy_disk unreachable unreachable 100 5 demo_manager)) = demo_embedded"
proof -
  obtain r cm' where f: "fetch_and_update demo_lib healthy_disk unreachable unreachable 100 5 demo_manager = (r, cm')"
    by (cases "fetch_and_update demo_lib healthy_disk unreachable unreachable 100 5 demo_manager")
  then have "\<exists>e. r = Inl e"
    by (auto simp: fetch_and_update_def Let_def validate_url_def demo_lib_def fetch_and_apply_inner_def
        conditional_get_def unreachable_def split: option.splits)
  then obtain e where "r = Inl e" ..
  with failed_refresh_changes_nothing[of demo_lib healthy_disk unreachable unreachable 100 5 demo_manager e cm'] f
  show ?thesis by (simp add: demo_manager_eqs)
qed

definition short_warmup :: warmup_settings where
  "short_warmup = \<lparr>ws_providers = [], ws_accounts = [(''a'', WarmCustom None 60 120)]\<rparr>"

theorem effective_policy_bounded_witness:
  "ew_idle_secs (effective_account_policy short_warmup ''codex'' ''a'') = 60 \<and>
   ew_idle_secs (effective_account_policy short_warmup ''codex'' ''a'') \<le> 86400"
proof -
  have "warmup_validate short_warmup = Inr ()" by (simp add: warmup_validate_def short_warmup_def warmup_bounds_def)
  from effective_policy_bounded[OF this, of "''codex''" "''a''"] show ?thesis
    by (simp add: effective_account_policy_def short_warmup_def)
qed

end
