(* ===== verification/Spec2Isabelle.thy ===== *)
theory Spec2Isabelle
  imports Router_Props Lcp Scheduler_Examples Envelope_Examples Claude_Denial Claude_Budget
    Affinity_Store Claude_Reset_Order Store_Object Store_Postgres Store_Git
    Cooldown_Examples Pool_Exhaustion Runtime_Examples Refresh_Coordinator Catalog_Examples
begin

text \<open>
  A verification development for mahoquot, a gateway that routes requests for language models
  over a pool of provider accounts. The program is a Rust workspace; the paths below are
  relative to \<^verbatim>\<open>src/crates\<close>.

  \<^bold>\<open>Parts of the program and how they interact.\<close> A request names a model. The model registry
  (\<^verbatim>\<open>registry/src/lib.rs\<close>) resolves the name through aliases and exclusions to provider bindings;
  its catalog arrives in signed envelopes (\<^verbatim>\<open>registry/src/envelope.rs\<close>), which the catalog manager
  (\<^verbatim>\<open>gateway/src/registry\<close>) fetches, verifies and keeps in a file. The runtime state
  (\<^verbatim>\<open>gateway/src/runtime_state.rs\<close>) composes that catalog with the models the loaded accounts
  declare or discover (\<^verbatim>\<open>gateway/src/devin_catalog.rs\<close>) and publishes the result, with the accounts
  and the model list (\<^verbatim>\<open>gateway/src/models_route.rs\<close>), as one pool snapshot. The relay
  (\<^verbatim>\<open>gateway/src/relay.rs\<close>) resolves a request against the snapshot, keeps the accounts
  (\<^verbatim>\<open>gateway/src/account.rs\<close>) that may serve it, among them only the one the scheduler permits
  (\<^verbatim>\<open>gateway/src/scheduler\<close>) and those within their budget (\<^verbatim>\<open>gateway/src/claude_budget.rs\<close>), and
  hands them to the router (\<^verbatim>\<open>router/src/lib.rs\<close>), which picks one: by session affinity first, by
  its strategy otherwise. Conversations without a session id are recognised by the prefix matcher
  (\<^verbatim>\<open>router/src/lcp.rs\<close>), bindings survive restarts in the affinity store
  (\<^verbatim>\<open>gateway/src/affinity_store.rs\<close>), and new sessions on Claude subscriptions follow the reset
  order (\<^verbatim>\<open>gateway/src/claude_reset_order.rs\<close>). The answer of the upstream feeds back: quota
  readings into the usage of the account (\<^verbatim>\<open>gateway/src/usage.rs\<close>), rejections into cooldowns and
  benches, caps of free models into daily trackers (\<^verbatim>\<open>gateway/src/cline_usage.rs\<close>), denials into the
  denial tracker (\<^verbatim>\<open>gateway/src/claude_denial.rs\<close>). Credentials and settings are kept by the
  storage layer (\<^verbatim>\<open>registry/src/store.rs\<close>).

  \<^bold>\<open>Conventions.\<close> A \<open>struct\<close> is a \<open>record\<close>, an \<open>enum\<close> a \<open>datatype\<close>, a method a function that takes
  and returns the state behind the method's mutex. Clocks, files, random numbers and network
  answers are arguments. \<open>Result\<close> is a sum with the error on the left, \<open>i64\<close> is \<open>int\<close> with explicit
  wrapping and saturating operations, \<open>u64\<close> and \<open>usize\<close> are \<open>nat\<close> (\<open>64 word\<close> for digests), \<open>f64\<close>
  percentages are rationals with infinities, NaN and IEEE rounding. \<open>BTreeMap\<close> and \<open>HashMap\<close> are
  sorted association lists, strings are their UTF-8 bytes, header maps are lists of names with the
  value where it is text. Third-party code (JSON and protobuf decoding, Ed25519, SHA-256, HMAC,
  base64, URL parsing, the git program, a database, an object server) is an argument of the
  definitions that use it.

  \<^bold>\<open>Theories.\<close>
  \<^item> \<open>Prelude\<close>: machine integers, results, ordered maps and sets, iterator helpers, and the locale
    \<open>invariant_machine\<close>, which gives reachability of invariants; it is interpreted for the router,
    the prefix matcher, the scheduler, the registry builder, the rank cache, the accounts, the
    discovery cache and the catalog manager. \<open>Strings\<close>, \<open>Text_Parsing\<close>, \<open>Json\<close>: string operations, number parsing and JSON
    values of the standard library and \<^verbatim>\<open>serde_json\<close>.
  \<^item> \<open>Routing\<close>, \<open>Routing_Props\<close>, \<open>Runtime_Examples\<close>: \<open>resolve_model\<close>, \<open>resolve_route\<close>,
    \<open>eligible_indices\<close>, \<open>bound_member_state\<close>, \<open>select_index\<close> of \<^verbatim>\<open>relay.rs\<close> and
    \<open>routable_accounts_for_model\<close>. Shown: a request reaches an account that is entitled to it
    whenever one is left and no other, sessions return to their account (C1, C2), a rejected account
    rests for the models the rejection covers (C4), and a rejection of one Claude model under an
    alias is forgotten (C18).
  \<^item> \<open>Types\<close> (\<^verbatim>\<open>types/src/lib.rs\<close>), \<open>Router\<close>, \<open>Router_Props\<close>: every method of \<open>Router\<close>; the locale
    \<open>picker\<close> is the contract of a routing strategy, interpreted for both strategies. Shown: only
    live members are tracked, only available members are served, rotation is even, the affinity
    table is bounded (C5 to C8), sessions stick.
  \<^item> \<open>Provider_Account\<close>, \<open>Account\<close>, \<open>Cooldowns\<close>, \<open>Cooldown_Props\<close>, \<open>Cooldown_Examples\<close>: credentials
    and their files, the state of an account, and \<open>record_cooldown\<close> with all it changes. Shown: a
    benched quota group stays benched until its deadline whatever happens, a rejection spares the
    other model family, automatic recovery respects the operator (C9 to C11), benches name their
    cause, deadlines are bounded, a reload keeps the deadlines.
  \<^item> \<open>Account_Usage\<close>, \<open>Cline_Usage\<close>: quota readings with their merges, daily token trackers. Shown:
    exhaustion expires, repeated caps do not move a known deadline. \<open>Pool_Exhaustion\<close>: what a client
    is told when all accounts are benched. Shown: the response speaks of credit or of a rate limit
    exactly when all benches agree on it and gives the delay of the earliest reset (C22).
  \<^item> \<open>Devin_Catalog\<close>, \<open>Model_Listing\<close>, \<open>Runtime_Pool\<close>, \<open>Runtime_State\<close>, \<open>Runtime_Props\<close>: discovery,
    projection of the registry on the accounts, composition and publication. Shown: composition
    keeps the catalog, a generation identifies its composition as long as published candidates
    carry fresh generations, an overtaken discovery is rejected, a reload stalls discovery (C12 to
    C15).
  \<^item> \<open>Refresh_Coordinator\<close>: the threads of \<open>RefreshCoordinator\<close> as an inductive step relation over
    its atomic actions. Shown: a coalesced refresh has been served, and the coordinator finishes in
    every schedule (C16, C17).
  \<^item> \<open>Catalog_Settings\<close>, \<open>Catalog_Manager\<close>, \<open>Catalog_Manager_Props\<close>, \<open>Catalog_Examples\<close>: the settings
    that shape the registry, the last-known-good file and \<open>CatalogManager\<close> with boot, the start of the
    runtime (\<^verbatim>\<open>state.rs\<close>), verified updates, the publication of settings and the conditional fetch.
    Shown: the catalog is the embedded one or a signed one and is never downgraded, and neither is
    the version that is served, a failed refresh changes nothing, a restart keeps the catalog (C19
    to C21), what an expired file forgets, and how a change of settings that overlaps an update
    serves the old version.
  \<^item> \<open>Lcp\<close>: \<open>Matcher::resolve\<close>, \<open>bind\<close> and \<open>retain_members\<close>. Shown: the table is bounded, accounts
    are inherited only inside a namespace (C23, C24), bound conversations resume.
  \<^item> \<open>Usage\<close>, \<open>Scheduler\<close>, \<open>Scheduler_Props\<close>, \<open>Scheduler_Examples\<close>: \<open>select_candidate\<close> and every
    operation of \<open>SchedulerRegistry\<close> with its background writes as a queue. Shown: selection is
    complete and follows the margin rule, there is no flapping, and a scheduled account is fit,
    exhausted accounts are held while they are in the pool, reservations are exclusive, drained
    writes leave the current selection and exhaustion times on disk (C25 to C28).
  \<^item> \<open>Registry_Types\<close>, \<open>Registry_Contribution\<close>, \<open>Registry_Snapshot\<close>, \<open>Registry_Snapshot_Props\<close>,
    \<open>Registry_Builder\<close>, \<open>Registry_Examples\<close>: the registry. \<open>capability_profile\<close> recurses without a
    bound in the code and is a \<open>partial_function\<close>, so that not returning is \<open>None\<close>. Shown: aliases
    resolve, exclusions and claims are honoured, accepted settings keep every provider routable,
    built snapshots are usable (C29 to C33), strong sources win, and four places where the code does
    less than it says.
  \<^item> \<open>Registry_Envelope\<close>, \<open>Envelope_Examples\<close>: signing input, keyring, signing and verification.
    Shown: a signature covers every field (C3), the signature of an accepted catalog's own envelope
    verifies and the catalog is newer, timely and valid (C34), what is signed is accepted.
  \<^item> \<open>Civil_Calendar\<close>, \<open>Claude_Budget\<close>: the calendar conversions and the budget tracker. Shown:
    the conversions are the Gregorian calendar, budgets fail closed (C35, C36).
  \<^item> \<open>Affinity_Store\<close>: digests, the persistent binding table and its file. Shown: a restart keeps
    the bindings (C37). \<open>Claude_Denial\<close>: which denials are promoted. \<open>Claude_Reset_Order\<close>: the order
    offered to new sessions.
  \<^item> \<open>Store_Paths\<close>, \<open>Store_Backends\<close>, \<open>Store_Manager\<close>, \<open>Store_Object\<close>, \<open>Store_Postgres\<close>, \<open>Store_Git\<close>:
    storage keys, the backends and the manager; the locale \<open>key_value_store\<close> is the contract of a
    backend. Shown: accepted keys stay below the root, the manager refines a map when operations do
    not overlap, listing an object store returns (C38 to C40), a synchronisation is all or nothing,
    and a \<open>get\<close> that overlaps a \<open>delete\<close> brings the deleted data back.

  \<^bold>\<open>Bounds.\<close> No definition uses fuel. The recursive capability lookup and the listing of an object
  store may not return and are \<open>partial_function\<close>s; C33 and C40 show where they do. Alias walks are
  bounded by \<open>MAX_ALIAS_DEPTH\<close> and attempts at a temporary file by 128, as in the code. Generation
  and sequence counters wrap at \<open>2 ^ 64\<close>; C13, C15, C16, C17 and C28 assume that they do not.

  \<^bold>\<open>Not modelled.\<close> HTTP serving and streaming, protocol translation between provider dialects,
  OAuth flows, the management API, polling of usage, request history (SQLite), plugins, the
  terminal interface, the web interface and the benchmark tools: they are dominated by network
  and file I/O or by JSON rewriting. The failover loop of \<open>handle_relay\<close> is not modelled as a whole:
  the selection, cooldown and exhaustion functions that it calls are.
\<close>

end
